theory Spec2Isabelle
  imports Complex_Main
begin

section \<open>The grid-file loader of BOUT-dev (class GridFile)\<close>

text \<open>
  The development embeds the member functions of \<open>GridFile\<close> (constructor, \<open>hasVar\<close>,
  the scalar and vector \<open>get\<close> overloads, \<open>getField\<close>, the two \<open>readField\<close> overloads,
  \<open>readgrid_3dvar_fft\<close> and \<open>readgrid_3dvar_real\<close>) as functions over an explicit state.
  C++ \<open>int\<close> is modelled by \<open>int\<close>: signed overflow is undefined in C++, and the model
  describes the executions without it. \<open>BoutReal\<close> is modelled by \<open>real\<close>, and the one
  division of the program by its rounding to double precision.
  An exception is a value \<open>Inl e\<close>; so is an access outside an array or a field, which
  the C++ leaves undefined.
\<close>

subsection \<open>Errors and C arithmetic\<close>

datatype error =
    CouldNotOpen            \<comment> \<open>"Could not open file"\<close>
  | FileCannotBeRead        \<comment> \<open>"File cannot be read"\<close>
  | Expecting2D             \<comment> \<open>"Expecting a 2D variable, but ... is 1D with n elements"\<close>
  | CouldntRead0D           \<comment> \<open>"Couldn't read 0D variable"\<close>
  | BadXGuards              \<comment> \<open>"number of x-boundary guard cells ... neither matches"\<close>
  | BadYGuards              \<comment> \<open>"number of y-boundary guard cells ... neither matches"\<close>
  | CouldNotFetch           \<comment> \<open>"Could not fetch data for"\<close>
  | IncorrectSize           \<comment> \<open>"3D variable has incorrect size"\<close>
  | CouldNotRead3D          \<comment> \<open>"WARNING: Could not read ... from grid"\<close>
  | AssertFailed            \<comment> \<open>a failed \<open>ASSERT1\<close>\<close>
  | OutOfBounds             \<comment> \<open>an index outside an array or a field (undefined in C++)\<close>
  | DivisionByZero          \<comment> \<open>integer division by zero or conversion of a non-finite value (undefined in C++)\<close>
  | BadAlloc                \<comment> \<open>an array of negative length\<close>

text \<open>Exceptions of the program proper, as opposed to undefined behaviour.\<close>

fun is_exception :: "error \<Rightarrow> bool" where
  "is_exception OutOfBounds = False"
| "is_exception DivisionByZero = False"
| "is_exception BadAlloc = False"
| "is_exception _ = True"

text \<open>Sequencing of a step that may raise with its continuation.\<close>

definition then_do :: "error + 'a \<Rightarrow> ('a \<Rightarrow> error + 'b) \<Rightarrow> error + 'b" where
  "then_do r k = (case r of Inl e \<Rightarrow> Inl e | Inr v \<Rightarrow> k v)"

text \<open>C++ \<open>/\<close> and \<open>%\<close> on \<open>int\<close> truncate towards zero.\<close>

definition c_div :: "int \<Rightarrow> int \<Rightarrow> int" where
  "c_div a b = sgn a * sgn b * (\<bar>a\<bar> div \<bar>b\<bar>)"

definition c_mod :: "int \<Rightarrow> int \<Rightarrow> int" where
  "c_mod a b = a - b * c_div a b"

text \<open>
  The macro \<open>ASSERT1\<close> is declared outside the files at hand. It raises when the
  condition fails and checking at level 1 is compiled in, and is empty otherwise; whether
  it is compiled in is the parameter \<open>chk\<close>.
\<close>

definition ASSERT1 :: "bool \<Rightarrow> bool \<Rightarrow> error + unit" where
  "ASSERT1 chk c = (if chk \<and> \<not> c then Inl AssertFailed else Inr ())"

text \<open>The loop \<open>for (int i = a; i < n; i++) body\<close>; \<open>Inl\<close> leaves the loop at once.\<close>

function for_loop :: "int \<Rightarrow> int \<Rightarrow> (int \<Rightarrow> 's \<Rightarrow> 'x + 's) \<Rightarrow> 's \<Rightarrow> 'x + 's" where
  "for_loop i n body s =
     (if i < n then (case body i s of Inl e \<Rightarrow> Inl e | Inr s' \<Rightarrow> for_loop (i + 1) n body s')
      else Inr s)"
  by pat_completeness auto
termination
  by (relation "measure (\<lambda>(i, n, body, s). nat (n - i))") auto

declare for_loop.simps [simp del]

subsection \<open>The storage backend\<close>

text \<open>
  Modelled from the spec: the class \<open>DataFormat\<close> is not among the files at hand. The
  spec gives its contract: \<open>isValid\<close>, \<open>getSize\<close> (empty for an absent variable),
  \<open>getAttribute\<close>, \<open>setGlobalOrigin(x=0, y=0, z=0)\<close> and a multi-dimensional,
  cursor-relative \<open>read(destination, name, counts...)\<close> returning a success flag.
  The stored values are given by absolute index; whether a read succeeds is left to the
  backend (\<open>readable\<close>, given the name, the cursor and the counts of the call).
\<close>

record datafile =
  openable :: "string \<Rightarrow> bool"
  is_valid :: bool
  origin :: "int \<times> int \<times> int"
  getSize :: "string \<Rightarrow> int list"
  reals :: "string \<Rightarrow> int \<Rightarrow> int \<Rightarrow> int \<Rightarrow> real"
  ints :: "string \<Rightarrow> int \<Rightarrow> int \<Rightarrow> int \<Rightarrow> int"
  attributes :: "string \<Rightarrow> string option"
  readable :: "string \<Rightarrow> int \<times> int \<times> int \<Rightarrow> int list \<Rightarrow> bool"

text \<open>
  Modelled from the spec: \<open>setGlobalOrigin\<close> of the backend repositions the read cursor;
  called without arguments it resets the cursor to the origin \<open>(0, 0, 0)\<close>.
\<close>

definition setGlobalOrigin :: "int \<Rightarrow> int \<Rightarrow> int \<Rightarrow> datafile \<Rightarrow> datafile" where
  "setGlobalOrigin x y z f = f\<lparr>origin := (x, y, z)\<rparr>"

text \<open>
  Modelled from the spec: the cursor-relative \<open>read\<close> of the backend. \<open>block\<close> gives the
  values a read with the given counts delivers, in row-major order from the cursor; the
  counts are those written at the call (\<open>read(p, name)\<close> has the single count 1).
\<close>

fun block :: "(int \<Rightarrow> int \<Rightarrow> int \<Rightarrow> 'a) \<Rightarrow> int \<times> int \<times> int \<Rightarrow> int list \<Rightarrow> 'a list" where
  "block g (x0, y0, z0) [lx] = map (\<lambda>i. g (x0 + i) y0 z0) [0..lx - 1]"
| "block g (x0, y0, z0) [lx, ly] =
     concat (map (\<lambda>i. map (\<lambda>j. g (x0 + i) (y0 + j) z0) [0..ly - 1]) [0..lx - 1])"
| "block g (x0, y0, z0) [lx, ly, lz] =
     concat (map (\<lambda>i. concat (map (\<lambda>j. map (\<lambda>k. g (x0 + i) (y0 + j) (z0 + k)) [0..lz - 1])
                                    [0..ly - 1])) [0..lx - 1])"
| "block g _ _ = []"

text \<open>
  Modelled from the spec: \<open>read\<close> into a destination of type \<open>BoutReal\<close>, respectively
  \<open>int\<close>; \<open>None\<close> is the result \<open>false\<close>.
\<close>

definition read_real :: "datafile \<Rightarrow> string \<Rightarrow> int list \<Rightarrow> real list option" where
  "read_real f name counts =
     (if readable f name (origin f) counts then Some (block (reals f name) (origin f) counts)
      else None)"

definition read_int :: "datafile \<Rightarrow> string \<Rightarrow> int list \<Rightarrow> int list option" where
  "read_int f name counts =
     (if readable f name (origin f) counts then Some (block (ints f name) (origin f) counts)
      else None)"

text \<open>
  Modelled from the spec: \<open>getAttribute("", name, sval)\<close> of the backend; \<open>None\<close> is the
  result \<open>false\<close>.
\<close>

definition getAttribute :: "datafile \<Rightarrow> string \<Rightarrow> string option" where
  "getAttribute f name = attributes f name"

subsection \<open>Construction, existence test and scalar getters\<close>

record gridfile =
  the_file :: datafile  \<comment> \<open>the member \<open>file\<close>\<close>
  filename :: string
  grid_yguards :: int
  ny_inner :: int

text \<open>A scalar read into an \<open>int\<close> member: the first value delivered.\<close>

definition read_int_scalar :: "datafile \<Rightarrow> string \<Rightarrow> int list \<Rightarrow> int option" where
  "read_int_scalar f name counts =
     (case read_int f name counts of None \<Rightarrow> None
      | Some vs \<Rightarrow> (case vs of [] \<Rightarrow> None | v # _ \<Rightarrow> Some v))"

definition read_real_scalar :: "datafile \<Rightarrow> string \<Rightarrow> int list \<Rightarrow> real option" where
  "read_real_scalar f name counts =
     (case read_real f name counts of None \<Rightarrow> None
      | Some vs \<Rightarrow> (case vs of [] \<Rightarrow> None | v # _ \<Rightarrow> Some v))"

definition GridFile :: "datafile \<Rightarrow> string \<Rightarrow> error + gridfile" where
  "GridFile format gridfilename =
     (if \<not> openable format gridfilename then Inl CouldNotOpen
      else let f = setGlobalOrigin 0 0 0 format in
        Inr \<lparr>the_file = f, filename = gridfilename,
             grid_yguards = (case read_int_scalar f ''y_boundary_guards'' [1, 1] of
                               Some v \<Rightarrow> v | None \<Rightarrow> 0),
             ny_inner = (case read_int_scalar f ''ny_inner'' [1, 1] of
                           Some v \<Rightarrow> v | None \<Rightarrow> 0)\<rparr>)"

definition hasVar :: "gridfile \<Rightarrow> string \<Rightarrow> bool" where
  "hasVar gf name = (if \<not> is_valid (the_file gf) then False else getSize (the_file gf) name \<noteq> [])"

text \<open>
  The scalar getters return the success flag and the new value of the reference
  argument (\<open>sval\<close>, \<open>ival\<close>, \<open>rval\<close>), or raise.
\<close>

definition get_string :: "gridfile \<Rightarrow> string \<Rightarrow> string \<Rightarrow> error + (bool \<times> string)" where
  "get_string gf sval name =
     (if \<not> is_valid (the_file gf) then Inl FileCannotBeRead
      else (case getAttribute (the_file gf) name of
              Some s \<Rightarrow> Inr (True, s)
            | None \<Rightarrow> Inr (False, '''')))"

definition get_int :: "gridfile \<Rightarrow> int \<Rightarrow> string \<Rightarrow> error + (bool \<times> int)" where
  "get_int gf ival name =
     (if \<not> is_valid (the_file gf) then Inl FileCannotBeRead
      else (case read_int_scalar (the_file gf) name [1] of
              Some v \<Rightarrow> Inr (True, v)
            | None \<Rightarrow> Inr (False, ival)))"

definition get_real :: "gridfile \<Rightarrow> real \<Rightarrow> string \<Rightarrow> error + (bool \<times> real)" where
  "get_real gf rval name =
     (if \<not> is_valid (the_file gf) then Inl FileCannotBeRead
      else (case read_real_scalar (the_file gf) name [1] of
              Some v \<Rightarrow> Inr (True, v)
            | None \<Rightarrow> Inr (False, rval)))"

subsection \<open>Vector getters\<close>

text \<open>
  \<open>file->read(&var[0], name, len)\<close> overwrites the first \<open>len\<close> elements of the vector;
  a vector shorter than the values delivered is written beyond its end.
\<close>

definition overwrite :: "'a list \<Rightarrow> 'a list \<Rightarrow> error + 'a list" where
  "overwrite var vs = (if length vs \<le> length var then Inr (vs @ drop (length vs) var)
                       else Inl OutOfBounds)"

text \<open>The result is the success flag, the loader with its backend, and the vector.\<close>

definition get_vector_int ::
  "gridfile \<Rightarrow> int list \<Rightarrow> string \<Rightarrow> int \<Rightarrow> int \<Rightarrow> error + (bool \<times> gridfile \<times> int list)" where
  "get_vector_int gf var name len offset =
     (if \<not> is_valid (the_file gf) then Inr (False, gf, var)
      else let f = setGlobalOrigin offset 0 0 (the_file gf) in
        (case read_int f name [len] of
           None \<Rightarrow> Inr (False, gf\<lparr>the_file := f\<rparr>, var)
         | Some vs \<Rightarrow>
             then_do (overwrite var vs)
               (\<lambda>var'. Inr (True, gf\<lparr>the_file := setGlobalOrigin 0 0 0 f\<rparr>, var'))))"

definition get_vector_real ::
  "gridfile \<Rightarrow> real list \<Rightarrow> string \<Rightarrow> int \<Rightarrow> int \<Rightarrow> error + (bool \<times> gridfile \<times> real list)" where
  "get_vector_real gf var name len offset =
     (if \<not> is_valid (the_file gf) then Inr (False, gf, var)
      else let f = setGlobalOrigin offset 0 0 (the_file gf) in
        (case read_real f name [len] of
           None \<Rightarrow> Inr (False, gf\<lparr>the_file := f\<rparr>, var)
         | Some vs \<Rightarrow>
             then_do (overwrite var vs)
               (\<lambda>var'. Inr (True, gf\<lparr>the_file := setGlobalOrigin 0 0 0 f\<rparr>, var'))))"

subsection \<open>Meshes and fields\<close>

text \<open>
  Modelled from the spec: the class \<open>Mesh\<close> is not among the files at hand. It is the
  read-only decomposition descriptor; the record has the members the loader reads.
\<close>

record mesh =
  LocalNx :: int
  LocalNy :: int
  LocalNz :: int
  GlobalNx :: int
  GlobalNy :: int
  xstart :: int
  xend :: int
  ystart :: int
  yend :: int
  OffsetX :: int
  OffsetY :: int
  numberOfXPoints :: int
  zlength :: real  \<comment> \<open>\<open>m->getCoordinates(...)->zlength()\<close>\<close>

text \<open>
  Modelled from the spec: the classes \<open>Field2D\<close> and \<open>Field3D\<close> are not among the files at
  hand. A field is an array over a local subdomain, addressable by local \<open>(x, y, z)\<close>
  index, with its own extents; \<open>is3d\<close> tells a \<open>Field3D\<close> from a \<open>Field2D\<close>.
\<close>

record field =
  is3d :: bool
  fnx :: int
  fny :: int
  fnz :: int
  cells :: "int \<Rightarrow> int \<Rightarrow> int \<Rightarrow> real"

text \<open>
  Modelled from the spec: \<open>getNz()\<close> is the extent of the field in the periodic dimension,
  1 for a \<open>Field2D\<close>; the index operator \<open>var(x, y, z)\<close> of a \<open>Field2D\<close> ignores \<open>z\<close>. An
  index is inside the field when each component the operator uses is within its extent.
\<close>

definition getNz :: "field \<Rightarrow> int" where
  "getNz v = (if is3d v then fnz v else 1)"

definition in_box :: "field \<Rightarrow> int \<Rightarrow> int \<Rightarrow> int \<Rightarrow> bool" where
  "in_box v x y z \<longleftrightarrow>
     0 \<le> x \<and> x < fnx v \<and> 0 \<le> y \<and> y < fny v \<and> (is3d v \<longrightarrow> 0 \<le> z \<and> z < fnz v)"

text \<open>
  Modelled from the spec: the value of \<open>var(x, y, z)\<close> at an index inside the field, reading
  it (\<open>cell_at\<close>) and assigning to it (\<open>put\<close>).
\<close>

definition val :: "field \<Rightarrow> int \<Rightarrow> int \<Rightarrow> int \<Rightarrow> real" where
  "val v x y z = cells v x y (if is3d v then z else 0)"

definition cell_at :: "field \<Rightarrow> int \<Rightarrow> int \<Rightarrow> int \<Rightarrow> error + real" where
  "cell_at v x y z = (if in_box v x y z then Inr (val v x y z) else Inl OutOfBounds)"

definition put :: "field \<Rightarrow> int \<Rightarrow> int \<Rightarrow> int \<Rightarrow> real \<Rightarrow> error + field" where
  "put v x y z r =
     (if in_box v x y z
      then Inr (v\<lparr>cells := \<lambda>a b c. if a = x \<and> b = y \<and> c = (if is3d v then z else 0) then r
                                    else cells v a b c\<rparr>)
      else Inl OutOfBounds)"

text \<open>
  Modelled from the spec: \<open>var = def\<close> broadcasts a scalar to every cell of the field.
\<close>

definition assign :: "field \<Rightarrow> real \<Rightarrow> field" where
  "assign v r = v\<lparr>cells := \<lambda>a b c. r\<rparr>"

text \<open>
  Modelled from the spec: the cells behind the address of a cell. A read into
  \<open>&var(x, y)\<close> of a \<open>Field2D\<close> fills consecutive \<open>y\<close>; a read into \<open>&var(x, y, 0)\<close> of a
  \<open>Field3D\<close> fills consecutive \<open>z\<close>. The cell addressed and the cells filled must lie
  inside the field.
\<close>

definition write_row_y :: "field \<Rightarrow> int \<Rightarrow> int \<Rightarrow> real list \<Rightarrow> error + field" where
  "write_row_y v x y vs =
     (if in_box v x y 0 \<and> y + int (length vs) \<le> fny v
      then Inr (v\<lparr>cells := \<lambda>a b c. if a = x \<and> y \<le> b \<and> b < y + int (length vs) \<and> c = 0
                                    then vs ! nat (b - y) else cells v a b c\<rparr>)
      else Inl OutOfBounds)"

definition write_row_z :: "field \<Rightarrow> int \<Rightarrow> int \<Rightarrow> real list \<Rightarrow> error + field" where
  "write_row_z v x y vs =
     (if in_box v x y 0 \<and> int (length vs) \<le> fnz v
      then Inr (v\<lparr>cells := \<lambda>a b c. if a = x \<and> b = y \<and> 0 \<le> c \<and> c < int (length vs)
                                    then vs ! nat c else cells v a b c\<rparr>)
      else Inl OutOfBounds)"

subsection \<open>The read window of getField\<close>

text \<open>Ghost region widths, \<open>mxg\<close> and \<open>myg\<close>.\<close>

definition mxg :: "mesh \<Rightarrow> int" where
  "mxg m = c_div (LocalNx m - (xend m - xstart m + 1)) 2"

definition myg :: "mesh \<Rightarrow> int" where
  "myg m = c_div (LocalNy m - (yend m - ystart m + 1)) 2"

record window =
  w_ys :: int
  w_yd :: int
  w_ny_to_read :: int
  w_xs :: int
  w_xd :: int
  w_nx_to_read :: int

text \<open>The start of the read in \<open>y\<close>: \<open>ys\<close>.\<close>

definition y_start :: "bool \<Rightarrow> mesh \<Rightarrow> gridfile \<Rightarrow> error + int" where
  "y_start chk m gf =
     (if numberOfXPoints m > 1
      then then_do (ASSERT1 chk (numberOfXPoints m = 2))
             (\<lambda>_. if OffsetY m \<ge> ny_inner gf then Inr (OffsetY m + 2 * grid_yguards gf)
                   else Inr (OffsetY m))
      else Inr (OffsetY m))"

text \<open>The branch an if-chain over a guard count takes, and the chains as written.\<close>

datatype guard_case = IncludingGhost | ExcludingGhost | NeitherCase

definition x_guard_case :: "int \<Rightarrow> guard_case" where
  "x_guard_case g = (if g \<ge> 0 then IncludingGhost
                     else if g = 0 then ExcludingGhost
                     else NeitherCase)"

definition y_guard_case :: "int \<Rightarrow> guard_case" where
  "y_guard_case g = (if g > 0 then IncludingGhost
                     else if g = 0 then ExcludingGhost
                     else NeitherCase)"

definition grid_xguards_of :: "mesh \<Rightarrow> int list \<Rightarrow> int" where
  "grid_xguards_of m field_dimensions =
     c_div (field_dimensions ! 0 - (GlobalNx m - 2 * mxg m)) 2"

text \<open>The pair is \<open>(nx_to_read, xd)\<close>.\<close>

definition x_window :: "bool \<Rightarrow> mesh \<Rightarrow> int list \<Rightarrow> error + (int \<times> int)" where
  "x_window chk m field_dimensions =
     (let grid_xguards = grid_xguards_of m field_dimensions in
      then_do (ASSERT1 chk (c_mod (field_dimensions ! 0 - (GlobalNx m - 2 * mxg m)) 2 = 0))
        (\<lambda>_. case x_guard_case grid_xguards of
                IncludingGhost \<Rightarrow>
                  then_do (ASSERT1 chk (grid_xguards - mxg m \<ge> 0))
                    (\<lambda>_. Inr (LocalNx m, grid_xguards - mxg m))
              | ExcludingGhost \<Rightarrow> Inr (LocalNx m - 2 * mxg m, mxg m)
              | NeitherCase \<Rightarrow> Inl BadXGuards))"

text \<open>The pair is \<open>(ny_to_read, yd)\<close>.\<close>

definition y_window :: "bool \<Rightarrow> mesh \<Rightarrow> gridfile \<Rightarrow> int list \<Rightarrow> error + (int \<times> int)" where
  "y_window chk m gf field_dimensions =
     (case y_guard_case (grid_yguards gf) of
        IncludingGhost \<Rightarrow>
          then_do (ASSERT1 chk (field_dimensions ! 1 = GlobalNy m - 2 * myg m + grid_yguards gf))
            (\<lambda>_. then_do (ASSERT1 chk (grid_yguards gf - myg m \<ge> 0))
               (\<lambda>_. Inr (LocalNy m, grid_yguards gf - myg m)))
      | ExcludingGhost \<Rightarrow>
          then_do (ASSERT1 chk (field_dimensions ! 1 = GlobalNy m - 2 * myg m))
            (\<lambda>_. Inr (LocalNy m - 2 * myg m, myg m))
      | NeitherCase \<Rightarrow> Inl BadYGuards)"

text \<open>
  Lines 234 to 299 of getField. \<open>field_dimensions\<close> has two or three entries where
  getField reaches them; a shorter vector is indexed outside its bounds.
\<close>

definition read_window :: "bool \<Rightarrow> mesh \<Rightarrow> gridfile \<Rightarrow> int list \<Rightarrow> error + window" where
  "read_window chk m gf field_dimensions =
     then_do (ASSERT1 chk (c_mod (LocalNx m - (xend m - xstart m + 1)) 2 = 0)) (\<lambda>_.
     then_do (ASSERT1 chk (c_mod (LocalNy m - (yend m - ystart m + 1)) 2 = 0)) (\<lambda>_.
     then_do (y_start chk m gf) (\<lambda>ys.
     if length field_dimensions < 2 then Inl OutOfBounds else
     then_do (x_window chk m field_dimensions) (\<lambda>(nx_to_read, xd).
     then_do (y_window chk m gf field_dimensions) (\<lambda>(ny_to_read, yd).
     Inr \<lparr>w_ys = ys, w_yd = yd, w_ny_to_read = ny_to_read,
          w_xs = OffsetX m, w_xd = xd, w_nx_to_read = nx_to_read\<rparr>)))))"

subsection \<open>Reading the rows of a field\<close>

text \<open>
  \<open>readField\<close> for a \<open>Field2D\<close>. The address \<open>&var(x-xs+xd, yd)\<close> is taken before the
  read is issued.
\<close>

definition read_row_2d ::
  "string \<Rightarrow> int \<Rightarrow> int \<Rightarrow> int \<Rightarrow> int \<Rightarrow> int \<Rightarrow> int \<Rightarrow> datafile \<times> field \<Rightarrow> error + (datafile \<times> field)" where
  "read_row_2d name ys yd ny_to_read xs xd x =
     (\<lambda>(f, v). let f' = setGlobalOrigin x ys 0 f in
        if \<not> in_box v (x - xs + xd) yd 0 then Inl OutOfBounds
        else (case read_real f' name [1, ny_to_read] of
                None \<Rightarrow> Inl CouldNotFetch
              | Some vs \<Rightarrow> then_do (write_row_y v (x - xs + xd) yd vs) (\<lambda>v'. Inr (f', v'))))"

definition readField2D ::
  "gridfile \<Rightarrow> string \<Rightarrow> int \<Rightarrow> int \<Rightarrow> int \<Rightarrow> int \<Rightarrow> int \<Rightarrow> int \<Rightarrow> field \<Rightarrow> error + (gridfile \<times> field)" where
  "readField2D gf name ys yd ny_to_read xs xd nx_to_read var =
     (case for_loop xs (xs + nx_to_read) (read_row_2d name ys yd ny_to_read xs xd)
             (the_file gf, var) of
        Inl e \<Rightarrow> Inl e
      | Inr (f, v) \<Rightarrow> Inr (gf\<lparr>the_file := setGlobalOrigin 0 0 0 f\<rparr>, v))"

text \<open>A loop body stops the function by raising or by \<open>return false\<close>.\<close>

datatype 's stop = Raise error | ReturnFalse 's

text \<open>\<open>readgrid_3dvar_real\<close>: one row, and the function.\<close>

definition real_row ::
  "string \<Rightarrow> int \<Rightarrow> int \<Rightarrow> int \<Rightarrow> int \<Rightarrow> int \<Rightarrow> int \<Rightarrow> int \<Rightarrow> datafile \<times> field
     \<Rightarrow> (datafile \<times> field) stop + (datafile \<times> field)" where
  "real_row name size2 yread ydest xread xdest jx jy =
     (\<lambda>(f, v). let f' = setGlobalOrigin jx jy 0 f in
        if \<not> in_box v (jx - xread + xdest) (jy - yread + ydest) 0 then Inl (Raise OutOfBounds)
        else (case read_real f' name [1, 1, size2] of
                None \<Rightarrow> Inl (ReturnFalse (f', v))
              | Some vs \<Rightarrow>
                  (case write_row_z v (jx - xread + xdest) (jy - yread + ydest) vs of
                     Inl e \<Rightarrow> Inl (Raise e)
                   | Inr v' \<Rightarrow> Inr (f', v'))))"

definition readgrid_3dvar_real ::
  "gridfile \<Rightarrow> string \<Rightarrow> int \<Rightarrow> int \<Rightarrow> int \<Rightarrow> int \<Rightarrow> int \<Rightarrow> int \<Rightarrow> field
     \<Rightarrow> error + (bool \<times> gridfile \<times> field)" where
  "readgrid_3dvar_real gf name yread ydest ysize xread xdest xsize var =
     (if yread < 0 \<or> ydest < 0 \<or> ysize < 0 \<or> xread < 0 \<or> xdest < 0 \<or> xsize < 0
      then Inr (False, gf, var)
      else let sz = getSize (the_file gf) name in
        if length sz \<noteq> 3 then Inr (False, gf, var)
        else (case for_loop xread (xread + xsize)
                     (\<lambda>jx. for_loop yread (yread + ysize)
                              (real_row name (sz ! 2) yread ydest xread xdest jx))
                     (the_file gf, var) of
                Inl (Raise e) \<Rightarrow> Inl e
              | Inl (ReturnFalse (f, v)) \<Rightarrow> Inr (False, gf\<lparr>the_file := f\<rparr>, v)
              | Inr (f, v) \<Rightarrow> Inr (True, gf\<lparr>the_file := setGlobalOrigin 0 0 0 f\<rparr>, v)))"

subsection \<open>The spectral reader\<close>

text \<open>
  \<open>BoutReal\<close> is \<open>double\<close>. The values of a field are copied and never computed with,
  and they are modelled by \<open>real\<close>. The quotient that \<open>zperiod\<close> is rounded from is computed
  in double precision, and its rounding can change the integer it is rounded to; it is
  modelled as the hardware computes it (IEEE 754 binary64, default rounding): the exact
  quotient rounded to the nearest number with 53 significant bits, a tie going to the
  even significand. \<open>binade_of\<close> is the binary exponent of a positive number, and
  \<open>binade\<close> that of a number, no less than the exponent of the smallest normal double.
\<close>

definition round_to_even :: "real \<Rightarrow> int" where
  "round_to_even x =
     (let n = \<lfloor>x\<rfloor> in
      if x - of_int n < 1 / 2 then n
      else if 1 / 2 < x - of_int n then n + 1
      else if even n then n else n + 1)"

function binade_of :: "real \<Rightarrow> int" where
  "binade_of x = (if x \<le> 0 then 0
                  else if 2 \<le> x then binade_of (x / 2) + 1
                  else if x < 1 then binade_of (2 * x) - 1
                  else 0)"
  by pat_completeness auto
termination
proof (relation "measure (\<lambda>x. nat \<bar>\<lfloor>log 2 x\<rfloor>\<bar>)")
  show "wf (measure (\<lambda>x. nat \<bar>\<lfloor>log 2 x\<rfloor>\<bar>))"
    by simp
next
  fix x :: real
  assume "\<not> x \<le> 0" and x: "2 \<le> x"
  define k where "k = \<lfloor>log 2 x\<rfloor>"
  from \<open>\<not> x \<le> 0\<close> have "log 2 (x / 2) = log 2 x - 1"
    by (simp add: log_divide)
  then have "\<lfloor>log 2 (x / 2)\<rfloor> = k - 1"
    by (simp add: k_def)
  moreover from x have "1 \<le> log 2 x"
    by (simp add: le_log_iff)
  then have "1 \<le> k"
    unfolding k_def by linarith
  ultimately have "nat \<bar>\<lfloor>log 2 (x / 2)\<rfloor>\<bar> < nat \<bar>k\<bar>"
    by simp
  then show "(x / 2, x) \<in> measure (\<lambda>x. nat \<bar>\<lfloor>log 2 x\<rfloor>\<bar>)"
    by (simp add: k_def)
next
  fix x :: real
  assume p: "\<not> x \<le> 0" and x: "x < 1"
  define k where "k = \<lfloor>log 2 x\<rfloor>"
  from p have "log 2 (2 * x) = log 2 x + 1"
    by (simp add: log_mult)
  then have "\<lfloor>log 2 (2 * x)\<rfloor> = k + 1"
    by (simp add: k_def)
  moreover from p x have "log 2 x < 0"
    by simp
  then have "k < 0"
    unfolding k_def by linarith
  ultimately have "nat \<bar>\<lfloor>log 2 (2 * x)\<rfloor>\<bar> < nat \<bar>k\<bar>"
    by simp
  then show "(2 * x, x) \<in> measure (\<lambda>x. nat \<bar>\<lfloor>log 2 x\<rfloor>\<bar>)"
    by (simp add: k_def)
qed

declare binade_of.simps [simp del]

definition binade :: "real \<Rightarrow> int" where
  "binade x = max (binade_of \<bar>x\<bar>) (- 1022)"

definition to_double :: "real \<Rightarrow> real" where
  "to_double x =
     (if x = 0 then 0
      else of_int (round_to_even (x / 2 powi (binade x - 52))) * 2 powi (binade x - 52))"

definition double_div :: "real \<Rightarrow> real \<Rightarrow> real" where
  "double_div a b = to_double (a / b)"

text \<open>
  Modelled from the spec: the constant \<open>TWOPI\<close> of \<open>bout/constants.hxx\<close> is not among the
  files at hand; the spec computes \<open>zperiod\<close> from \<open>2\<pi>\<close>. As a \<open>BoutReal\<close> it is the double
  nearest to \<open>2\<pi>\<close>, which is \<open>7074237752028440 / 2\<^sup>5\<^sup>0\<close>.
\<close>

definition TWOPI :: real where
  "TWOPI = 7074237752028440 / 2 ^ 50"

text \<open>
  Modelled from the spec: the function \<open>ROUND\<close> of \<open>utils.hxx\<close> is not among the files at
  hand; the spec says \<open>zperiod\<close> is the nearest integer to its argument.
\<close>

definition ROUND :: "real \<Rightarrow> int" where
  "ROUND x = round x"

text \<open>
  \<open>zperiod = ROUND(TWOPI / zlength)\<close>, the division being that of doubles. A zero length
  and a quotient beyond the largest double give an infinite quotient, which has no
  conversion to \<open>int\<close>.
\<close>

definition zperiod_of :: "mesh \<Rightarrow> error + int" where
  "zperiod_of m =
     (if zlength m = 0 then Inl DivisionByZero
      else let q = double_div TWOPI (zlength m) in
        if 2 ^ 1024 \<le> \<bar>q\<bar> then Inl DivisionByZero else Inr (ROUND q))"

definition maxmode_of :: "int \<Rightarrow> int" where
  "maxmode_of size2 = c_div (size2 - 1) 2"

text \<open>The report of the modes read divides by \<open>zperiod\<close> when \<open>zperiod \<le> maxmode\<close>.\<close>

definition report_modes :: "int \<Rightarrow> int \<Rightarrow> int \<Rightarrow> error + unit" where
  "report_modes ncz zperiod maxmode =
     (if zperiod > maxmode then Inr ()
      else if zperiod = 0 then Inl DivisionByZero
      else Inr ())"

text \<open>
  Modelled from the spec: the class \<open>Array\<close> is not among the files at hand. An array is a
  sequence of fixed length; an index outside it, and a negative length, are faults.
\<close>

definition alloc :: "int \<Rightarrow> 'a \<Rightarrow> error + 'a list" where
  "alloc n a = (if n < 0 then Inl BadAlloc else Inr (replicate (nat n) a))"

definition arr_get :: "'a list \<Rightarrow> int \<Rightarrow> error + 'a" where
  "arr_get xs i = (if 0 \<le> i \<and> i < int (length xs) then Inr (xs ! nat i) else Inl OutOfBounds)"

definition arr_set :: "'a list \<Rightarrow> int \<Rightarrow> 'a \<Rightarrow> error + 'a list" where
  "arr_set xs i a = (if 0 \<le> i \<and> i < int (length xs) then Inr (xs[nat i := a]) else Inl OutOfBounds)"

text \<open>Loading the row \<open>zdata\<close> into the complex array \<open>fdata\<close> (lines 523 to 534).\<close>

definition load_mode :: "real list \<Rightarrow> int \<Rightarrow> int \<Rightarrow> int \<Rightarrow> complex list \<Rightarrow> error + complex list" where
  "load_mode zdata zperiod maxmode i fdata =
     (let modenr = i * zperiod in
      if modenr \<le> maxmode
      then then_do (arr_get zdata (modenr * 2 - 1)) (\<lambda>re.
           then_do (arr_get zdata (modenr * 2)) (\<lambda>im.
           arr_set fdata i (Complex re im)))
      else arr_set fdata i 0)"

definition load_fdata :: "real list \<Rightarrow> int \<Rightarrow> int \<Rightarrow> int \<Rightarrow> complex list \<Rightarrow> error + complex list" where
  "load_fdata zdata ncz zperiod maxmode fdata =
     then_do (arr_get zdata 0) (\<lambda>dc.
     then_do (arr_set fdata 0 (Complex dc 0)) (\<lambda>fdata'.
     for_loop 1 (c_div ncz 2 + 1) (load_mode zdata zperiod maxmode) fdata'))"

text \<open>
  Modelled from the spec: the function \<open>irfft\<close> of \<open>fft.hxx\<close> is not among the files at
  hand. The spec says it applies an inverse discrete Fourier transform to the spectrum of
  the non-negative frequencies and produces \<open>length\<close> real samples. The spectrum is
  extended to the negative frequencies by conjugation (\<open>hermitian\<close>), and the transform is
  the plain sum, the scale for which the coefficient of frequency zero is the mean of the
  samples, as the round trip of a DC-only field in the spec requires.
\<close>

definition hermitian :: "complex list \<Rightarrow> nat \<Rightarrow> nat \<Rightarrow> complex" where
  "hermitian fdata n j = (if 2 * j \<le> n then fdata ! j else cnj (fdata ! (n - j)))"

text \<open>
  Modelled from the spec: \<open>irfft(in, length, out)\<close>, the inverse discrete Fourier transform
  of the spectrum \<open>in\<close> giving \<open>length\<close> real samples.
\<close>

definition irfft :: "complex list \<Rightarrow> int \<Rightarrow> real list" where
  "irfft fdata len =
     map (\<lambda>k. Re (\<Sum>j\<leftarrow>[0..<nat len].
                     hermitian fdata (nat len) j * cis (2 * pi * real j * real k / real (nat len))))
         [0..<nat len]"

text \<open>\<open>readgrid_3dvar_fft\<close>: one row, and the function.\<close>

definition fft_row ::
  "string \<Rightarrow> int \<Rightarrow> int \<Rightarrow> int \<Rightarrow> int \<Rightarrow> int \<Rightarrow> int \<Rightarrow> int \<Rightarrow> int \<Rightarrow> int \<Rightarrow> int
     \<Rightarrow> datafile \<times> field \<times> complex list
     \<Rightarrow> (datafile \<times> field \<times> complex list) stop + (datafile \<times> field \<times> complex list)" where
  "fft_row name size2 ncz zperiod maxmode yread ydest xread xdest jx jy =
     (\<lambda>(f, v, fdata). let f' = setGlobalOrigin jx jy 0 f in
        (case read_real f' name [1, 1, size2] of
           None \<Rightarrow> Inl (ReturnFalse (f', v, fdata))
         | Some zdata \<Rightarrow>
             (case load_fdata zdata ncz zperiod maxmode fdata of
                Inl e \<Rightarrow> Inl (Raise e)
              | Inr fdata' \<Rightarrow>
                  if \<not> in_box v (jx - xread + xdest) (jy - yread + ydest) 0
                  then Inl (Raise OutOfBounds)
                  else (case write_row_z v (jx - xread + xdest) (jy - yread + ydest)
                               (irfft fdata' ncz) of
                          Inl e \<Rightarrow> Inl (Raise e)
                        | Inr v' \<Rightarrow> Inr (f', v', fdata')))))"

definition readgrid_3dvar_fft ::
  "mesh \<Rightarrow> gridfile \<Rightarrow> string \<Rightarrow> int \<Rightarrow> int \<Rightarrow> int \<Rightarrow> int \<Rightarrow> int \<Rightarrow> int \<Rightarrow> field
     \<Rightarrow> error + (bool \<times> gridfile \<times> field)" where
  "readgrid_3dvar_fft m gf name yread ydest ysize xread xdest xsize var =
     (if yread < 0 \<or> ydest < 0 \<or> ysize < 0 \<or> xread < 0 \<or> xdest < 0 \<or> xsize < 0
      then Inr (False, gf, var)
      else let sz = getSize (the_file gf) name in
        if length sz \<noteq> 3 then Inr (False, gf, var)
        else let maxmode = maxmode_of (sz ! 2); ncz = LocalNz m in
          then_do (zperiod_of m) (\<lambda>zperiod.
          then_do (report_modes ncz zperiod maxmode) (\<lambda>_.
          then_do (alloc (c_div ncz 2 + 1) 0) (\<lambda>fdata.
          if sz ! 2 < 0 then Inl BadAlloc else
          (case for_loop xread (xread + xsize)
                  (\<lambda>jx. for_loop yread (yread + ysize)
                           (fft_row name (sz ! 2) ncz zperiod maxmode yread ydest xread xdest jx))
                  (the_file gf, var, fdata) of
             Inl (Raise e) \<Rightarrow> Inl e
           | Inl (ReturnFalse (f, v, fd)) \<Rightarrow> Inr (False, gf\<lparr>the_file := f\<rparr>, v)
           | Inr (f, v, fd) \<Rightarrow> Inr (True, gf\<lparr>the_file := setGlobalOrigin 0 0 0 f\<rparr>, v))))))"

text \<open>\<open>readField\<close> for a \<open>Field3D\<close>; \<open>size[2]\<close> of a shorter vector is outside its bounds.\<close>

definition readField3D ::
  "mesh \<Rightarrow> gridfile \<Rightarrow> string \<Rightarrow> int \<Rightarrow> int \<Rightarrow> int \<Rightarrow> int \<Rightarrow> int \<Rightarrow> int \<Rightarrow> int list \<Rightarrow> field
     \<Rightarrow> error + (gridfile \<times> field)" where
  "readField3D m gf name ys yd ny_to_read xs xd nx_to_read sz var =
     (if hasVar gf ''nz''
      then (if length sz \<le> 2 then Inl OutOfBounds
            else if sz ! 2 \<noteq> LocalNz m then Inl IncorrectSize
            else (case readgrid_3dvar_real gf name ys yd ny_to_read xs xd nx_to_read var of
                    Inl e \<Rightarrow> Inl e
                  | Inr (ok, gf', v) \<Rightarrow> if \<not> ok then Inl CouldNotRead3D else Inr (gf', v)))
      else (case readgrid_3dvar_fft m gf name ys yd ny_to_read xs xd nx_to_read var of
              Inl e \<Rightarrow> Inl e
            | Inr (ok, gf', v) \<Rightarrow> if \<not> ok then Inl CouldNotRead3D else Inr (gf', v)))"

definition readField ::
  "mesh \<Rightarrow> gridfile \<Rightarrow> string \<Rightarrow> int \<Rightarrow> int \<Rightarrow> int \<Rightarrow> int \<Rightarrow> int \<Rightarrow> int \<Rightarrow> int list \<Rightarrow> field
     \<Rightarrow> error + (gridfile \<times> field)" where
  "readField m gf name ys yd ny_to_read xs xd nx_to_read sz var =
     (if is3d var then readField3D m gf name ys yd ny_to_read xs xd nx_to_read sz var
      else readField2D gf name ys yd ny_to_read xs xd nx_to_read var)"

subsection \<open>Boundary copies and getField\<close>

text \<open>\<open>for (z = 0; z < var.getNz(); z++) var(x, y, z) = var(x0, y0, z)\<close>.\<close>

definition copy_z :: "int \<Rightarrow> int \<Rightarrow> int \<Rightarrow> int \<Rightarrow> field \<Rightarrow> error + field" where
  "copy_z x0 y0 x y v =
     for_loop 0 (getNz v) (\<lambda>z v'. then_do (cell_at v' x0 y0 z) (put v' x y z)) v"

definition fill_xguards :: "mesh \<Rightarrow> field \<Rightarrow> error + field" where
  "fill_xguards m v =
     then_do (for_loop 0 (xstart m)
                (\<lambda>x. for_loop 0 (LocalNy m) (\<lambda>y. copy_z (xstart m) y x y)) v) (\<lambda>v1.
     for_loop (xend m + 1) (LocalNx m)
       (\<lambda>x. for_loop 0 (LocalNy m) (\<lambda>y. copy_z (xend m) y x y)) v1)"

definition fill_yguards :: "mesh \<Rightarrow> field \<Rightarrow> error + field" where
  "fill_yguards m v =
     for_loop 0 (LocalNx m)
       (\<lambda>x v0. then_do (for_loop 0 (ystart m) (\<lambda>y. copy_z x (ystart m) x y) v0) (\<lambda>v1.
                for_loop (yend m + 1) (LocalNy m) (\<lambda>y. copy_z x (yend m) x y) v1)) v"

text \<open>
  Lines 232 to 340 of getField: the window, the read, the two boundary copies.
  \<open>var.allocate()\<close> changes no value of the field.
\<close>

definition load_field ::
  "bool \<Rightarrow> mesh \<Rightarrow> gridfile \<Rightarrow> field \<Rightarrow> string \<Rightarrow> int list
     \<Rightarrow> error + (bool \<times> gridfile \<times> field)" where
  "load_field chk m gf var name sz =
     (let field_dimensions = getSize (the_file gf) name in
      then_do (read_window chk m gf field_dimensions) (\<lambda>w.
      then_do (readField m gf name (w_ys w) (w_yd w) (w_ny_to_read w)
                 (w_xs w) (w_xd w) (w_nx_to_read w) sz var) (\<lambda>(gf1, v1).
      then_do (if field_dimensions ! 0 = GlobalNx m - 2 * mxg m then fill_xguards m v1
               else Inr v1) (\<lambda>v2.
      then_do (if grid_yguards gf = 0 then fill_yguards m v2 else Inr v2) (\<lambda>v3.
      Inr (True, gf1, v3))))))"

definition getField ::
  "bool \<Rightarrow> mesh \<Rightarrow> gridfile \<Rightarrow> field \<Rightarrow> string \<Rightarrow> real \<Rightarrow> error + (bool \<times> gridfile \<times> field)" where
  "getField chk m gf var name def =
     (if \<not> is_valid (the_file gf) then Inl FileCannotBeRead
      else let sz = getSize (the_file gf) name in
        if length sz = 0 then Inr (False, gf, assign var def)
        else if length sz = 1
        then (if sz ! 0 \<noteq> 1 then Inl Expecting2D
              else (case read_real_scalar (the_file gf) name [1] of
                      None \<Rightarrow> Inl CouldntRead0D
                    | Some rval \<Rightarrow> Inr (True, gf, assign var rval)))
        else if length sz = 2 then load_field chk m gf var name sz
        else if length sz = 3
        then (if \<not> is3d var then Inr (False, gf, assign var def)
              else load_field chk m gf var name sz)
        else Inr (False, gf, assign var def))"

definition hasXBoundaryGuards :: "gridfile \<Rightarrow> mesh \<Rightarrow> bool" where
  "hasXBoundaryGuards gf m =
     (let field_dimensions = getSize (the_file gf) ''dx'' in
      if field_dimensions = [] then False
      else field_dimensions ! 0 > GlobalNx m - 2 * xstart m)"

subsection \<open>Notions used in the statements\<close>

text \<open>The kind and the extents of a field, which no assignment to a cell changes.\<close>

definition shape :: "field \<Rightarrow> bool \<times> int \<times> int \<times> int" where
  "shape v = (is3d v, fnx v, fny v, fnz v)"

text \<open>The \<open>z\<close> indices of a field that the loops over \<open>z < var.getNz()\<close> reach.\<close>

definition z_reached :: "field \<Rightarrow> int \<Rightarrow> bool" where
  "z_reached v z \<longleftrightarrow> (if is3d v then 0 \<le> z \<and> z < fnz v else True)"

text \<open>The interior index ranges of a mesh lie inside its local arrays.\<close>

definition interior_in_box :: "mesh \<Rightarrow> bool" where
  "interior_in_box m \<longleftrightarrow>
     0 \<le> xstart m \<and> xstart m \<le> xend m \<and> xend m < LocalNx m \<and>
     0 \<le> ystart m \<and> ystart m \<le> yend m \<and> yend m < LocalNy m"

text \<open>The row a \<open>y\<close> index takes its value from, once the \<open>y\<close> guard cells are copied.\<close>

definition nearest_interior_y :: "mesh \<Rightarrow> int \<Rightarrow> int" where
  "nearest_interior_y m y =
     (if 0 \<le> y \<and> y < ystart m then ystart m
      else if yend m < y \<and> y < LocalNy m then yend m
      else y)"

text \<open>The values stored for the row \<open>(jx, jy)\<close> of a variable whose rows hold \<open>n\<close> values.\<close>

definition stored_row :: "datafile \<Rightarrow> string \<Rightarrow> int \<Rightarrow> int \<Rightarrow> int \<Rightarrow> real list" where
  "stored_row f name jx jy n = map (\<lambda>k. reals f name jx jy k) [0..n - 1]"

text \<open>
  The spectrum of one row as the specification words it: length
  \<open>\<lfloor>localZ / 2\<rfloor> + 1\<close>, the stored DC value at index 0, and at index \<open>i \<ge> 1\<close> the
  stored pair of mode \<open>i * zperiod\<close> when that mode is at most \<open>maxmode\<close>, zero otherwise.
\<close>

definition spectrum_entry :: "real list \<Rightarrow> int \<Rightarrow> int \<Rightarrow> int \<Rightarrow> complex" where
  "spectrum_entry stored zperiod maxmode i =
     (if i = 0 then Complex (stored ! 0) 0
      else if i * zperiod \<le> maxmode
      then Complex (stored ! nat (2 * i * zperiod - 1)) (stored ! nat (2 * i * zperiod))
      else 0)"

definition spectrum_spec :: "real list \<Rightarrow> int \<Rightarrow> int \<Rightarrow> int \<Rightarrow> complex list" where
  "spectrum_spec stored localZ zperiod maxmode =
     map (spectrum_entry stored zperiod maxmode) [0..localZ div 2]"

text \<open>
  The destination window of a read lies inside a \<open>Field3D\<close> with room for rows of \<open>n\<close>
  cells, and every row of the source window can be read from the backend.
\<close>

definition window_in_field :: "field \<Rightarrow> int \<Rightarrow> int \<Rightarrow> int \<Rightarrow> int \<Rightarrow> int \<Rightarrow> bool" where
  "window_in_field v xd nx yd ny n \<longleftrightarrow>
     0 \<le> xd \<and> xd + nx \<le> fnx v \<and> 0 \<le> yd \<and> yd + ny \<le> fny v \<and> 0 < fnz v \<and> n \<le> fnz v"

definition rows_readable :: "datafile \<Rightarrow> string \<Rightarrow> int \<Rightarrow> int \<Rightarrow> int \<Rightarrow> int \<Rightarrow> int \<Rightarrow> bool" where
  "rows_readable f name xs nx ys ny n \<longleftrightarrow>
     list_all (\<lambda>jx. list_all (\<lambda>jy. readable f name (jx, jy, 0) [1, 1, n]) [ys..ys + ny - 1])
       [xs..xs + nx - 1]"

subsection \<open>Example inputs\<close>

text \<open>
  A readable backend that stores one two-dimensional variable \<open>f\<close> of extents 12 by 14
  and the scalars \<open>y_boundary_guards = 2\<close> and \<open>ny_inner = 8\<close>, a double-null mesh with two guard cells on each side in \<open>x\<close> and \<open>y\<close>, and a loader
  whose file declares two \<open>y\<close> boundary guard cells.
\<close>

definition file0 :: datafile where
  "file0 = \<lparr>openable = (\<lambda>_. True), is_valid = True, origin = (0, 0, 0),
            getSize = (\<lambda>n. if n = ''f'' then [12, 14]
                           else if n = ''y_boundary_guards'' \<or> n = ''ny_inner'' then [1]
                           else []),
            reals = (\<lambda>n x y z. real_of_int (10 * x + y)),
            ints = (\<lambda>n x y z. if n = ''y_boundary_guards'' then 2
                               else if n = ''ny_inner'' then 8 else 0),
            attributes = (\<lambda>_. None),
            readable = (\<lambda>n _ _. n = ''f'' \<or> n = ''y_boundary_guards'' \<or> n = ''ny_inner'')\<rparr>"

definition mesh0 :: mesh where
  "mesh0 = \<lparr>LocalNx = 8, LocalNy = 8, LocalNz = 4, GlobalNx = 12, GlobalNy = 16,
            xstart = 2, xend = 5, ystart = 2, yend = 5, OffsetX = 0, OffsetY = 8,
            numberOfXPoints = 2, zlength = TWOPI\<rparr>"

definition gf0 :: gridfile where
  "gf0 = \<lparr>the_file = file0, filename = ''grid'', grid_yguards = 2, ny_inner = 8\<rparr>"

text \<open>
  A backend with the marker \<open>nz\<close> and a three-dimensional variable \<open>g\<close> of extents
  2 by 1 by 2 stored in real space, a mesh with two points in \<open>z\<close>, and a \<open>Field3D\<close> on
  that mesh.
\<close>

definition file2 :: datafile where
  "file2 = \<lparr>openable = (\<lambda>_. True), is_valid = True, origin = (0, 0, 0),
            getSize = (\<lambda>n. if n = ''g'' then [2, 1, 2] else if n = ''nz'' then [1] else []),
            reals = (\<lambda>n x y z. real_of_int (100 * x + 10 * y + z)),
            ints = (\<lambda>n x y z. 2),
            attributes = (\<lambda>_. None),
            readable = (\<lambda>n _ _. n = ''g'' \<or> n = ''nz'')\<rparr>"

definition mesh2 :: mesh where
  "mesh2 = \<lparr>LocalNx = 2, LocalNy = 1, LocalNz = 2, GlobalNx = 2, GlobalNy = 1,
            xstart = 0, xend = 1, ystart = 0, yend = 0, OffsetX = 0, OffsetY = 0,
            numberOfXPoints = 1, zlength = TWOPI\<rparr>"

definition gf2 :: gridfile where
  "gf2 = \<lparr>the_file = file2, filename = ''grid'', grid_yguards = 0, ny_inner = 0\<rparr>"

definition var2 :: field where
  "var2 = \<lparr>is3d = True, fnx = 2, fny = 1, fnz = 2, cells = (\<lambda>a b c. 0)\<rparr>"

text \<open>
  A backend without the marker \<open>nz\<close>, whose three-dimensional variable \<open>h\<close> stores rows
  of three spectral coefficients and whose variable \<open>dc\<close> stores rows of one; a mesh with
  four points in \<open>z\<close> over a domain of length \<open>TWOPI\<close>; a \<open>Field3D\<close> on that mesh.
\<close>

definition file3 :: datafile where
  "file3 = \<lparr>openable = (\<lambda>_. True), is_valid = True, origin = (0, 0, 0),
            getSize = (\<lambda>n. if n = ''h'' then [1, 1, 3] else if n = ''dc'' then [1, 1, 1] else []),
            reals = (\<lambda>n x y z. real_of_int (100 * x + 10 * y + z + 5)),
            ints = (\<lambda>n x y z. 0),
            attributes = (\<lambda>_. None),
            readable = (\<lambda>n _ _. n = ''h'' \<or> n = ''dc'')\<rparr>"

definition mesh3 :: mesh where
  "mesh3 = \<lparr>LocalNx = 1, LocalNy = 1, LocalNz = 4, GlobalNx = 1, GlobalNy = 1,
            xstart = 0, xend = 0, ystart = 0, yend = 0, OffsetX = 0, OffsetY = 0,
            numberOfXPoints = 1, zlength = TWOPI\<rparr>"

definition gf3 :: gridfile where
  "gf3 = \<lparr>the_file = file3, filename = ''grid'', grid_yguards = 0, ny_inner = 0\<rparr>"

definition var3 :: field where
  "var3 = \<lparr>is3d = True, fnx = 1, fny = 1, fnz = 4, cells = (\<lambda>a b c. 0)\<rparr>"

text \<open>
  A backend without \<open>x\<close> guard cells for the mesh \<open>mesh0\<close>: the variable \<open>f\<close> has stored
  extents 8 by 14 and the variable \<open>g\<close> 8 by 14 by 4, 8 being GlobalNx less the two guard
  cells on each side; the marker \<open>nz\<close> is present. A \<open>Field2D\<close> and a \<open>Field3D\<close> on
  that mesh.
\<close>

definition file4 :: datafile where
  "file4 = \<lparr>openable = (\<lambda>_. True), is_valid = True, origin = (0, 0, 0),
            getSize = (\<lambda>n. if n = ''f'' then [8, 14] else if n = ''g'' then [8, 14, 4]
                           else if n = ''nz'' then [1] else []),
            reals = (\<lambda>n x y z. real_of_int (100 * x + 10 * y + z)),
            ints = (\<lambda>n x y z. if n = ''y_boundary_guards'' then 2
                               else if n = ''ny_inner'' then 8 else 4),
            attributes = (\<lambda>_. None),
            readable = (\<lambda>n _ _. True)\<rparr>"

definition gf4 :: gridfile where
  "gf4 = \<lparr>the_file = file4, filename = ''grid'', grid_yguards = 2, ny_inner = 8\<rparr>"

definition var4 :: field where
  "var4 = \<lparr>is3d = False, fnx = 8, fny = 8, fnz = 1, cells = (\<lambda>a b c. 0)\<rparr>"

definition var4g :: field where
  "var4g = \<lparr>is3d = True, fnx = 8, fny = 8, fnz = 4, cells = (\<lambda>a b c. 0)\<rparr>"

text \<open>
  A double-null grid of two halves of two rows each, stored with two \<open>y\<close> guard rows on
  each side of each half (twelve rows) and one \<open>x\<close> guard column on each side (four
  columns). The mesh \<open>mesh5\<close> is the subdomain of the second half, with one guard column
  and two guard rows on each side; \<open>mesh5\<lparr>OffsetY := 0\<rparr>\<close> is that of the first half,
  and \<open>mesh5\<lparr>numberOfXPoints := 1\<rparr>\<close> the same subdomain on a mesh with one X-point.
\<close>

definition file5 :: datafile where
  "file5 = \<lparr>openable = (\<lambda>_. True), is_valid = True, origin = (0, 0, 0),
            getSize = (\<lambda>n. if n = ''f'' then [4, 12]
                           else if n = ''y_boundary_guards'' \<or> n = ''ny_inner'' then [1]
                           else []),
            reals = (\<lambda>n x y z. real_of_int (100 * x + y)),
            ints = (\<lambda>n x y z. 2),
            attributes = (\<lambda>_. None),
            readable = (\<lambda>n _ _. n = ''f'' \<or> n = ''y_boundary_guards'' \<or> n = ''ny_inner'')\<rparr>"

definition mesh5 :: mesh where
  "mesh5 = \<lparr>LocalNx = 4, LocalNy = 6, LocalNz = 4, GlobalNx = 4, GlobalNy = 8,
            xstart = 1, xend = 2, ystart = 2, yend = 3, OffsetX = 0, OffsetY = 2,
            numberOfXPoints = 2, zlength = TWOPI\<rparr>"

definition gf5 :: gridfile where
  "gf5 = \<lparr>the_file = file5, filename = ''grid'', grid_yguards = 2, ny_inner = 2\<rparr>"

definition var5 :: field where
  "var5 = \<lparr>is3d = False, fnx = 4, fny = 6, fnz = 1, cells = (\<lambda>a b c. 0)\<rparr>"




section \<open>Properties\<close>

subsection \<open>Basic facts\<close>

lemma block_single [simp]: "block g (x0, y0, z0) [1] = [g x0 y0 z0]"
  by simp

lemma c_mod_zero [simp]: "c_mod 0 b = 0"
  by (simp add: c_mod_def c_div_def)

lemma c_div_nonneg: "0 \<le> a \<Longrightarrow> c_div a 2 = a div 2"
  by (cases "a = 0") (simp_all add: c_div_def)

lemma mesh0_widths: "mxg mesh0 = 2" "myg mesh0 = 2"
  by (simp_all add: mxg_def myg_def mesh0_def c_div_def)

lemma gf0_valid: "is_valid (the_file gf0)"
  by (simp add: gf0_def file0_def)

lemma GridFile_file0: "GridFile file0 ''grid'' = Inr gf0"
  by (simp add: GridFile_def gf0_def file0_def setGlobalOrigin_def read_int_scalar_def
      read_int_def)

lemma x_window_zero_guards:
  assumes "grid_xguards_of m fd = 0"
  shows "x_window chk m fd =
           (if chk \<and> c_mod (fd ! 0 - (GlobalNx m - 2 * mxg m)) 2 \<noteq> 0 then Inl AssertFailed
            else if chk \<and> 0 < mxg m then Inl AssertFailed
            else Inr (LocalNx m, - mxg m))"
  using assms by (simp add: x_window_def x_guard_case_def then_do_def ASSERT1_def)

lemma x_window_mesh0: "x_window chk mesh0 [12, 14] = Inr (8, 0)"
proof -
  have "grid_xguards_of mesh0 [12, 14] = 2"
    by (simp add: grid_xguards_of_def mesh0_widths) (simp add: mesh0_def c_div_def)
  moreover have "c_mod ([12, 14] ! 0 - (GlobalNx mesh0 - 2 * mxg mesh0)) 2 = 0"
    by (simp add: mesh0_widths) (simp add: mesh0_def c_mod_def c_div_def)
  moreover have "LocalNx mesh0 = 8"
    by (simp add: mesh0_def)
  ultimately show ?thesis
    by (simp add: x_window_def x_guard_case_def then_do_def ASSERT1_def mesh0_widths)
qed

lemma mesh0_asserts:
  "c_mod (LocalNx mesh0 - (xend mesh0 - xstart mesh0 + 1)) 2 = 0"
  "c_mod (LocalNy mesh0 - (yend mesh0 - ystart mesh0 + 1)) 2 = 0"
  by (simp_all add: mesh0_def c_mod_def c_div_def)

lemma read_window_mesh0:
  "read_window chk mesh0 gf0 [12, 14]
     = Inr \<lparr>w_ys = 12, w_yd = 0, w_ny_to_read = 8, w_xs = 0, w_xd = 0, w_nx_to_read = 8\<rparr>"
proof -
  have "y_start chk mesh0 gf0 = Inr 12"
    by (simp add: y_start_def then_do_def ASSERT1_def mesh0_def gf0_def)
  moreover have "y_window chk mesh0 gf0 [12, 14] = Inr (8, 0)"
    by (simp add: y_window_def y_guard_case_def then_do_def ASSERT1_def mesh0_widths gf0_def)
       (simp add: mesh0_def)
  moreover have "OffsetX mesh0 = 0"
    by (simp add: mesh0_def)
  ultimately show ?thesis
    by (simp add: read_window_def then_do_def ASSERT1_def mesh0_asserts x_window_mesh0)
qed

lemma read_window_Inr:
  assumes "read_window chk m gf fd = Inr w"
  shows "y_start chk m gf = Inr (w_ys w)"
    and "x_window chk m fd = Inr (w_nx_to_read w, w_xd w)"
    and "y_window chk m gf fd = Inr (w_ny_to_read w, w_yd w)"
    and "w_xs w = OffsetX m"
proof -
  from assms obtain ys p q where
    ys: "y_start chk m gf = Inr ys" and p: "x_window chk m fd = Inr p"
    and q: "y_window chk m gf fd = Inr q"
    and w: "w = \<lparr>w_ys = ys, w_yd = snd q, w_ny_to_read = fst q,
                 w_xs = OffsetX m, w_xd = snd p, w_nx_to_read = fst p\<rparr>"
    unfolding read_window_def then_do_def
    by (auto split: sum.splits if_splits prod.splits)
  from ys w show "y_start chk m gf = Inr (w_ys w)" by simp
  from p w show "x_window chk m fd = Inr (w_nx_to_read w, w_xd w)" by simp
  from q w show "y_window chk m gf fd = Inr (w_ny_to_read w, w_yd w)" by simp
  from w show "w_xs w = OffsetX m" by simp
qed

lemma x_window_Inr:
  assumes "x_window chk m fd = Inr (nx, xd)"
  shows "nx = LocalNx m" and "xd = grid_xguards_of m fd - mxg m"
  using assms unfolding x_window_def x_guard_case_def then_do_def ASSERT1_def Let_def
  by (auto split: if_splits)

lemma y_window_Inr:
  assumes "y_window chk m gf fd = Inr (ny, yd)"
  shows "(ny, yd) = (if grid_yguards gf > 0 then (LocalNy m, grid_yguards gf - myg m)
                     else (LocalNy m - 2 * myg m, myg m))"
    and "chk \<Longrightarrow> fd ! 1 = GlobalNy m - 2 * myg m + grid_yguards gf"
  using assms unfolding y_window_def y_guard_case_def then_do_def ASSERT1_def
  by (auto split: if_splits)

lemma y_start_Inr:
  assumes "y_start chk m gf = Inr ys"
  shows "numberOfXPoints m = 2 \<Longrightarrow>
           ys = (if OffsetY m \<ge> ny_inner gf then OffsetY m + 2 * grid_yguards gf else OffsetY m)"
    and "numberOfXPoints m \<le> 1 \<Longrightarrow> ys = OffsetY m"
  using assms unfolding y_start_def then_do_def ASSERT1_def
  by (auto split: if_splits)

subsection \<open>Rounding to double precision\<close>

lemma binade_of_log: "0 < x \<Longrightarrow> binade_of x = \<lfloor>log 2 x\<rfloor>"
proof (induction x rule: binade_of.induct)
  case (1 x)
  show ?case
  proof (cases "2 \<le> x")
    case True
    with "1.prems" have "log 2 (x / 2) = log 2 x - 1"
      by (simp add: log_divide)
    with "1.IH"(1) "1.prems" True show ?thesis
      by (subst binade_of.simps) simp
  next
    case False
    show ?thesis
    proof (cases "x < 1")
      case True
      with "1.prems" have "log 2 (2 * x) = log 2 x + 1"
        by (simp add: log_mult)
      with "1.IH"(2) "1.prems" True False show ?thesis
        by (subst binade_of.simps) simp
    next
      case 3: False
      with False "1.prems" have "0 \<le> log 2 x" "log 2 x < 1"
        by (simp_all add: log_less_iff)
      then have "\<lfloor>log 2 x\<rfloor> = 0" by linarith
      with False 3 "1.prems" show ?thesis
        by (subst binade_of.simps) simp
    qed
  qed
qed

lemma binade_eq:
  assumes "2 powi k \<le> \<bar>x\<bar>" and "\<bar>x\<bar> < 2 powi (k + 1)" and "- 1022 \<le> k"
  shows "binade x = k"
proof -
  have "0 < (2 :: real) powi k" by simp
  with assms(1) have pos: "0 < \<bar>x\<bar>" by linarith
  have e: "(2 :: real) powr real_of_int j = 2 powi j" for j
    by (simp add: powr_real_of_int')
  have "\<lfloor>log 2 \<bar>x\<bar>\<rfloor> = k"
    using assms(1,2) e [of k] e [of "k + 1"]
    by (subst floor_log_eq_powr_iff [OF pos]) simp_all
  with assms(3) binade_of_log [OF pos] show ?thesis by (simp add: binade_def)
qed

lemma round_to_even_of_int [simp]: "round_to_even (of_int n) = n"
  by (simp add: round_to_even_def)


lemma to_double_eq:
  assumes "x \<noteq> 0" and "binade x = e" and "round_to_even (x / 2 powi (e - 52)) = n"
  shows "to_double x = of_int n * 2 powi (e - 52)"
  using assms by (simp add: to_double_def)

lemma to_double_one: "to_double 1 = 1"
proof -
  have b: "binade 1 = 0" by (rule binade_eq) simp_all
  have p: "(2 :: real) powi (- 52) = 1 / 2 ^ 52"
    by (simp add: power_int_minus field_simps)
  have "round_to_even (1 / 2 powi (0 - 52)) = 2 ^ 52"
    using round_to_even_of_int [of "2 ^ 52"] by (simp add: p)
  from to_double_eq [OF _ b this] show ?thesis by (simp add: p)
qed

lemma zperiod_of_TWOPI: "zlength m = TWOPI \<Longrightarrow> zperiod_of m = Inr 1"
proof -
  assume z: "zlength m = TWOPI"
  have nz: "TWOPI \<noteq> 0" by (simp add: TWOPI_def)
  have "double_div TWOPI (zlength m) = 1"
    using nz by (simp add: double_div_def z to_double_one)
  then show ?thesis using nz z by (simp add: zperiod_of_def ROUND_def)
qed

subsection \<open>Scalar getters\<close>

text \<open>
  C1, as amended. For every variable name, a scalar getter for a string, an integer or a
  real value does not raise when the backend reports itself as readable: it returns
  found=true when the attribute exists, respectively when the read of the backend
  succeeds, and found=false on any failure. When the backend reports itself as
  unreadable, each of the three getters raises "File cannot be read".
\<close>

theorem scalar_getters_raise_iff_backend_unreadable:
  "(is_valid (the_file gf) \<longrightarrow>
      (\<exists>found v. get_string gf sval name = Inr (found, v)
          \<and> (found \<longleftrightarrow> attributes (the_file gf) name \<noteq> None))
    \<and> (\<exists>found v. get_int gf ival name = Inr (found, v)
          \<and> (found \<longleftrightarrow> readable (the_file gf) name (origin (the_file gf)) [1]))
    \<and> (\<exists>found v. get_real gf rval name = Inr (found, v)
          \<and> (found \<longleftrightarrow> readable (the_file gf) name (origin (the_file gf)) [1])))
   \<and> (\<not> is_valid (the_file gf) \<longrightarrow>
        get_string gf sval name = Inl FileCannotBeRead
      \<and> get_int gf ival name = Inl FileCannotBeRead
      \<and> get_real gf rval name = Inl FileCannotBeRead)"
proof (intro conjI impI)
  assume v: "is_valid (the_file gf)"
  show "\<exists>found v. get_string gf sval name = Inr (found, v)
          \<and> (found \<longleftrightarrow> attributes (the_file gf) name \<noteq> None)"
    using v by (auto simp: get_string_def getAttribute_def split: option.splits)
  show "\<exists>found v. get_int gf ival name = Inr (found, v)
          \<and> (found \<longleftrightarrow> readable (the_file gf) name (origin (the_file gf)) [1])"
    using v by (cases "origin (the_file gf)")
      (auto simp: get_int_def read_int_scalar_def read_int_def split: option.splits list.splits)
  show "\<exists>found v. get_real gf rval name = Inr (found, v)
          \<and> (found \<longleftrightarrow> readable (the_file gf) name (origin (the_file gf)) [1])"
    using v by (cases "origin (the_file gf)")
      (auto simp: get_real_def read_real_scalar_def read_real_def split: option.splits list.splits)
next
  assume "\<not> is_valid (the_file gf)"
  then show "get_string gf sval name = Inl FileCannotBeRead"
    "get_int gf ival name = Inl FileCannotBeRead" "get_real gf rval name = Inl FileCannotBeRead"
    by (simp_all add: get_string_def get_int_def get_real_def)
qed

theorem scalar_getters_raise_iff_backend_unreadable_witness:
  "is_valid (the_file gf0)
   \<and> (\<exists>v. get_string gf0 ''old'' ''nx'' = Inr (False, v))
   \<and> (\<exists>v. get_int gf0 7 ''nx'' = Inr (False, v))
   \<and> (\<exists>v. get_real gf0 7 ''f'' = Inr (True, v))
   \<and> \<not> is_valid (the_file (gf0\<lparr>the_file := file0\<lparr>is_valid := False\<rparr>\<rparr>))
   \<and> get_int (gf0\<lparr>the_file := file0\<lparr>is_valid := False\<rparr>\<rparr>) 7 ''ny_inner'' = Inl FileCannotBeRead"
proof -
  have h: "is_valid (the_file gf0)"
    by (rule gf0_valid)
  have r: "\<not> readable (the_file gf0) ''nx'' (origin (the_file gf0)) [1]"
          "attributes (the_file gf0) ''nx'' = None"
          "readable (the_file gf0) ''f'' (origin (the_file gf0)) [1]"
    by (simp_all add: gf0_def file0_def)
  have u: "\<not> is_valid (the_file (gf0\<lparr>the_file := file0\<lparr>is_valid := False\<rparr>\<rparr>))"
    by simp
  note t = scalar_getters_raise_iff_backend_unreadable [of gf0 "''old''" "''nx''" 7 7,
      THEN conjunct1, THEN mp, OF h]
  note t' = scalar_getters_raise_iff_backend_unreadable [of gf0 "''old''" "''f''" 7 7,
      THEN conjunct1, THEN mp, OF h]
  note w = scalar_getters_raise_iff_backend_unreadable
      [of "gf0\<lparr>the_file := file0\<lparr>is_valid := False\<rparr>\<rparr>" "''old''" "''ny_inner''" 7 7,
       THEN conjunct2, THEN mp, OF u]
  have "\<exists>v. get_string gf0 ''old'' ''nx'' = Inr (False, v)"
    using t [THEN conjunct1] r by auto
  moreover have "\<exists>v. get_int gf0 7 ''nx'' = Inr (False, v)"
    using t [THEN conjunct2, THEN conjunct1] r by auto
  moreover have "\<exists>v. get_real gf0 7 ''f'' = Inr (True, v)"
    using t' [THEN conjunct2, THEN conjunct2] r by auto
  ultimately show ?thesis
    using h u w by simp
qed

text \<open>
  C1 as stated fails: with a backend that reports itself as unreadable, each of the three
  scalar getters raises.
\<close>

theorem scalar_getters_raise_on_unreadable_backend:
  "get_string (gf0\<lparr>the_file := file0\<lparr>is_valid := False\<rparr>\<rparr>) '''' ''nx'' = Inl FileCannotBeRead
   \<and> get_int (gf0\<lparr>the_file := file0\<lparr>is_valid := False\<rparr>\<rparr>) 0 ''nx'' = Inl FileCannotBeRead
   \<and> get_real (gf0\<lparr>the_file := file0\<lparr>is_valid := False\<rparr>\<rparr>) 0 ''nx'' = Inl FileCannotBeRead"
  by (simp add: get_string_def get_int_def get_real_def)

subsection \<open>Vector getters\<close>

text \<open>
  C3 at a failing read. The backend is readable and its cursor is at the origin; the
  variable \<open>v\<close> cannot be read. Both vector getters, called with length 2 and offset 3,
  return found=false and leave the cursor at \<open>(3, 0, 0)\<close>.
\<close>

theorem vector_getter_leaves_cursor_on_failed_read:
  "get_vector_int gf0 [0, 0] ''v'' 2 3
     = Inr (False, gf0\<lparr>the_file := file0\<lparr>origin := (3, 0, 0)\<rparr>\<rparr>, [0, 0])
   \<and> get_vector_real gf0 [0, 0] ''v'' 2 3
     = Inr (False, gf0\<lparr>the_file := file0\<lparr>origin := (3, 0, 0)\<rparr>\<rparr>, [0, 0])
   \<and> origin (the_file gf0) = (0, 0, 0)"
  by (simp add: get_vector_int_def get_vector_real_def gf0_def file0_def setGlobalOrigin_def
      read_int_def read_real_def)

subsection \<open>The read window\<close>

text \<open>
  C4 as stated fails: with one variable of stored extents 12 by 14 and one mesh, a file
  that declares no \<open>y\<close> boundary guards and a file that declares two are read through
  different windows in \<open>y\<close> (assertions not compiled in), so the count of \<open>y\<close> guard cells
  is not determined by the stored extents of the variable. With assertions compiled in,
  the file that declares none is not read with a count taken from the stored extent
  either: the assertion on the stored \<open>y\<close> extent raises.
\<close>

theorem y_guard_count_not_from_stored_extent:
  "read_window False mesh0 (gf0\<lparr>grid_yguards := 0\<rparr>) [12, 14]
     = Inr \<lparr>w_ys = 8, w_yd = 2, w_ny_to_read = 4, w_xs = 0, w_xd = 0, w_nx_to_read = 8\<rparr>
   \<and> read_window False mesh0 (gf0\<lparr>grid_yguards := 2\<rparr>) [12, 14]
     = Inr \<lparr>w_ys = 12, w_yd = 0, w_ny_to_read = 8, w_xs = 0, w_xd = 0, w_nx_to_read = 8\<rparr>
   \<and> read_window True mesh0 (gf0\<lparr>grid_yguards := 0\<rparr>) [12, 14] = Inl AssertFailed"
proof -
  have "y_start chk mesh0 (gf0\<lparr>grid_yguards := 0\<rparr>) = Inr 8"
       "y_start chk mesh0 (gf0\<lparr>grid_yguards := 2\<rparr>) = Inr 12" for chk
    by (simp_all add: y_start_def then_do_def ASSERT1_def mesh0_def gf0_def)
  moreover have "y_window False mesh0 (gf0\<lparr>grid_yguards := 0\<rparr>) [12, 14] = Inr (4, 2)"
       "y_window False mesh0 (gf0\<lparr>grid_yguards := 2\<rparr>) [12, 14] = Inr (8, 0)"
       "y_window True mesh0 (gf0\<lparr>grid_yguards := 0\<rparr>) [12, 14] = Inl AssertFailed"
    by (simp_all add: y_window_def y_guard_case_def then_do_def ASSERT1_def mesh0_widths)
       (simp_all add: mesh0_def)
  moreover have "OffsetX mesh0 = 0"
    by (simp add: mesh0_def)
  ultimately show ?thesis
    by (simp add: read_window_def then_do_def ASSERT1_def x_window_mesh0 mesh0_asserts)
qed

text \<open>
  C10. In the reconciliation of the \<open>x\<close> guard cells the branch for a count equal to zero
  is never taken, whatever the count. When the count is zero, a window that getField
  computes is LocalNx columns placed at \<open>x\<close> offset -mxg; it is computed whenever
  assertions are not compiled in, or mxg is not positive and the stored extent is exactly
  GlobalNx - 2 mxg. With assertions compiled in and mxg positive, the assertion
  \<open>xd >= 0\<close> that follows the assignment raises.
\<close>

theorem zero_x_guards_branch_unreachable:
  "x_guard_case g \<noteq> ExcludingGhost
   \<and> (grid_xguards_of m fd = 0 \<longrightarrow>
        (\<forall>p. x_window chk m fd = Inr p \<longrightarrow> p = (LocalNx m, - mxg m))
      \<and> (\<not> chk \<longrightarrow> x_window chk m fd = Inr (LocalNx m, - mxg m))
      \<and> (fd ! 0 = GlobalNx m - 2 * mxg m \<and> mxg m \<le> 0 \<longrightarrow>
            x_window chk m fd = Inr (LocalNx m, - mxg m))
      \<and> (chk \<and> 0 < mxg m \<longrightarrow> x_window chk m fd = Inl AssertFailed))"
proof -
  have "x_guard_case g \<noteq> ExcludingGhost"
    by (simp add: x_guard_case_def)
  moreover have "grid_xguards_of m fd = 0 \<Longrightarrow> x_window chk m fd = Inr p
      \<Longrightarrow> p = (LocalNx m, - mxg m)" for p
    by (simp add: x_window_zero_guards split: if_splits)
  moreover have "grid_xguards_of m fd = 0 \<Longrightarrow> \<not> chk
      \<Longrightarrow> x_window chk m fd = Inr (LocalNx m, - mxg m)"
    by (simp add: x_window_zero_guards)
  moreover have "grid_xguards_of m fd = 0 \<Longrightarrow> fd ! 0 = GlobalNx m - 2 * mxg m \<Longrightarrow> mxg m \<le> 0
      \<Longrightarrow> x_window chk m fd = Inr (LocalNx m, - mxg m)"
    by (simp add: x_window_zero_guards)
  moreover have "grid_xguards_of m fd = 0 \<Longrightarrow> chk \<Longrightarrow> 0 < mxg m
      \<Longrightarrow> x_window chk m fd = Inl AssertFailed"
    by (simp add: x_window_zero_guards)
  ultimately show ?thesis by blast
qed

theorem zero_x_guards_branch_unreachable_witness:
  "grid_xguards_of mesh0 [8, 14] = 0 \<and> x_window False mesh0 [8, 14] = Inr (8, - 2)
   \<and> x_window True mesh0 [8, 14] = Inl AssertFailed"
proof -
  have h: "grid_xguards_of mesh0 [8, 14] = 0"
    by (simp add: grid_xguards_of_def mesh0_widths) (simp add: mesh0_def c_div_def)
  have l: "LocalNx mesh0 = 8"
    by (simp add: mesh0_def)
  from zero_x_guards_branch_unreachable [of 0 mesh0 "[8, 14]" False] h
  have "x_window False mesh0 [8, 14] = Inr (LocalNx mesh0, - mxg mesh0)"
    by blast
  moreover from zero_x_guards_branch_unreachable [of 0 mesh0 "[8, 14]" True] h
  have "x_window True mesh0 [8, 14] = Inl AssertFailed"
    by (simp add: mesh0_widths)
  ultimately show ?thesis using h l by (simp add: mesh0_widths)
qed

subsection \<open>getField on an absent variable\<close>

text \<open>
  C8. When the backend is readable and reports an empty size for the variable, getField
  returns found=false, leaves the loader as it was, and every cell of the field equals
  the default value supplied.
\<close>

theorem getField_absent_variable:
  assumes "is_valid (the_file gf)" and "getSize (the_file gf) name = []"
  shows "\<exists>var'. getField chk m gf var name def = Inr (False, gf, var')
           \<and> (\<forall>x y z. cells var' x y z = def \<and> val var' x y z = def)"
  using assms by (simp add: getField_def assign_def val_def)

theorem getField_absent_variable_witness:
  "is_valid (the_file gf0) \<and> getSize (the_file gf0) ''g'' = []
   \<and> (\<exists>var'. getField True mesh0 gf0
                 \<lparr>is3d = False, fnx = 8, fny = 8, fnz = 1, cells = (\<lambda>a b c. 0)\<rparr> ''g'' 3
               = Inr (False, gf0, var')
           \<and> (\<forall>x y z. cells var' x y z = 3 \<and> val var' x y z = 3))"
proof -
  have h: "is_valid (the_file gf0)" "getSize (the_file gf0) ''g'' = []"
    by (simp_all add: gf0_def file0_def)
  from getField_absent_variable [OF h] h show ?thesis by blast
qed

subsection \<open>Loops\<close>

lemma for_loop_empty: "n \<le> i \<Longrightarrow> for_loop i n body s = Inr s"
  by (simp add: for_loop.simps)

lemma for_loop_inv:
  assumes "for_loop i n body s = Inr s'" and "I i s"
    and step: "\<And>j t t'. i \<le> j \<Longrightarrow> j < n \<Longrightarrow> I j t \<Longrightarrow> body j t = Inr t' \<Longrightarrow> I (j + 1) t'"
  shows "I (max i n) s'"
  using assms
proof (induction i n body s rule: for_loop.induct)
  case (1 i n body s)
  show ?case
  proof (cases "i < n")
    case True
    with "1.prems"(1) obtain t where t: "body i s = Inr t" and r: "for_loop (i + 1) n body t = Inr s'"
      by (subst (asm) for_loop.simps) (auto split: sum.splits)
    have "I (i + 1) t"
      using "1.prems"(3) [of i s t] True "1.prems"(2) t by simp
    with "1.IH" [OF True t r] "1.prems"(3) have "I (max (i + 1) n) s'"
      by simp
    with True show ?thesis by (simp add: max_def)
  next
    case False
    with "1.prems"(1,2) show ?thesis
      by (subst (asm) for_loop.simps) (simp add: max_def)
  qed
qed

lemma for_loop_succeeds:
  assumes "I i s"
    and "\<And>j t. i \<le> j \<Longrightarrow> j < n \<Longrightarrow> I j t \<Longrightarrow> \<exists>t'. body j t = Inr t' \<and> I (j + 1) t'"
  shows "\<exists>s'. for_loop i n body s = Inr s' \<and> I (max i n) s'"
  using assms
proof (induction i n body s rule: for_loop.induct)
  case (1 i n body s)
  show ?case
  proof (cases "i < n")
    case True
    from "1.prems"(2) [of i s] True "1.prems"(1) obtain t where
      t: "body i s = Inr t" and It: "I (i + 1) t"
      by auto
    have "\<exists>s'. for_loop (i + 1) n body t = Inr s' \<and> I (max (i + 1) n) s'"
      using "1.IH" [OF True t It] "1.prems"(2) by simp
    then obtain s' where "for_loop (i + 1) n body t = Inr s'" "I (max (i + 1) n) s'"
      by blast
    with True t show ?thesis
      by (subst for_loop.simps) (simp add: max_def)
  next
    case False
    with "1.prems"(1) show ?thesis
      by (subst for_loop.simps) (simp add: max_def)
  qed
qed

lemma for_loop_first:
  assumes "for_loop i n body s = Inr s'" and "i < n"
  shows "\<exists>t. body i s = Inr t"
  using assms by (subst (asm) for_loop.simps) (auto split: sum.splits)

lemma cell_at_val: "cell_at v x y z = Inr r \<Longrightarrow> r = val v x y z"
  by (simp add: cell_at_def split: if_splits)

lemma put_val:
  assumes "put v x y z r = Inr v'"
  shows "shape v' = shape v"
    and "val v' a b c = (if a = x \<and> b = y \<and> (is3d v \<longrightarrow> c = z) then r else val v a b c)"
  using assms by (auto simp: put_def shape_def val_def split: if_splits)

lemma shape_z_reached: "shape v' = shape v \<Longrightarrow> z_reached v' = z_reached v"
  by (auto simp: shape_def z_reached_def fun_eq_iff)

lemma shape_getNz: "shape v' = shape v \<Longrightarrow> getNz v' = getNz v"
  by (simp add: shape_def getNz_def)

lemma shape_is3d: "shape v' = shape v \<Longrightarrow> is3d v' = is3d v"
  by (simp add: shape_def)

text \<open>copy of one z-row\<close>

lemma copy_z_val:
  assumes "copy_z x0 y0 x y v = Inr v'"
  shows "shape v' = shape v \<and>
         (\<forall>a b c. val v' a b c =
            (if a = x \<and> b = y \<and> z_reached v c then val v x0 y0 c else val v a b c))"
proof -
  let ?I = "\<lambda>j t. shape t = shape v \<and>
      (\<forall>a b c. val t a b c =
         (if a = x \<and> b = y \<and> (if is3d v then 0 \<le> c \<and> c < j else 0 < j)
          then val v x0 y0 c else val v a b c))"
  have "?I (max 0 (getNz v)) v'"
  proof (rule for_loop_inv [OF assms [unfolded copy_z_def], where I = ?I])
    show "?I 0 v" by simp
  next
    fix j t t'
    assume j: "0 \<le> j" "j < getNz v" and I: "?I j t"
      and b: "then_do (cell_at t x0 y0 j) (put t x y j) = Inr t'"
    from b obtain r where r: "cell_at t x0 y0 j = Inr r" and p: "put t x y j r = Inr t'"
      by (auto simp: then_do_def split: sum.splits)
    from I have s3: "is3d t = is3d v" by (simp add: shape_def)
    have rv: "r = val v x0 y0 j"
      using cell_at_val [OF r] I j by (auto simp: getNz_def split: if_splits)
    have v2: "\<not> is3d v \<Longrightarrow> j = 0"
      using j by (simp add: getNz_def)
    have v2': "\<not> is3d v \<Longrightarrow> val v x0 y0 c = val v x0 y0 0" for c
      by (simp add: val_def)
    show "?I (j + 1) t'"
    proof (intro conjI allI)
      show "shape t' = shape v" using put_val(1) [OF p] I by simp
    next
      fix a b c
      show "val t' a b c =
         (if a = x \<and> b = y \<and> (if is3d v then 0 \<le> c \<and> c < j + 1 else 0 < j + 1)
          then val v x0 y0 c else val v a b c)"
      proof (cases "is3d v")
        case True
        then show ?thesis
          using put_val(2) [OF p, of a b c] I s3 rv j by auto
      next
        case False
        then show ?thesis
          using put_val(2) [OF p, of a b c] I s3 rv v2 v2' [of c] by auto
      qed
    qed
  qed
  moreover have "(if is3d v then 0 \<le> c \<and> c < max 0 (getNz v) else 0 < max 0 (getNz v))
      = z_reached v c" for c
    by (auto simp: z_reached_def getNz_def)
  ultimately show ?thesis by simp
qed

subsection \<open>The boundary copies of getField\<close>

lemma row_copy_val:
  assumes "for_loop 0 ny (\<lambda>y. copy_z x0 y x y) v = Inr v'"
  shows "shape v' = shape v \<and>
         (\<forall>a b c. val v' a b c =
            (if a = x \<and> 0 \<le> b \<and> b < ny \<and> z_reached v c then val v x0 b c else val v a b c))"
proof -
  let ?I = "\<lambda>j t. shape t = shape v \<and>
      (\<forall>a b c. val t a b c =
         (if a = x \<and> 0 \<le> b \<and> b < j \<and> z_reached v c then val v x0 b c else val v a b c))"
  have "?I (max 0 ny) v'"
  proof (rule for_loop_inv [OF assms, where I = ?I])
    show "?I 0 v" by auto
  next
    fix j t t'
    assume j: "0 \<le> j" "j < ny" and I: "?I j t" and b: "copy_z x0 j x j t = Inr t'"
    note c = copy_z_val [OF b]
    have z: "z_reached t = z_reached v"
      using I by (intro shape_z_reached) simp
    show "?I (j + 1) t'"
    proof (intro conjI allI)
      show "shape t' = shape v" using c I by simp
    next
      fix a b c
      have e1: "val t' a b c = (if a = x \<and> b = j \<and> z_reached v c then val t x0 j c else val t a b c)"
        using c [THEN conjunct2, rule_format, of a b c] by (simp add: z)
      have e2: "val t x0 j c = val v x0 j c"
        using I [THEN conjunct2, rule_format, of x0 j c] by simp
      have e3: "val t a b c = (if a = x \<and> 0 \<le> b \<and> b < j \<and> z_reached v c then val v x0 b c else val v a b c)"
        using I [THEN conjunct2, rule_format, of a b c] .
      show "val t' a b c =
         (if a = x \<and> 0 \<le> b \<and> b < j + 1 \<and> z_reached v c then val v x0 b c else val v a b c)"
        unfolding e1 e2 e3 using j by auto
    qed
  qed
  then show ?thesis by (simp add: max_def split: if_splits)
qed

lemma x_range_copy_val:
  assumes "for_loop lo hi (\<lambda>x. for_loop 0 ny (\<lambda>y. copy_z x0 y x y)) v = Inr v'"
    and "x0 < lo \<or> hi \<le> x0"
  shows "shape v' = shape v \<and>
         (\<forall>a b c. val v' a b c =
            (if lo \<le> a \<and> a < hi \<and> 0 \<le> b \<and> b < ny \<and> z_reached v c
             then val v x0 b c else val v a b c))"
proof -
  let ?I = "\<lambda>j t. shape t = shape v \<and>
      (\<forall>a b c. val t a b c =
         (if lo \<le> a \<and> a < j \<and> 0 \<le> b \<and> b < ny \<and> z_reached v c
          then val v x0 b c else val v a b c))"
  have "?I (max lo hi) v'"
  proof (rule for_loop_inv [OF assms(1), where I = ?I])
    show "?I lo v" by auto
  next
    fix j t t'
    assume j: "lo \<le> j" "j < hi" and I: "?I j t"
      and b: "for_loop 0 ny (\<lambda>y. copy_z x0 y j y) t = Inr t'"
    note c = row_copy_val [OF b]
    have z: "z_reached t = z_reached v"
      using I by (intro shape_z_reached) simp
    show "?I (j + 1) t'"
    proof (intro conjI allI)
      show "shape t' = shape v" using c I by simp
    next
      fix a b c
      have e1: "val t' a b c = (if a = j \<and> 0 \<le> b \<and> b < ny \<and> z_reached v c
                                then val t x0 b c else val t a b c)"
        using c [THEN conjunct2, rule_format, of a b c] by (simp add: z)
      have e2: "val t x0 b c = val v x0 b c"
        using I [THEN conjunct2, rule_format, of x0 b c] j assms(2) by auto
      have e3: "val t a b c = (if lo \<le> a \<and> a < j \<and> 0 \<le> b \<and> b < ny \<and> z_reached v c
                               then val v x0 b c else val v a b c)"
        using I [THEN conjunct2, rule_format, of a b c] .
      show "val t' a b c =
         (if lo \<le> a \<and> a < j + 1 \<and> 0 \<le> b \<and> b < ny \<and> z_reached v c
          then val v x0 b c else val v a b c)"
        unfolding e1 e2 e3 using j by auto
    qed
  qed
  then show ?thesis by (simp add: max_def split: if_splits)
qed

lemma y_range_copy_val:
  assumes "for_loop lo hi (\<lambda>y. copy_z x y0 x y) v = Inr v'"
    and "y0 < lo \<or> hi \<le> y0"
  shows "shape v' = shape v \<and>
         (\<forall>a b c. val v' a b c =
            (if a = x \<and> lo \<le> b \<and> b < hi \<and> z_reached v c then val v x y0 c else val v a b c))"
proof -
  let ?I = "\<lambda>j t. shape t = shape v \<and>
      (\<forall>a b c. val t a b c =
         (if a = x \<and> lo \<le> b \<and> b < j \<and> z_reached v c then val v x y0 c else val v a b c))"
  have "?I (max lo hi) v'"
  proof (rule for_loop_inv [OF assms(1), where I = ?I])
    show "?I lo v" by auto
  next
    fix j t t'
    assume j: "lo \<le> j" "j < hi" and I: "?I j t" and b: "copy_z x y0 x j t = Inr t'"
    note c = copy_z_val [OF b]
    have z: "z_reached t = z_reached v"
      using I by (intro shape_z_reached) simp
    show "?I (j + 1) t'"
    proof (intro conjI allI)
      show "shape t' = shape v" using c I by simp
    next
      fix a b c
      have e1: "val t' a b c = (if a = x \<and> b = j \<and> z_reached v c then val t x y0 c else val t a b c)"
        using c [THEN conjunct2, rule_format, of a b c] by (simp add: z)
      have e2: "val t x y0 c = val v x y0 c"
        using I [THEN conjunct2, rule_format, of x y0 c] j assms(2) by auto
      have e3: "val t a b c = (if a = x \<and> lo \<le> b \<and> b < j \<and> z_reached v c then val v x y0 c else val v a b c)"
        using I [THEN conjunct2, rule_format, of a b c] .
      show "val t' a b c =
         (if a = x \<and> lo \<le> b \<and> b < j + 1 \<and> z_reached v c then val v x y0 c else val v a b c)"
        unfolding e1 e2 e3 using j by auto
    qed
  qed
  then show ?thesis by (simp add: max_def split: if_splits)
qed

lemma fill_xguards_val:
  assumes "fill_xguards m v = Inr v'" and "interior_in_box m"
  shows "shape v' = shape v"
    and "0 \<le> b \<Longrightarrow> b < LocalNy m \<Longrightarrow> z_reached v c \<Longrightarrow> 0 \<le> a \<Longrightarrow> a < xstart m
           \<Longrightarrow> val v' a b c = val v' (xstart m) b c"
    and "0 \<le> b \<Longrightarrow> b < LocalNy m \<Longrightarrow> z_reached v c \<Longrightarrow> xend m < a \<Longrightarrow> a < LocalNx m
           \<Longrightarrow> val v' a b c = val v' (xend m) b c"
proof -
  from assms(1) obtain v1 where
    lo: "for_loop 0 (xstart m) (\<lambda>x. for_loop 0 (LocalNy m) (\<lambda>y. copy_z (xstart m) y x y)) v = Inr v1"
    and hi: "for_loop (xend m + 1) (LocalNx m)
               (\<lambda>x. for_loop 0 (LocalNy m) (\<lambda>y. copy_z (xend m) y x y)) v1 = Inr v'"
    by (auto simp: fill_xguards_def then_do_def split: sum.splits)
  note l = x_range_copy_val [OF lo]
  note h = x_range_copy_val [OF hi]
  have s1: "shape v1 = shape v" using l by simp
  have z1: "z_reached v1 = z_reached v" using s1 by (rule shape_z_reached)
  show "shape v' = shape v" using h s1 by simp
  have e1: "val v1 a b c = (if 0 \<le> a \<and> a < xstart m \<and> 0 \<le> b \<and> b < LocalNy m \<and> z_reached v c
                            then val v (xstart m) b c else val v a b c)" for a b c
    using l by simp
  have e2: "val v' a b c = (if xend m + 1 \<le> a \<and> a < LocalNx m \<and> 0 \<le> b \<and> b < LocalNy m \<and> z_reached v c
                            then val v1 (xend m) b c else val v1 a b c)" for a b c
    using h by (simp add: z1)
  show "val v' a b c = val v' (xstart m) b c"
    if "0 \<le> b" "b < LocalNy m" "z_reached v c" "0 \<le> a" "a < xstart m"
    unfolding e2 e1 using that assms(2) by (auto simp: interior_in_box_def)
  show "val v' a b c = val v' (xend m) b c"
    if "0 \<le> b" "b < LocalNy m" "z_reached v c" "xend m < a" "a < LocalNx m"
    unfolding e2 e1 using that by auto
qed

lemma fill_y_body_val:
  assumes "then_do (for_loop 0 (ystart m) (\<lambda>y. copy_z x (ystart m) x y) t) (\<lambda>v1.
                for_loop (yend m + 1) (LocalNy m) (\<lambda>y. copy_z x (yend m) x y) v1) = Inr t'"
    and "interior_in_box m"
  shows "shape t' = shape t \<and>
         (\<forall>a b c. val t' a b c =
            (if a = x \<and> z_reached t c then val t x (nearest_interior_y m b) c else val t a b c))"
proof -
  from assms(1) obtain t1 where
    lo: "for_loop 0 (ystart m) (\<lambda>y. copy_z x (ystart m) x y) t = Inr t1"
    and hi: "for_loop (yend m + 1) (LocalNy m) (\<lambda>y. copy_z x (yend m) x y) t1 = Inr t'"
    by (auto simp: then_do_def split: sum.splits)
  note l = y_range_copy_val [OF lo]
  note h = y_range_copy_val [OF hi]
  have s1: "shape t1 = shape t" using l by simp
  have z1: "z_reached t1 = z_reached t" using s1 by (rule shape_z_reached)
  have e1: "val t1 a b c = (if a = x \<and> 0 \<le> b \<and> b < ystart m \<and> z_reached t c
                            then val t x (ystart m) c else val t a b c)" for a b c
    using l by simp
  have e2: "val t' a b c = (if a = x \<and> yend m + 1 \<le> b \<and> b < LocalNy m \<and> z_reached t c
                            then val t1 x (yend m) c else val t1 a b c)" for a b c
    using h by (simp add: z1)
  have "val t' a b c =
            (if a = x \<and> z_reached t c then val t x (nearest_interior_y m b) c else val t a b c)"
    for a b c
    unfolding e2 e1 nearest_interior_y_def using assms(2) by (auto simp: interior_in_box_def)
  moreover have "shape t' = shape t" using h s1 by simp
  ultimately show ?thesis by blast
qed

lemma fill_yguards_val:
  assumes "fill_yguards m v = Inr v'" and "interior_in_box m"
  shows "shape v' = shape v \<and>
         (\<forall>a b c. val v' a b c =
            (if 0 \<le> a \<and> a < LocalNx m \<and> z_reached v c
             then val v a (nearest_interior_y m b) c else val v a b c))"
proof -
  let ?I = "\<lambda>j t. shape t = shape v \<and>
      (\<forall>a b c. val t a b c =
         (if 0 \<le> a \<and> a < j \<and> z_reached v c
          then val v a (nearest_interior_y m b) c else val v a b c))"
  have "?I (max 0 (LocalNx m)) v'"
  proof (rule for_loop_inv [OF assms(1) [unfolded fill_yguards_def], where I = ?I])
    show "?I 0 v" by auto
  next
    fix j t t'
    assume j: "0 \<le> j" "j < LocalNx m" and I: "?I j t"
      and b: "then_do (for_loop 0 (ystart m) (\<lambda>y. copy_z j (ystart m) j y) t) (\<lambda>v1.
                for_loop (yend m + 1) (LocalNy m) (\<lambda>y. copy_z j (yend m) j y) v1) = Inr t'"
    note c = fill_y_body_val [OF b assms(2)]
    have z: "z_reached t = z_reached v"
      using I by (intro shape_z_reached) simp
    show "?I (j + 1) t'"
    proof (intro conjI allI)
      show "shape t' = shape v" using c I by simp
    next
      fix a b c
      have e1: "val t' a b c = (if a = j \<and> z_reached v c
                                then val t j (nearest_interior_y m b) c else val t a b c)"
        using c [THEN conjunct2, rule_format, of a b c] by (simp add: z)
      have e2: "val t j (nearest_interior_y m b) c = val v j (nearest_interior_y m b) c"
        using I [THEN conjunct2, rule_format, of j "nearest_interior_y m b" c] by simp
      have e3: "val t a b c = (if 0 \<le> a \<and> a < j \<and> z_reached v c
          then val v a (nearest_interior_y m b) c else val v a b c)"
        using I [THEN conjunct2, rule_format, of a b c] .
      show "val t' a b c =
         (if 0 \<le> a \<and> a < j + 1 \<and> z_reached v c
          then val v a (nearest_interior_y m b) c else val v a b c)"
        unfolding e1 e2 e3 using j by auto
    qed
  qed
  then show ?thesis by (simp add: max_def split: if_splits)
qed

lemma nearest_interior_y_range:
  "interior_in_box m \<Longrightarrow> 0 \<le> b \<Longrightarrow> b < LocalNy m
     \<Longrightarrow> 0 \<le> nearest_interior_y m b \<and> nearest_interior_y m b < LocalNy m"
  by (auto simp: interior_in_box_def nearest_interior_y_def)

lemma guards_after_fills:
  assumes x: "fill_xguards m v1 = Inr v2"
    and y: "(if g = 0 then fill_yguards m v2 else Inr v2) = Inr v3"
    and box: "interior_in_box m"
    and b: "0 \<le> b" "b < LocalNy m" and c: "z_reached v3 c"
  shows "shape v3 = shape v1"
    and "0 \<le> a \<Longrightarrow> a < xstart m \<Longrightarrow> val v3 a b c = val v3 (xstart m) b c"
    and "xend m < a \<Longrightarrow> a < LocalNx m \<Longrightarrow> val v3 a b c = val v3 (xend m) b c"
proof -
  note fx = fill_xguards_val [OF x box]
  have s3: "shape v3 = shape v2"
    using y fill_yguards_val [OF _ box, of v2 v3] by (auto split: if_splits)
  show "shape v3 = shape v1" using s3 fx(1) by simp
  have z: "z_reached v1 c" "z_reached v2 c"
    using c shape_z_reached [OF s3] shape_z_reached [OF fx(1)] by simp_all
  have ends: "0 \<le> xstart m" "xstart m < LocalNx m" "0 \<le> xend m" "xend m < LocalNx m"
    using box by (auto simp: interior_in_box_def)
  show "val v3 a b c = val v3 (xstart m) b c" if a: "0 \<le> a" "a < xstart m"
  proof (cases "g = 0")
    case True
    with y have f: "fill_yguards m v2 = Inr v3" by simp
    note fy = fill_yguards_val [OF f box, THEN conjunct2, rule_format]
    note r = nearest_interior_y_range [OF box b]
    have "val v3 a b c = val v2 a (nearest_interior_y m b) c"
      using fy [of a b c] a ends z by simp
    also have "\<dots> = val v2 (xstart m) (nearest_interior_y m b) c"
      using fx(2) [of "nearest_interior_y m b" c a] r z a by simp
    also have "\<dots> = val v3 (xstart m) b c"
      using fy [of "xstart m" b c] ends z by simp
    finally show ?thesis .
  next
    case False
    with y have "v3 = v2" by simp
    then show ?thesis using fx(2) [of b c a] b z a by simp
  qed
  show "val v3 a b c = val v3 (xend m) b c" if a: "xend m < a" "a < LocalNx m"
  proof (cases "g = 0")
    case True
    with y have f: "fill_yguards m v2 = Inr v3" by simp
    note fy = fill_yguards_val [OF f box, THEN conjunct2, rule_format]
    note r = nearest_interior_y_range [OF box b]
    have "val v3 a b c = val v2 a (nearest_interior_y m b) c"
      using fy [of a b c] a ends z by simp
    also have "\<dots> = val v2 (xend m) (nearest_interior_y m b) c"
      using fx(3) [of "nearest_interior_y m b" c a] r z a by simp
    also have "\<dots> = val v3 (xend m) b c"
      using fy [of "xend m" b c] ends z by simp
    finally show ?thesis .
  next
    case False
    with y have "v3 = v2" by simp
    then show ?thesis using fx(3) [of b c a] b z a by simp
  qed
qed

lemma getField_x_guards:
  assumes ok: "getField chk m gf var name def = Inr (True, gf', var')"
    and dims: "length (getSize (the_file gf) name) = 2 \<or> length (getSize (the_file gf) name) = 3"
    and nog: "getSize (the_file gf) name ! 0 = GlobalNx m - 2 * mxg m"
    and box: "interior_in_box m"
  shows "\<forall>x y z. 0 \<le> y \<and> y < LocalNy m \<and> z_reached var' z \<longrightarrow>
           (0 \<le> x \<and> x < xstart m \<longrightarrow> val var' x y z = val var' (xstart m) y z)
         \<and> (xend m < x \<and> x < LocalNx m \<longrightarrow> val var' x y z = val var' (xend m) y z)"
proof -
  from ok dims have "load_field chk m gf var name (getSize (the_file gf) name) = Inr (True, gf', var')"
    by (auto simp: getField_def Let_def split: if_splits)
  with nog obtain v1 v2 where x: "fill_xguards m v1 = Inr v2"
    and y: "(if grid_yguards gf = 0 then fill_yguards m v2 else Inr v2) = Inr var'"
    by (auto simp: load_field_def Let_def then_do_def split: sum.splits prod.splits)
  show ?thesis
    using guards_after_fills(2,3) [OF x y box] by blast
qed

subsection \<open>The reader of a Field2D\<close>

lemma block_row_y: "block g (x0, y0, z0) [1, n] = map (\<lambda>j. g x0 (y0 + j) z0) [0..n - 1]"
  by simp

lemma block_row_y_nth:
  "0 \<le> j \<Longrightarrow> j < n \<Longrightarrow> block g (x0, y0, z0) [1, n] ! nat j = g x0 (y0 + j) z0"
  by simp

lemma write_row_y_val:
  assumes "write_row_y v x y vs = Inr v'" and "\<not> is3d v"
  shows "\<not> is3d v'" and "shape v' = shape v"
    and "val v' a b c = (if a = x \<and> y \<le> b \<and> b < y + int (length vs) then vs ! nat (b - y)
                         else val v a b c)"
  using assms by (auto simp: write_row_y_def shape_def val_def split: if_splits)

lemma read_row_2d_val:
  assumes "read_row_2d name ys yd n xs xd x (f, v) = Inr (f', v')"
    and "reals f = reals f0 \<and> shape v = s \<and> \<not> is3d v"
  shows "(reals f' = reals f0 \<and> shape v' = s \<and> \<not> is3d v') \<and>
         (\<forall>a b c. val v' a b c =
            (if a = x - xs + xd \<and> yd \<le> b \<and> b < yd + n
             then reals f0 name x (ys + (b - yd)) 0 else val v a b c))"
proof -
  let ?vs = "block (reals f name) (x, ys, 0) [1, n]"
  from assms(1) have f': "f' = setGlobalOrigin x ys 0 f"
    and w: "write_row_y v (x - xs + xd) yd ?vs = Inr v'"
    by (auto simp: read_row_2d_def Let_def read_real_def setGlobalOrigin_def then_do_def
        split: if_splits option.splits sum.splits)
  from assms(2) have v2: "\<not> is3d v" by simp
  note wv = write_row_y_val [OF w v2]
  have len: "int (length ?vs) = (if 0 \<le> n then n else 0)" by simp
  have "val v' a b c =
            (if a = x - xs + xd \<and> yd \<le> b \<and> b < yd + n
             then reals f0 name x (ys + (b - yd)) 0 else val v a b c)" for a b c
  proof (cases "yd \<le> b \<and> b < yd + n")
    case True
    then have "?vs ! nat (b - yd) = reals f name x (ys + (b - yd)) 0"
      using block_row_y_nth [of "b - yd" n "reals f name" x ys 0] by simp
    with True show ?thesis
      unfolding wv(3) [of a b c] len using assms(2) by auto
  next
    case False
    then show ?thesis
      unfolding wv(3) [of a b c] len by auto
  qed
  moreover have "reals f' = reals f0" using f' assms(2) by (simp add: setGlobalOrigin_def)
  ultimately show ?thesis using wv(1,2) assms(2) by simp
qed

lemma readField2D_val:
  assumes "readField2D gf name ys yd ny xs xd nx var = Inr (gf', var')" and "\<not> is3d var"
  shows "shape var' = shape var"
    and "val var' a b c =
           (if xd \<le> a \<and> a < xd + nx \<and> yd \<le> b \<and> b < yd + ny
            then reals (the_file gf) name (xs + (a - xd)) (ys + (b - yd)) 0
            else val var a b c)"
proof -
  from assms(1) obtain f where
    run: "for_loop xs (xs + nx) (read_row_2d name ys yd ny xs xd) (the_file gf, var) = Inr (f, var')"
    by (auto simp: readField2D_def split: sum.splits prod.splits)
  let ?I = "\<lambda>j t. (reals (fst t) = reals (the_file gf) \<and> shape (snd t) = shape var \<and> \<not> is3d (snd t)) \<and>
      (\<forall>a b c. val (snd t) a b c =
         (if xd \<le> a \<and> a < xd + (j - xs) \<and> yd \<le> b \<and> b < yd + ny
          then reals (the_file gf) name (xs + (a - xd)) (ys + (b - yd)) 0
          else val var a b c))"
  have "?I (max xs (xs + nx)) (f, var')"
  proof (rule for_loop_inv [OF run, where I = ?I])
    show "?I xs (the_file gf, var)" using assms(2) by auto
  next
    fix j t t'
    assume j: "xs \<le> j" "j < xs + nx" and I: "?I j t"
      and b: "read_row_2d name ys yd ny xs xd j t = Inr t'"
    from I have J: "reals (fst t) = reals (the_file gf) \<and> shape (snd t) = shape var \<and> \<not> is3d (snd t)"
      by simp
    from b have b': "read_row_2d name ys yd ny xs xd j (fst t, snd t) = Inr (fst t', snd t')"
      by simp
    note r = read_row_2d_val [OF b' J]
    show "?I (j + 1) t'"
    proof (intro conjI allI)
      show "reals (fst t') = reals (the_file gf)" "shape (snd t') = shape var" "\<not> is3d (snd t')"
        using r by simp_all
    next
      fix a b c
      have e1: "val (snd t') a b c =
            (if a = j - xs + xd \<and> yd \<le> b \<and> b < yd + ny
             then reals (the_file gf) name j (ys + (b - yd)) 0 else val (snd t) a b c)"
        using r [THEN conjunct2, rule_format, of a b c] .
      have e3: "val (snd t) a b c =
         (if xd \<le> a \<and> a < xd + (j - xs) \<and> yd \<le> b \<and> b < yd + ny
          then reals (the_file gf) name (xs + (a - xd)) (ys + (b - yd)) 0
          else val var a b c)"
        using I [THEN conjunct2, rule_format, of a b c] .
      have g: "a = j - xs + xd \<Longrightarrow> j = xs + (a - xd)" by simp
      show "val (snd t') a b c =
         (if xd \<le> a \<and> a < xd + (j + 1 - xs) \<and> yd \<le> b \<and> b < yd + ny
          then reals (the_file gf) name (xs + (a - xd)) (ys + (b - yd)) 0
          else val var a b c)"
        unfolding e1 e3 using j g by auto
    qed
  qed
  then have I: "?I (max xs (xs + nx)) (f, var')" .
  from I show "shape var' = shape var" by simp
  from I [THEN conjunct2, rule_format, of a b c]
  show "val var' a b c =
           (if xd \<le> a \<and> a < xd + nx \<and> yd \<le> b \<and> b < yd + ny
            then reals (the_file gf) name (xs + (a - xd)) (ys + (b - yd)) 0
            else val var a b c)"
    by (simp add: max_def split: if_splits)
qed

lemma readField2D_succeeds:
  assumes v2: "\<not> is3d var"
    and box: "0 \<le> xd" "xd + nx \<le> fnx var" "0 \<le> yd" "yd < fny var" "yd + ny \<le> fny var"
    and rd: "\<And>x. xs \<le> x \<Longrightarrow> x < xs + nx \<Longrightarrow> readable (the_file gf) name (x, ys, 0) [1, ny]"
  shows "\<exists>gf' var'. readField2D gf name ys yd ny xs xd nx var = Inr (gf', var')"
proof -
  let ?J = "\<lambda>(j :: int) t :: datafile \<times> field.
              shape (snd t) = shape var \<and> readable (fst t) = readable (the_file gf)"
  have "\<exists>s'. for_loop xs (xs + nx) (read_row_2d name ys yd ny xs xd) (the_file gf, var) = Inr s'
          \<and> ?J (max xs (xs + nx)) s'"
  proof (rule for_loop_succeeds [where I = ?J])
    show "?J xs (the_file gf, var)" by simp
  next
    fix j t
    assume j: "xs \<le> j" "j < xs + nx" and Jt: "?J j t"
    obtain f v where t: "t = (f, v)" by (cases t)
    from Jt t have s: "is3d v = is3d var" "fnx v = fnx var" "fny v = fny var" "fnz v = fnz var"
      and rf: "readable f = readable (the_file gf)"
      by (simp_all add: shape_def)
    have ib: "in_box v (j - xs + xd) yd 0"
      using box j s v2 by (auto simp: in_box_def)
    have rdb: "readable f name (j, ys, 0) [1, ny]"
      using rd [OF j] rf by simp
    have ln: "yd + int (nat ny) \<le> fny v"
      using box s by auto
    show "\<exists>t'. read_row_2d name ys yd ny xs xd j t = Inr t' \<and> ?J (j + 1) t'"
      using ib rdb ln s rf
      by (simp add: t read_row_2d_def Let_def read_real_def setGlobalOrigin_def write_row_y_def
          then_do_def shape_def)
  qed
  then show ?thesis
    by (auto simp: readField2D_def)
qed

subsection \<open>The interior under the boundary copies\<close>

lemma fill_xguards_interior:
  assumes "fill_xguards m v = Inr v'"
  shows "shape v' = shape v"
    and "xstart m \<le> a \<Longrightarrow> a \<le> xend m \<Longrightarrow> val v' a b c = val v a b c"
proof -
  from assms(1) obtain v1 where
    lo: "for_loop 0 (xstart m) (\<lambda>x. for_loop 0 (LocalNy m) (\<lambda>y. copy_z (xstart m) y x y)) v = Inr v1"
    and hi: "for_loop (xend m + 1) (LocalNx m)
               (\<lambda>x. for_loop 0 (LocalNy m) (\<lambda>y. copy_z (xend m) y x y)) v1 = Inr v'"
    by (auto simp: fill_xguards_def then_do_def split: sum.splits)
  note l = x_range_copy_val [OF lo]
  note h = x_range_copy_val [OF hi]
  show "shape v' = shape v" using l h by simp
  show "val v' a b c = val v a b c" if "xstart m \<le> a" "a \<le> xend m"
    using l [THEN conjunct2, rule_format, of a b c] h [THEN conjunct2, rule_format, of a b c] that
    by simp
qed

lemma fill_yguards_interior:
  assumes "fill_yguards m v = Inr v'"
  shows "shape v' = shape v"
    and "ystart m \<le> b \<Longrightarrow> b \<le> yend m \<Longrightarrow> val v' a b c = val v a b c"
proof -
  let ?I = "\<lambda>(j :: int) t. shape t = shape v \<and>
      (\<forall>a b c. ystart m \<le> b \<and> b \<le> yend m \<longrightarrow> val t a b c = val v a b c)"
  have "?I (max 0 (LocalNx m)) v'"
  proof (rule for_loop_inv [OF assms(1) [unfolded fill_yguards_def], where I = ?I])
    show "?I 0 v" by simp
  next
    fix j t t'
    assume I: "?I j t"
      and b: "then_do (for_loop 0 (ystart m) (\<lambda>y. copy_z j (ystart m) j y) t) (\<lambda>v1.
                for_loop (yend m + 1) (LocalNy m) (\<lambda>y. copy_z j (yend m) j y) v1) = Inr t'"
    from b obtain t1 where
      lo: "for_loop 0 (ystart m) (\<lambda>y. copy_z j (ystart m) j y) t = Inr t1"
      and hi: "for_loop (yend m + 1) (LocalNy m) (\<lambda>y. copy_z j (yend m) j y) t1 = Inr t'"
      by (auto simp: then_do_def split: sum.splits)
    note l = y_range_copy_val [OF lo]
    note h = y_range_copy_val [OF hi]
    show "?I (j + 1) t'"
    proof (intro conjI allI impI)
      show "shape t' = shape v" using l h I by simp
    next
      fix a b c assume r: "ystart m \<le> b \<and> b \<le> yend m"
      then show "val t' a b c = val v a b c"
        using l [THEN conjunct2, rule_format, of a b c] h [THEN conjunct2, rule_format, of a b c] I
        by simp
    qed
  qed
  then show "shape v' = shape v"
    and "ystart m \<le> b \<Longrightarrow> b \<le> yend m \<Longrightarrow> val v' a b c = val v a b c"
    by simp_all
qed

subsection \<open>getField on a variable of two or three dimensions\<close>

lemma getField_load:
  assumes "getField chk m gf var name def = Inr (True, gf', var')"
    and "2 \<le> length (getSize (the_file gf) name)"
  shows "load_field chk m gf var name (getSize (the_file gf) name) = Inr (True, gf', var')"
    and "is_valid (the_file gf)"
    and "length (getSize (the_file gf) name) = 2
         \<or> length (getSize (the_file gf) name) = 3 \<and> is3d var"
  using assms by (auto simp: getField_def Let_def split: if_splits)

lemma load_field_Inr:
  assumes "load_field chk m gf var name sz = Inr (ok, gf', var')"
  shows "\<exists>w v1. read_window chk m gf (getSize (the_file gf) name) = Inr w
           \<and> readField m gf name (w_ys w) (w_yd w) (w_ny_to_read w)
                (w_xs w) (w_xd w) (w_nx_to_read w) sz var = Inr (gf', v1)
           \<and> shape var' = shape v1
           \<and> (\<forall>a b c. xstart m \<le> a \<and> a \<le> xend m \<and> ystart m \<le> b \<and> b \<le> yend m
                \<longrightarrow> val var' a b c = val v1 a b c)"
proof -
  let ?fd = "getSize (the_file gf) name"
  from assms obtain w v1 v2 where
    w: "read_window chk m gf ?fd = Inr w"
    and r: "readField m gf name (w_ys w) (w_yd w) (w_ny_to_read w)
                (w_xs w) (w_xd w) (w_nx_to_read w) sz var = Inr (gf', v1)"
    and x: "(if ?fd ! 0 = GlobalNx m - 2 * mxg m then fill_xguards m v1 else Inr v1) = Inr v2"
    and y: "(if grid_yguards gf = 0 then fill_yguards m v2 else Inr v2) = Inr var'"
    by (auto simp: load_field_def Let_def then_do_def split: sum.splits prod.splits)
  have sx: "shape v2 = shape v1"
    and ix: "xstart m \<le> a \<Longrightarrow> a \<le> xend m \<Longrightarrow> val v2 a b c = val v1 a b c" for a b c
    using x fill_xguards_interior [of m v1 v2] by (auto split: if_splits)
  have sy: "shape var' = shape v2"
    and iy: "ystart m \<le> b \<Longrightarrow> b \<le> yend m \<Longrightarrow> val var' a b c = val v2 a b c" for a b c
    using y fill_yguards_interior [of m v2 var'] by (auto split: if_splits)
  have "shape var' = shape v1" using sx sy by simp
  moreover have "val var' a b c = val v1 a b c"
    if "xstart m \<le> a \<and> a \<le> xend m \<and> ystart m \<le> b \<and> b \<le> yend m" for a b c
    using that ix [of a b c] iy [of b a c] by simp
  ultimately show ?thesis using w r by blast
qed

subsection \<open>The real-space reader\<close>

lemma grid_row_loop:
  fixes fld :: "'s \<Rightarrow> field" and J :: "'s \<Rightarrow> bool" and body :: "int \<Rightarrow> int \<Rightarrow> 's \<Rightarrow> 'x + 's"
  assumes run: "for_loop yread (yread + ysize) (body jx) s = Inr s'"
    and J0: "J s"
    and row: "\<And>jy t t'. J t \<Longrightarrow> body jx jy t = Inr t' \<Longrightarrow>
        J t' \<and> (\<forall>a b c. val (fld t') a b c =
           (if a = jx - xread + xdest \<and> b = jy - yread + ydest \<and> 0 \<le> c \<and> c < n
            then G jx jy c else val (fld t) a b c))"
  shows "J s' \<and> (\<forall>a b c. val (fld s') a b c =
           (if a = jx - xread + xdest \<and> ydest \<le> b \<and> b < ydest + ysize \<and> 0 \<le> c \<and> c < n
            then G jx (b - ydest + yread) c else val (fld s) a b c))"
proof -
  let ?I = "\<lambda>j t. J t \<and> (\<forall>a b c. val (fld t) a b c =
           (if a = jx - xread + xdest \<and> ydest \<le> b \<and> b < ydest + (j - yread) \<and> 0 \<le> c \<and> c < n
            then G jx (b - ydest + yread) c else val (fld s) a b c))"
  have "?I (max yread (yread + ysize)) s'"
  proof (rule for_loop_inv [OF run, where I = ?I])
    show "?I yread s" using J0 by auto
  next
    fix j t t'
    assume j: "yread \<le> j" "j < yread + ysize" and I: "?I j t" and b: "body jx j t = Inr t'"
    from I have Jt: "J t" by simp
    note r = row [OF Jt b]
    show "?I (j + 1) t'"
    proof (intro conjI allI)
      show "J t'" using r by simp
    next
      fix a b c
      have e1: "val (fld t') a b c =
           (if a = jx - xread + xdest \<and> b = j - yread + ydest \<and> 0 \<le> c \<and> c < n
            then G jx j c else val (fld t) a b c)"
        using r [THEN conjunct2, rule_format, of a b c] .
      have e3: "val (fld t) a b c =
           (if a = jx - xread + xdest \<and> ydest \<le> b \<and> b < ydest + (j - yread) \<and> 0 \<le> c \<and> c < n
            then G jx (b - ydest + yread) c else val (fld s) a b c)"
        using I [THEN conjunct2, rule_format, of a b c] .
      show "val (fld t') a b c =
           (if a = jx - xread + xdest \<and> ydest \<le> b \<and> b < ydest + (j + 1 - yread) \<and> 0 \<le> c \<and> c < n
            then G jx (b - ydest + yread) c else val (fld s) a b c)"
        unfolding e1 e3 using j by auto
    qed
  qed
  then show ?thesis by (simp add: max_def split: if_splits)
qed

lemma grid_rows:
  fixes fld :: "'s \<Rightarrow> field" and J :: "'s \<Rightarrow> bool" and body :: "int \<Rightarrow> int \<Rightarrow> 's \<Rightarrow> 'x + 's"
  assumes run: "for_loop xread (xread + xsize)
                  (\<lambda>jx. for_loop yread (yread + ysize) (body jx)) s = Inr s'"
    and J0: "J s"
    and row: "\<And>jx jy t t'. J t \<Longrightarrow> body jx jy t = Inr t' \<Longrightarrow>
        J t' \<and> (\<forall>a b c. val (fld t') a b c =
           (if a = jx - xread + xdest \<and> b = jy - yread + ydest \<and> 0 \<le> c \<and> c < n
            then G jx jy c else val (fld t) a b c))"
  shows "J s' \<and> (\<forall>a b c. val (fld s') a b c =
           (if xdest \<le> a \<and> a < xdest + xsize \<and> ydest \<le> b \<and> b < ydest + ysize \<and> 0 \<le> c \<and> c < n
            then G (a - xdest + xread) (b - ydest + yread) c else val (fld s) a b c))"
proof -
  let ?I = "\<lambda>j t. J t \<and> (\<forall>a b c. val (fld t) a b c =
           (if xdest \<le> a \<and> a < xdest + (j - xread) \<and> ydest \<le> b \<and> b < ydest + ysize \<and> 0 \<le> c \<and> c < n
            then G (a - xdest + xread) (b - ydest + yread) c else val (fld s) a b c))"
  have "?I (max xread (xread + xsize)) s'"
  proof (rule for_loop_inv [OF run, where I = ?I])
    show "?I xread s" using J0 by auto
  next
    fix j t t'
    assume j: "xread \<le> j" "j < xread + xsize" and I: "?I j t"
      and b: "for_loop yread (yread + ysize) (body j) t = Inr t'"
    from I have Jt: "J t" by simp
    note r = grid_row_loop [of yread ysize body j t t' J fld xread xdest ydest n G, OF b Jt row]
    show "?I (j + 1) t'"
    proof (intro conjI allI)
      show "J t'" using r by simp
    next
      fix a b c
      have e1: "val (fld t') a b c =
           (if a = j - xread + xdest \<and> ydest \<le> b \<and> b < ydest + ysize \<and> 0 \<le> c \<and> c < n
            then G j (b - ydest + yread) c else val (fld t) a b c)"
        using r [THEN conjunct2, rule_format, of a b c] .
      have e3: "val (fld t) a b c =
           (if xdest \<le> a \<and> a < xdest + (j - xread) \<and> ydest \<le> b \<and> b < ydest + ysize \<and> 0 \<le> c \<and> c < n
            then G (a - xdest + xread) (b - ydest + yread) c else val (fld s) a b c)"
        using I [THEN conjunct2, rule_format, of a b c] .
      have g: "a = j - xread + xdest \<Longrightarrow> G j (b - ydest + yread) c = G (a - xdest + xread) (b - ydest + yread) c"
        by simp
      show "val (fld t') a b c =
           (if xdest \<le> a \<and> a < xdest + (j + 1 - xread) \<and> ydest \<le> b \<and> b < ydest + ysize \<and> 0 \<le> c \<and> c < n
            then G (a - xdest + xread) (b - ydest + yread) c else val (fld s) a b c)"
        unfolding e1 e3 using j g by auto
    qed
  qed
  then show ?thesis by (simp add: max_def split: if_splits)
qed

lemma grid_rows_succeed:
  fixes J :: "'s \<Rightarrow> bool" and body :: "int \<Rightarrow> int \<Rightarrow> 's \<Rightarrow> 'x + 's"
  assumes J0: "J s"
    and row: "\<And>jx jy t. xread \<le> jx \<Longrightarrow> jx < xread + xsize \<Longrightarrow> yread \<le> jy
        \<Longrightarrow> jy < yread + ysize \<Longrightarrow> J t \<Longrightarrow> \<exists>t'. body jx jy t = Inr t' \<and> J t'"
  shows "\<exists>s'. for_loop xread (xread + xsize)
                  (\<lambda>jx. for_loop yread (yread + ysize) (body jx)) s = Inr s' \<and> J s'"
proof -
  have inner: "\<exists>t'. for_loop yread (yread + ysize) (body jx) t = Inr t' \<and> J t'"
    if jx: "xread \<le> jx" "jx < xread + xsize" and Jt: "J t" for jx t
    using for_loop_succeeds [of "\<lambda>j. J" yread t "yread + ysize" "body jx"] row [OF jx] Jt
    by blast
  show ?thesis
    using for_loop_succeeds [of "\<lambda>j. J" xread s "xread + xsize"
        "\<lambda>jx. for_loop yread (yread + ysize) (body jx)"] inner J0
    by blast
qed

lemma block_row_z: "block g (x0, y0, z0) [1, 1, n] = map (\<lambda>k. g x0 y0 (z0 + k)) [0..n - 1]"
  by simp

lemma block_row_z_length: "length (block g (x0, y0, z0) [1, 1, n]) = nat n"
  by simp

lemma block_row_z_nth:
  "0 \<le> c \<Longrightarrow> c < n \<Longrightarrow> block g (x0, y0, z0) [1, 1, n] ! nat c = g x0 y0 (z0 + c)"
  by simp

lemma write_row_z_val:
  assumes "write_row_z v x y vs = Inr v'" and "is3d v"
  shows "is3d v'" and "shape v' = shape v"
    and "val v' a b c = (if a = x \<and> b = y \<and> 0 \<le> c \<and> c < int (length vs) then vs ! nat c
                         else val v a b c)"
  using assms by (auto simp: write_row_z_def shape_def val_def split: if_splits)

lemma rows_readable_iff:
  "rows_readable f name xs nx ys ny n \<longleftrightarrow>
     (\<forall>jx jy. xs \<le> jx \<and> jx < xs + nx \<and> ys \<le> jy \<and> jy < ys + ny
        \<longrightarrow> readable f name (jx, jy, 0) [1, 1, n])"
  by (auto simp: rows_readable_def list_all_iff)

lemma real_row_val:
  assumes "real_row name n yread ydest xread xdest jx jy (f, v) = Inr (f', v')"
    and "reals f = reals f0 \<and> is3d v"
  shows "(reals f' = reals f0 \<and> is3d v') \<and>
         (\<forall>a b c. val v' a b c =
            (if a = jx - xread + xdest \<and> b = jy - yread + ydest \<and> 0 \<le> c \<and> c < n
             then reals f0 name jx jy c else val v a b c))"
proof -
  let ?f = "setGlobalOrigin jx jy 0 f"
  let ?vs = "block (reals f name) (jx, jy, 0) [1, 1, n]"
  from assms(1) have f': "f' = ?f" and w: "write_row_z v (jx - xread + xdest) (jy - yread + ydest) ?vs = Inr v'"
    by (auto simp: real_row_def Let_def read_real_def setGlobalOrigin_def
        split: if_splits option.splits sum.splits)
  note wv = write_row_z_val [OF w conjunct2 [OF assms(2)]]
  have "reals f' = reals f0" using f' assms(2) by (simp add: setGlobalOrigin_def)
  moreover have "val v' a b c =
            (if a = jx - xread + xdest \<and> b = jy - yread + ydest \<and> 0 \<le> c \<and> c < n
             then reals f0 name jx jy c else val v a b c)" for a b c
  proof (cases "0 \<le> c \<and> c < n")
    case True
    then have "?vs ! nat c = reals f name jx jy c"
      using block_row_z_nth [of c n "reals f name" jx jy 0] by simp
    with True show ?thesis
      unfolding wv(3) [of a b c] block_row_z_length using assms(2) by auto
  next
    case False
    then show ?thesis
      unfolding wv(3) [of a b c] block_row_z_length by auto
  qed
  ultimately show ?thesis using wv(1) by blast
qed

lemma readgrid_3dvar_real_val:
  assumes "readgrid_3dvar_real gf name yread ydest ysize xread xdest xsize var = Inr (True, gf', var')"
    and "is3d var"
  shows "val var' a b c =
           (if xdest \<le> a \<and> a < xdest + xsize \<and> ydest \<le> b \<and> b < ydest + ysize
               \<and> 0 \<le> c \<and> c < getSize (the_file gf) name ! 2
            then reals (the_file gf) name (a - xdest + xread) (b - ydest + yread) c
            else val var a b c)"
proof -
  let ?n = "getSize (the_file gf) name ! 2"
  from assms(1) obtain f where
    run: "for_loop xread (xread + xsize)
            (\<lambda>jx. for_loop yread (yread + ysize) (real_row name ?n yread ydest xread xdest jx))
            (the_file gf, var) = Inr (f, var')"
    by (auto simp: readgrid_3dvar_real_def Let_def split: if_splits sum.splits stop.splits prod.splits)
  let ?J = "\<lambda>s. reals (fst s) = reals (the_file gf) \<and> is3d (snd s)"
  have row: "?J t' \<and> (\<forall>a b c. val (snd t') a b c =
           (if a = jx - xread + xdest \<and> b = jy - yread + ydest \<and> 0 \<le> c \<and> c < ?n
            then reals (the_file gf) name jx jy c else val (snd t) a b c))"
    if "?J t" "real_row name ?n yread ydest xread xdest jx jy t = Inr t'" for jx jy t t'
    using real_row_val [of name ?n yread ydest xread xdest jx jy "fst t" "snd t" "fst t'" "snd t'" "the_file gf"] that
    by simp
  have J0: "?J (the_file gf, var)" using assms(2) by simp
  from grid_rows [of xread xsize yread ysize "real_row name ?n yread ydest xread xdest"
      "(the_file gf, var)" "(f, var')" ?J snd xdest ydest ?n "\<lambda>jx jy c. reals (the_file gf) name jx jy c",
      OF run J0 row]
  show ?thesis by simp
qed

lemma real_row_succeeds:
  assumes J: "shape v = shape var \<and> readable f = readable f0"
    and v3: "is3d var"
    and box: "window_in_field var xdest xsize ydest ysize n"
    and rd: "rows_readable f0 name xread xsize yread ysize n"
    and r: "xread \<le> jx" "jx < xread + xsize" "yread \<le> jy" "jy < yread + ysize"
  shows "\<exists>t'. real_row name n yread ydest xread xdest jx jy (f, v) = Inr t'
           \<and> (shape (snd t') = shape var \<and> readable (fst t') = readable f0)"
proof -
  from J have s: "is3d v = is3d var" "fnx v = fnx var" "fny v = fny var" "fnz v = fnz var"
    by (simp_all add: shape_def)
  have ib: "in_box v (jx - xread + xdest) (jy - yread + ydest) 0"
    using box r s by (auto simp: in_box_def window_in_field_def)
  have rdb: "readable f name (jx, jy, 0) [1, 1, n]"
    using rd r J by (simp add: rows_readable_iff)
  have ln: "int (nat n) \<le> fnz v"
    using box s by (auto simp: window_in_field_def)
  show ?thesis
    using ib rdb ln s
    by (simp add: real_row_def Let_def read_real_def setGlobalOrigin_def write_row_z_def
        shape_def J)
qed

lemma readgrid_3dvar_real_succeeds:
  assumes v3: "is3d var"
    and nn: "0 \<le> yread" "0 \<le> ysize" "0 \<le> xread" "0 \<le> xsize"
    and dims: "length (getSize (the_file gf) name) = 3"
    and box: "window_in_field var xdest xsize ydest ysize (getSize (the_file gf) name ! 2)"
    and rd: "rows_readable (the_file gf) name xread xsize yread ysize (getSize (the_file gf) name ! 2)"
  shows "\<exists>gf' var'. readgrid_3dvar_real gf name yread ydest ysize xread xdest xsize var
           = Inr (True, gf', var')"
proof -
  let ?n = "getSize (the_file gf) name ! 2"
  let ?J = "\<lambda>t :: datafile \<times> field. shape (snd t) = shape var \<and> readable (fst t) = readable (the_file gf)"
  have "\<exists>s'. for_loop xread (xread + xsize)
          (\<lambda>jx. for_loop yread (yread + ysize) (real_row name ?n yread ydest xread xdest jx))
          (the_file gf, var) = Inr s' \<and> ?J s'"
  proof (rule grid_rows_succeed [where J = ?J])
    show "?J (the_file gf, var)" by simp
  next
    fix jx jy t
    assume r: "xread \<le> jx" "jx < xread + xsize" "yread \<le> jy" "jy < yread + ysize" and Jt: "?J t"
    from real_row_succeeds [of "snd t" var "fst t" "the_file gf", OF Jt v3 box rd r]
    show "\<exists>t'. real_row name ?n yread ydest xread xdest jx jy t = Inr t' \<and> ?J t'"
      by simp
  qed
  then obtain f v where "for_loop xread (xread + xsize)
          (\<lambda>jx. for_loop yread (yread + ysize) (real_row name ?n yread ydest xread xdest jx))
          (the_file gf, var) = Inr (f, v)"
    by auto
  moreover have "0 \<le> ydest" "0 \<le> xdest"
    using box by (simp_all add: window_in_field_def)
  ultimately show ?thesis
    using nn dims by (simp add: readgrid_3dvar_real_def Let_def)
qed

lemma read_window_exception:
  assumes "read_window chk m gf fd = Inl e" and "2 \<le> length fd"
  shows "is_exception e"
proof -
  have a: "ASSERT1 chk c = Inl e \<Longrightarrow> is_exception e" for c
    by (auto simp: ASSERT1_def split: if_splits)
  have y: "y_start chk m gf = Inl e \<Longrightarrow> is_exception e"
    by (auto simp: y_start_def then_do_def dest: a split: if_splits sum.splits)
  have x: "x_window chk m fd = Inl e \<Longrightarrow> is_exception e"
    by (auto simp: x_window_def Let_def then_do_def dest: a
        split: if_splits sum.splits guard_case.splits)
  have w: "y_window chk m gf fd = Inl e \<Longrightarrow> is_exception e"
    by (auto simp: y_window_def then_do_def dest: a
        split: if_splits sum.splits guard_case.splits)
  from assms show ?thesis
    by (auto simp: read_window_def then_do_def dest: a x y w split: sum.splits if_splits prod.splits)
qed

lemma readField3D_size_mismatch:
  assumes nz: "hasVar gf ''nz''"
    and sz: "sz = getSize (the_file gf) name" "length sz = 3"
    and f3: "is3d var"
    and ne: "sz ! 2 \<noteq> LocalNz m"
  shows "readField3D m gf name ys yd ny_to_read xs xd nx_to_read sz var = Inl IncorrectSize"
    and "\<exists>e. getField chk m gf var name def = Inl e \<and> is_exception e"
proof -
  show r: "readField3D m gf name ys yd ny_to_read xs xd nx_to_read sz var = Inl IncorrectSize"
    for ys yd ny_to_read xs xd nx_to_read
    using nz sz ne by (simp add: readField3D_def)
  from nz have v: "is_valid (the_file gf)"
    by (simp add: hasVar_def split: if_splits)
  have g: "getField chk m gf var name def = load_field chk m gf var name sz"
    using v sz f3 by (auto simp: getField_def Let_def)
  show "\<exists>e. getField chk m gf var name def = Inl e \<and> is_exception e"
  proof (cases "read_window chk m gf sz")
    case (Inl e)
    with read_window_exception [OF Inl] sz show ?thesis
      by (simp add: g load_field_def then_do_def Let_def)
  next
    case (Inr w)
    with sz f3 show ?thesis
      by (simp add: g load_field_def then_do_def readField_def r [unfolded sz(1)] Let_def)
  qed
qed

lemma readField3D_real_space:
  assumes nz: "hasVar gf ''nz''"
    and sz: "sz = getSize (the_file gf) name" "length sz = 3"
    and f3: "is3d var"
    and eq: "sz ! 2 = LocalNz m"
    and ok: "readField3D m gf name ys yd ny_to_read xs xd nx_to_read sz var = Inr (gf', var')"
    and r: "xs \<le> jx \<and> jx < xs + nx_to_read \<and> ys \<le> jy \<and> jy < ys + ny_to_read \<and> 0 \<le> k \<and> k < LocalNz m"
  shows "val var' (jx - xs + xd) (jy - ys + yd) k = reals (the_file gf) name jx jy k"
proof -
  from ok nz sz eq have "readgrid_3dvar_real gf name ys yd ny_to_read xs xd nx_to_read var = Inr (True, gf', var')"
    by (auto simp: readField3D_def split: if_splits sum.splits prod.splits)
  from readgrid_3dvar_real_val [OF this f3, of "jx - xs + xd" "jy - ys + yd" k] r sz eq
  show ?thesis
    by simp
qed

text \<open>
  C7. Let the file have the marker \<open>nz\<close>, and let a \<open>Field3D\<close> be read from a variable of
  three stored dimensions. If the stored extent in \<open>z\<close> differs from LocalNz, the read
  raises "incorrect size", and getField as a whole ends in an exception: it does not
  return. If they are equal, then whenever the read returns, every row \<open>(x, y)\<close> of the
  window holds, over its LocalNz cells, the values stored for that row; and the read
  returns whenever the window starts at indices that are not negative, lies inside the
  field with room for LocalNz values in \<open>z\<close>, and every row of it can be read from the
  backend.
\<close>

theorem real_space_read_of_3d_variable:
  assumes nz: "hasVar gf ''nz''"
    and sz: "sz = getSize (the_file gf) name" "length sz = 3"
    and f3: "is3d var"
  shows "(sz ! 2 \<noteq> LocalNz m \<longrightarrow>
            readField3D m gf name ys yd ny_to_read xs xd nx_to_read sz var = Inl IncorrectSize
          \<and> (\<exists>e. getField chk m gf var name def = Inl e \<and> is_exception e))
       \<and> (sz ! 2 = LocalNz m \<longrightarrow>
            (\<forall>gf' var'. readField3D m gf name ys yd ny_to_read xs xd nx_to_read sz var = Inr (gf', var')
               \<longrightarrow> (\<forall>jx jy k. xs \<le> jx \<and> jx < xs + nx_to_read \<and> ys \<le> jy \<and> jy < ys + ny_to_read
                                 \<and> 0 \<le> k \<and> k < LocalNz m
                      \<longrightarrow> val var' (jx - xs + xd) (jy - ys + yd) k = reals (the_file gf) name jx jy k))
          \<and> (0 \<le> ys \<and> 0 \<le> ny_to_read \<and> 0 \<le> xs \<and> 0 \<le> nx_to_read
              \<and> window_in_field var xd nx_to_read yd ny_to_read (LocalNz m)
              \<and> rows_readable (the_file gf) name xs nx_to_read ys ny_to_read (LocalNz m)
              \<longrightarrow> (\<exists>gf' var'. readField3D m gf name ys yd ny_to_read xs xd nx_to_read sz var
                                = Inr (gf', var'))))"
proof (intro conjI impI allI)
  assume ne: "sz ! 2 \<noteq> LocalNz m"
  show "readField3D m gf name ys yd ny_to_read xs xd nx_to_read sz var = Inl IncorrectSize"
    using nz sz f3 ne by (rule readField3D_size_mismatch(1))
  show "\<exists>e. getField chk m gf var name def = Inl e \<and> is_exception e"
    using nz sz f3 ne by (rule readField3D_size_mismatch(2))
next
  fix gf' var' jx jy k
  assume "sz ! 2 = LocalNz m"
    and "readField3D m gf name ys yd ny_to_read xs xd nx_to_read sz var = Inr (gf', var')"
    and "xs \<le> jx \<and> jx < xs + nx_to_read \<and> ys \<le> jy \<and> jy < ys + ny_to_read \<and> 0 \<le> k \<and> k < LocalNz m"
  with nz sz f3 show "val var' (jx - xs + xd) (jy - ys + yd) k = reals (the_file gf) name jx jy k"
    by (rule readField3D_real_space)
next
  assume eq: "sz ! 2 = LocalNz m"
    and c: "0 \<le> ys \<and> 0 \<le> ny_to_read \<and> 0 \<le> xs \<and> 0 \<le> nx_to_read
              \<and> window_in_field var xd nx_to_read yd ny_to_read (LocalNz m)
              \<and> rows_readable (the_file gf) name xs nx_to_read ys ny_to_read (LocalNz m)"
  from c eq sz have
    "\<exists>gf' var'. readgrid_3dvar_real gf name ys yd ny_to_read xs xd nx_to_read var = Inr (True, gf', var')"
    by (intro readgrid_3dvar_real_succeeds [OF f3]) simp_all
  then obtain gf' var' where
    "readgrid_3dvar_real gf name ys yd ny_to_read xs xd nx_to_read var = Inr (True, gf', var')"
    by blast
  with nz sz eq have "readField3D m gf name ys yd ny_to_read xs xd nx_to_read sz var = Inr (gf', var')"
    by (simp add: readField3D_def)
  then show "\<exists>gf' var'. readField3D m gf name ys yd ny_to_read xs xd nx_to_read sz var = Inr (gf', var')"
    by blast
qed

theorem real_space_read_of_3d_variable_witness:
  "hasVar gf2 ''nz'' \<and> getSize (the_file gf2) ''g'' = [2, 1, 2] \<and> LocalNz mesh2 = 2
   \<and> window_in_field var2 0 2 0 1 2 \<and> rows_readable (the_file gf2) ''g'' 0 2 0 1 2
   \<and> (\<exists>g v. readField3D mesh2 gf2 ''g'' 0 0 1 0 0 2 [2, 1, 2] var2 = Inr (g, v)
          \<and> val v 1 0 1 = reals (the_file gf2) ''g'' 1 0 1 \<and> val v 1 0 1 = 101)
   \<and> readField3D (mesh2\<lparr>LocalNz := 4\<rparr>) gf2 ''g'' 0 0 1 0 0 2 [2, 1, 2] var2 = Inl IncorrectSize"
proof -
  have h: "hasVar gf2 ''nz''" "[2, 1, 2] = getSize (the_file gf2) ''g''" "length [2, 1, 2 :: int] = 3"
    "is3d var2"
    by (simp_all add: hasVar_def gf2_def file2_def var2_def)
  have eq: "[2, 1, 2] ! 2 = LocalNz mesh2" and ne: "[2, 1, 2] ! 2 \<noteq> LocalNz (mesh2\<lparr>LocalNz := 4\<rparr>)"
    and l: "LocalNz mesh2 = 2"
    by (simp_all add: mesh2_def)
  have d: "reals (the_file gf2) ''g'' 1 0 1 = 101"
    by (simp add: gf2_def file2_def)
  have w: "window_in_field var2 0 2 0 1 2"
    by (simp add: window_in_field_def var2_def)
  have r: "rows_readable (the_file gf2) ''g'' 0 2 0 1 2"
    by (simp add: rows_readable_iff gf2_def file2_def)
  have c: "(0 :: int) \<le> 0 \<and> (0 :: int) \<le> 1 \<and> (0 :: int) \<le> 0 \<and> (0 :: int) \<le> 2
      \<and> window_in_field var2 0 2 0 1 (LocalNz mesh2)
      \<and> rows_readable (the_file gf2) ''g'' 0 2 0 1 (LocalNz mesh2)"
    using w r l by simp
  note t = real_space_read_of_3d_variable [OF h, of mesh2 0 0 1 0 0 2 True 0,
      THEN conjunct2, THEN mp, OF eq]
  from t [THEN conjunct2, THEN mp, OF c] obtain g v where
    ok: "readField3D mesh2 gf2 ''g'' 0 0 1 0 0 2 [2, 1, 2] var2 = Inr (g, v)"
    by blast
  have k: "(0 :: int) \<le> 1 \<and> (1 :: int) < 0 + 2 \<and> (0 :: int) \<le> 0 \<and> (0 :: int) < 0 + 1
             \<and> (0 :: int) \<le> 1 \<and> 1 < LocalNz mesh2"
    using l by simp
  from t [THEN conjunct1, rule_format, OF ok k]
  have v: "val v 1 0 1 = reals (the_file gf2) ''g'' 1 0 1"
    by simp
  note u = real_space_read_of_3d_variable [OF h, of "mesh2\<lparr>LocalNz := 4\<rparr>" 0 0 1 0 0 2 True 0,
      THEN conjunct1, THEN mp, OF ne, THEN conjunct1]
  from ok v d have "\<exists>g v. readField3D mesh2 gf2 ''g'' 0 0 1 0 0 2 [2, 1, 2] var2 = Inr (g, v)
          \<and> val v 1 0 1 = reals (the_file gf2) ''g'' 1 0 1 \<and> val v 1 0 1 = 101"
    by auto
  with h(1) h(2) [symmetric] l w r u show ?thesis
    by simp
qed

subsection \<open>The spectral reader\<close>

lemma arr_get_Inr: "arr_get xs i = Inr a \<Longrightarrow> 0 \<le> i \<and> i < int (length xs) \<and> a = xs ! nat i"
  by (auto simp: arr_get_def split: if_splits)

lemma arr_set_Inr:
  "arr_set xs i a = Inr ys \<Longrightarrow> 0 \<le> i \<and> i < int (length xs) \<and> ys = xs[nat i := a]"
  by (auto simp: arr_set_def split: if_splits)

lemma load_mode_Inr:
  assumes "load_mode zdata zperiod maxmode i fdata = Inr fdata'" and "1 \<le> i"
  shows "fdata' = fdata[nat i := spectrum_entry zdata zperiod maxmode i] \<and> i < int (length fdata)"
proof (cases "i * zperiod \<le> maxmode")
  case True
  with assms(1) obtain re im where
    re: "arr_get zdata (i * zperiod * 2 - 1) = Inr re"
    and im: "arr_get zdata (i * zperiod * 2) = Inr im"
    and st: "arr_set fdata i (Complex re im) = Inr fdata'"
    by (auto simp: load_mode_def Let_def then_do_def split: sum.splits)
  have "i * zperiod * 2 = 2 * i * zperiod" by simp
  with arr_get_Inr [OF re] arr_get_Inr [OF im] arr_set_Inr [OF st] True assms(2)
  show ?thesis by (simp add: spectrum_entry_def)
next
  case False
  with assms(1) have "arr_set fdata i 0 = Inr fdata'"
    by (simp add: load_mode_def Let_def)
  from arr_set_Inr [OF this] False assms(2) show ?thesis
    by (simp add: spectrum_entry_def)
qed

lemma load_fdata_nth:
  assumes "load_fdata zdata ncz zperiod maxmode fdata = Inr fdata'"
    and "0 \<le> ncz" and "length fdata = nat (c_div ncz 2 + 1)"
  shows "length fdata' = nat (ncz div 2 + 1)"
    and "0 \<le> i \<Longrightarrow> i \<le> ncz div 2 \<Longrightarrow> fdata' ! nat i = spectrum_entry zdata zperiod maxmode i"
proof -
  have h: "c_div ncz 2 = ncz div 2"
    using assms(2) by (rule c_div_nonneg)
  from assms(1) obtain dc fd0 where
    dc: "arr_get zdata 0 = Inr dc" and s0: "arr_set fdata 0 (Complex dc 0) = Inr fd0"
    and run: "for_loop 1 (ncz div 2 + 1) (load_mode zdata zperiod maxmode) fd0 = Inr fdata'"
    by (auto simp: load_fdata_def then_do_def h split: sum.splits)
  let ?I = "\<lambda>j fd. length fd = nat (ncz div 2 + 1) \<and>
              (\<forall>i. 0 \<le> i \<and> i < j \<longrightarrow> fd ! nat i = spectrum_entry zdata zperiod maxmode i)"
  have "?I (max 1 (ncz div 2 + 1)) fdata'"
  proof (rule for_loop_inv [OF run, where I = ?I])
    have "fd0 ! nat i = spectrum_entry zdata zperiod maxmode i" if "0 \<le> i" "i < 1" for i
    proof -
      from that have "i = 0" by simp
      with arr_get_Inr [OF dc] arr_set_Inr [OF s0] show ?thesis
        by (simp add: spectrum_entry_def)
    qed
    moreover have "length fd0 = nat (ncz div 2 + 1)"
      using arr_set_Inr [OF s0] assms(3) h by simp
    ultimately show "?I 1 fd0" by blast
  next
    fix j t t'
    assume j: "1 \<le> j" "j < ncz div 2 + 1" and I: "?I j t"
      and b: "load_mode zdata zperiod maxmode j t = Inr t'"
    note m = load_mode_Inr [OF b j(1)]
    show "?I (j + 1) t'"
    proof (intro conjI allI impI)
      show "length t' = nat (ncz div 2 + 1)" using m I by simp
    next
      fix i assume i: "0 \<le> i \<and> i < j + 1"
      show "t' ! nat i = spectrum_entry zdata zperiod maxmode i"
      proof (cases "i = j")
        case True
        moreover from m j have "nat j < length t" by linarith
        ultimately show ?thesis using m by simp
      next
        case False
        with i have "i < j" by simp
        moreover from this i j have "nat i \<noteq> nat j" by simp
        ultimately show ?thesis using m I i by simp
      qed
    qed
  qed
  moreover have "max 1 (ncz div 2 + 1) = ncz div 2 + 1"
    using assms(2) by simp
  ultimately have I: "?I (ncz div 2 + 1) fdata'" by simp
  then show "length fdata' = nat (ncz div 2 + 1)" by simp
  from I show "fdata' ! nat i = spectrum_entry zdata zperiod maxmode i" if "0 \<le> i" "i \<le> ncz div 2"
    using that by simp
qed

lemma load_fdata_spectrum:
  assumes "load_fdata zdata ncz zperiod maxmode fdata = Inr fdata'"
    and "0 \<le> ncz" and "length fdata = nat (c_div ncz 2 + 1)"
  shows "fdata' = spectrum_spec zdata ncz zperiod maxmode"
proof (rule nth_equalityI)
  note l = load_fdata_nth [OF assms]
  show "length fdata' = length (spectrum_spec zdata ncz zperiod maxmode)"
    using l(1) by (simp add: spectrum_spec_def)
  fix k assume k: "k < length fdata'"
  with l(1) assms(2) have r: "0 \<le> int k" "int k \<le> ncz div 2" by simp_all
  from l(2) [OF r] have "fdata' ! k = spectrum_entry zdata zperiod maxmode (int k)" by simp
  moreover have "spectrum_spec zdata ncz zperiod maxmode ! k = spectrum_entry zdata zperiod maxmode (int k)"
    using r k l(1) by (simp add: spectrum_spec_def)
  ultimately show "fdata' ! k = spectrum_spec zdata ncz zperiod maxmode ! k" by simp
qed

lemma load_fdata_in_range:
  assumes "load_fdata zdata ncz zperiod maxmode fdata = Inr fdata'" and "0 \<le> ncz"
  shows "0 < length zdata"
    and "1 \<le> i \<Longrightarrow> i \<le> ncz div 2 \<Longrightarrow> i * zperiod \<le> maxmode
           \<Longrightarrow> 0 \<le> 2 * i * zperiod - 1 \<and> 2 * i * zperiod < int (length zdata)"
proof -
  have h: "c_div ncz 2 = ncz div 2"
    using assms(2) by (rule c_div_nonneg)
  from assms(1) obtain dc fd0 where
    dc: "arr_get zdata 0 = Inr dc"
    and run: "for_loop 1 (ncz div 2 + 1) (load_mode zdata zperiod maxmode) fd0 = Inr fdata'"
    by (auto simp: load_fdata_def then_do_def h split: sum.splits)
  from arr_get_Inr [OF dc] show "0 < length zdata" by simp
  let ?I = "\<lambda>j (fd :: complex list). \<forall>i. 1 \<le> i \<and> i < j \<and> i * zperiod \<le> maxmode
              \<longrightarrow> 0 \<le> 2 * i * zperiod - 1 \<and> 2 * i * zperiod < int (length zdata)"
  have "?I (max 1 (ncz div 2 + 1)) fdata'"
  proof (rule for_loop_inv [OF run, where I = ?I])
    show "?I 1 fd0" by simp
  next
    fix j t t'
    assume j: "1 \<le> j" "j < ncz div 2 + 1" and I: "?I j t"
      and b: "load_mode zdata zperiod maxmode j t = Inr t'"
    have r: "0 \<le> 2 * j * zperiod - 1 \<and> 2 * j * zperiod < int (length zdata)"
      if le: "j * zperiod \<le> maxmode"
    proof -
      from b le obtain re im where
        re: "arr_get zdata (j * zperiod * 2 - 1) = Inr re"
        and im: "arr_get zdata (j * zperiod * 2) = Inr im"
        by (auto simp: load_mode_def Let_def then_do_def split: sum.splits)
      have "j * zperiod * 2 = 2 * j * zperiod" by simp
      with arr_get_Inr [OF re] arr_get_Inr [OF im] show ?thesis by simp
    qed
    show "?I (j + 1) t'"
    proof (intro allI impI)
      fix i assume i: "1 \<le> i \<and> i < j + 1 \<and> i * zperiod \<le> maxmode"
      show "0 \<le> 2 * i * zperiod - 1 \<and> 2 * i * zperiod < int (length zdata)"
      proof (cases "i = j")
        case True
        with r i show ?thesis by simp
      next
        case False
        with i have "i < j" by simp
        with I i show ?thesis by blast
      qed
    qed
  qed
  moreover have "max 1 (ncz div 2 + 1) = ncz div 2 + 1"
    using assms(2) by simp
  ultimately have I: "?I (ncz div 2 + 1) fdata'" by simp
  then show "0 \<le> 2 * i * zperiod - 1 \<and> 2 * i * zperiod < int (length zdata)"
    if "1 \<le> i" "i \<le> ncz div 2" "i * zperiod \<le> maxmode"
    using that by simp
qed

lemma fft_row_Inr:
  assumes "fft_row name size2 ncz zperiod maxmode yread ydest xread xdest jx jy (f, v, fdata)
             = Inr (f', v', fdata')"
  shows "f' = setGlobalOrigin jx jy 0 f"
    and "load_fdata (block (reals f name) (jx, jy, 0) [1, 1, size2]) ncz zperiod maxmode fdata
           = Inr fdata'"
    and "write_row_z v (jx - xread + xdest) (jy - yread + ydest) (irfft fdata' ncz) = Inr v'"
  using assms
  by (auto simp: fft_row_def Let_def read_real_def setGlobalOrigin_def
      split: option.splits sum.splits if_splits)

lemma fft_row_spectrum:
  assumes row: "fft_row name size2 (LocalNz m) zperiod (maxmode_of size2) yread ydest xread xdest
                  jx jy (f, v, fdata) = Inr (f', v', fdata')"
    and nz: "0 \<le> LocalNz m"
    and len: "length fdata = nat (c_div (LocalNz m) 2 + 1)"
  shows "fdata' = spectrum_spec (map (\<lambda>k. reals f name jx jy k) [0..size2 - 1])
                    (LocalNz m) zperiod (maxmode_of size2)"
    and "int (length fdata') = LocalNz m div 2 + 1"
    and "fdata' ! 0 = Complex (reals f name jx jy 0) 0"
    and "1 \<le> i \<and> i \<le> LocalNz m div 2 \<Longrightarrow>
           fdata' ! nat i =
               (if i * zperiod \<le> maxmode_of size2
                then Complex (reals f name jx jy (2 * i * zperiod - 1))
                             (reals f name jx jy (2 * i * zperiod))
                else 0)"
    and "1 \<le> i \<and> i \<le> LocalNz m div 2 \<Longrightarrow> i * zperiod \<le> maxmode_of size2
           \<Longrightarrow> 0 \<le> 2 * i * zperiod - 1 \<and> 2 * i * zperiod < size2"
    and "length fdata' = length fdata"
proof -
  let ?zdata = "block (reals f name) (jx, jy, 0) [1, 1, size2]"
  note ld = fft_row_Inr(2) [OF row]
  have zd: "?zdata = map (\<lambda>k. reals f name jx jy k) [0..size2 - 1]"
    by simp
  note nth = load_fdata_nth [OF ld nz len]
  note rng = load_fdata_in_range [OF ld nz]
  have pos: "0 < size2" using rng(1) by simp
  have st: "?zdata ! nat k = reals f name jx jy k" if "0 \<le> k" "k < size2" for k
    using block_row_z_nth [OF that, of "reals f name" jx jy 0] by simp
  show "fdata' = spectrum_spec (map (\<lambda>k. reals f name jx jy k) [0..size2 - 1])
                    (LocalNz m) zperiod (maxmode_of size2)"
    using load_fdata_spectrum [OF ld nz len] zd by simp
  show "int (length fdata') = LocalNz m div 2 + 1"
    using nth(1) nz by simp
  show "fdata' ! 0 = Complex (reals f name jx jy 0) 0"
    using nth(2) [of 0] nz st [of 0] pos by (simp add: spectrum_entry_def)
  show "length fdata' = length fdata"
    using nth(1) len c_div_nonneg [OF nz] by simp
  show r: "0 \<le> 2 * i * zperiod - 1 \<and> 2 * i * zperiod < size2"
    if i: "1 \<le> i \<and> i \<le> LocalNz m div 2" and le: "i * zperiod \<le> maxmode_of size2" for i
  proof -
    from i have "1 \<le> i" "i \<le> LocalNz m div 2" by simp_all
    from rng(2) [OF this le] pos show ?thesis
      by (simp split: if_splits)
  qed
  show "fdata' ! nat i =
               (if i * zperiod \<le> maxmode_of size2
                then Complex (reals f name jx jy (2 * i * zperiod - 1))
                             (reals f name jx jy (2 * i * zperiod))
                else 0)"
    if i: "1 \<le> i \<and> i \<le> LocalNz m div 2"
  proof (cases "i * zperiod \<le> maxmode_of size2")
    case True
    from r [OF i True] have "0 \<le> 2 * i * zperiod - 1" "2 * i * zperiod < size2"
      "2 * i * zperiod - 1 < size2" "0 \<le> 2 * i * zperiod"
      by simp_all
    with st [of "2 * i * zperiod - 1"] st [of "2 * i * zperiod"] nth(2) [of i] i True
    show ?thesis by (simp add: spectrum_entry_def)
  next
    case False
    with nth(2) [of i] i show ?thesis by (simp add: spectrum_entry_def)
  qed
qed

lemma irfft_length [simp]: "length (irfft fd n) = nat n"
  by (simp add: irfft_def)

lemma stored_row_block: "block (reals f name) (jx, jy, 0) [1, 1, n] = stored_row f name jx jy n"
  by (simp add: stored_row_def)

lemma stored_row_length [simp]: "length (stored_row f name jx jy n) = nat n"
  by (simp add: stored_row_def)

lemma stored_row_nth:
  "0 \<le> k \<Longrightarrow> k < n \<Longrightarrow> stored_row f name jx jy n ! nat k = reals f name jx jy k"
  by (simp add: stored_row_def)

lemma load_mode_length:
  "load_mode zdata zperiod maxmode i fdata = Inr fdata' \<Longrightarrow> length fdata' = length fdata"
  by (auto simp: load_mode_def Let_def then_do_def arr_set_def split: if_splits sum.splits)

lemma load_fdata_length:
  assumes "load_fdata zdata ncz zperiod maxmode fdata = Inr fdata'"
  shows "length fdata' = length fdata"
proof -
  from assms obtain dc fd0 where
    s0: "arr_set fdata 0 (Complex dc 0) = Inr fd0"
    and run: "for_loop 1 (c_div ncz 2 + 1) (load_mode zdata zperiod maxmode) fd0 = Inr fdata'"
    by (auto simp: load_fdata_def then_do_def split: sum.splits)
  let ?I = "\<lambda>(j :: int) fd :: complex list. length fd = length fdata"
  have "?I (max 1 (c_div ncz 2 + 1)) fdata'"
  proof (rule for_loop_inv [OF run, where I = ?I])
    show "?I 1 fd0" using arr_set_Inr [OF s0] by simp
  next
    fix j t t'
    assume "?I j t" and "load_mode zdata zperiod maxmode j t = Inr t'"
    then show "?I (j + 1) t'" using load_mode_length by metis
  qed
  then show ?thesis .
qed

lemma fft_row_val:
  assumes row: "fft_row name size2 ncz zperiod maxmode yread ydest xread xdest jx jy (f, v, fd)
                  = Inr (f', v', fd')"
    and J: "reals f = reals f0 \<and> is3d v \<and> length fd = nat (c_div ncz 2 + 1)"
  shows "(reals f' = reals f0 \<and> is3d v' \<and> length fd' = nat (c_div ncz 2 + 1)) \<and>
         (\<forall>a b c. val v' a b c =
            (if a = jx - xread + xdest \<and> b = jy - yread + ydest \<and> 0 \<le> c \<and> c < ncz
             then irfft (spectrum_spec (stored_row f0 name jx jy size2) ncz zperiod maxmode) ncz
                    ! nat c
             else val v a b c))"
proof -
  note r = fft_row_Inr [OF row]
  from J have len: "length fd = nat (c_div ncz 2 + 1)" and v3: "is3d v" and rf: "reals f = reals f0"
    by simp_all
  note ld = r(2) [unfolded stored_row_block]
  note wv = write_row_z_val [OF r(3) v3]
  have "val v' a b c =
            (if a = jx - xread + xdest \<and> b = jy - yread + ydest \<and> 0 \<le> c \<and> c < ncz
             then irfft (spectrum_spec (stored_row f0 name jx jy size2) ncz zperiod maxmode) ncz
                    ! nat c
             else val v a b c)" for a b c
  proof (cases "0 \<le> c \<and> c < ncz")
    case True
    then have "0 \<le> ncz" by simp
    from load_fdata_spectrum [OF ld this len]
    have "fd' = spectrum_spec (stored_row f0 name jx jy size2) ncz zperiod maxmode"
      by (simp add: stored_row_def rf)
    with True show ?thesis
      unfolding wv(3) [of a b c] by simp
  next
    case False
    then show ?thesis
      unfolding wv(3) [of a b c] by auto
  qed
  moreover have "reals f' = reals f0" using r(1) rf by (simp add: setGlobalOrigin_def)
  moreover have "length fd' = nat (c_div ncz 2 + 1)"
    using load_fdata_length [OF ld] len by simp
  ultimately show ?thesis using wv(1) by blast
qed

lemma readgrid_3dvar_fft_Inr:
  assumes "readgrid_3dvar_fft m gf name yread ydest ysize xread xdest xsize var
             = Inr (True, gf', var')"
  shows "\<exists>zperiod f fd. zperiod_of m = Inr zperiod
           \<and> length (getSize (the_file gf) name) = 3 \<and> 0 \<le> getSize (the_file gf) name ! 2
           \<and> for_loop xread (xread + xsize)
               (\<lambda>jx. for_loop yread (yread + ysize)
                        (fft_row name (getSize (the_file gf) name ! 2) (LocalNz m) zperiod
                           (maxmode_of (getSize (the_file gf) name ! 2)) yread ydest xread xdest jx))
               (the_file gf, var, replicate (nat (c_div (LocalNz m) 2 + 1)) 0) = Inr (f, var', fd)"
  using assms
  by (auto simp: readgrid_3dvar_fft_def Let_def then_do_def alloc_def
      split: if_splits sum.splits stop.splits prod.splits)

lemma readgrid_3dvar_fft_val:
  assumes ok: "readgrid_3dvar_fft m gf name yread ydest ysize xread xdest xsize var
                 = Inr (True, gf', var')"
    and v3: "is3d var"
  shows "\<exists>zperiod. zperiod_of m = Inr zperiod \<and>
           (\<forall>a b c. val var' a b c =
              (if xdest \<le> a \<and> a < xdest + xsize \<and> ydest \<le> b \<and> b < ydest + ysize
                  \<and> 0 \<le> c \<and> c < LocalNz m
               then irfft (spectrum_spec
                             (stored_row (the_file gf) name (a - xdest + xread) (b - ydest + yread)
                                (getSize (the_file gf) name ! 2))
                             (LocalNz m) zperiod (maxmode_of (getSize (the_file gf) name ! 2)))
                      (LocalNz m) ! nat c
               else val var a b c))"
proof -
  let ?ncz = "LocalNz m"
  let ?n = "getSize (the_file gf) name ! 2"
  from readgrid_3dvar_fft_Inr [OF ok] obtain zperiod f fd where
    zp: "zperiod_of m = Inr zperiod"
    and run: "for_loop xread (xread + xsize)
            (\<lambda>jx. for_loop yread (yread + ysize)
                     (fft_row name ?n ?ncz zperiod (maxmode_of ?n) yread ydest xread xdest jx))
            (the_file gf, var, replicate (nat (c_div ?ncz 2 + 1)) 0) = Inr (f, var', fd)"
    by blast
  let ?J = "\<lambda>s. reals (fst s) = reals (the_file gf) \<and> is3d (fst (snd s))
                \<and> length (snd (snd s)) = nat (c_div ?ncz 2 + 1)"
  let ?fld = "\<lambda>s :: datafile \<times> field \<times> complex list. fst (snd s)"
  let ?G = "\<lambda>jx jy c. irfft (spectrum_spec (stored_row (the_file gf) name jx jy ?n)
                                 ?ncz zperiod (maxmode_of ?n)) ?ncz ! nat c"
  have row: "?J t' \<and> (\<forall>a b c. val (?fld t') a b c =
           (if a = jx - xread + xdest \<and> b = jy - yread + ydest \<and> 0 \<le> c \<and> c < ?ncz
            then ?G jx jy c else val (?fld t) a b c))"
    if "?J t" "fft_row name ?n ?ncz zperiod (maxmode_of ?n) yread ydest xread xdest jx jy t = Inr t'"
    for jx jy t t'
    using fft_row_val [of name ?n ?ncz zperiod "maxmode_of ?n" yread ydest xread xdest jx jy
        "fst t" "fst (snd t)" "snd (snd t)" "fst t'" "fst (snd t')" "snd (snd t')" "the_file gf"] that
    by simp
  have J0: "?J (the_file gf, var, replicate (nat (c_div ?ncz 2 + 1)) 0)"
    using v3 by simp
  from grid_rows [of xread xsize yread ysize
      "fft_row name ?n ?ncz zperiod (maxmode_of ?n) yread ydest xread xdest"
      "(the_file gf, var, replicate (nat (c_div ?ncz 2 + 1)) 0)" "(f, var', fd)" ?J ?fld
      xdest ydest ?ncz ?G, OF run J0 row]
  have "\<forall>a b c. val var' a b c =
              (if xdest \<le> a \<and> a < xdest + xsize \<and> ydest \<le> b \<and> b < ydest + ysize
                  \<and> 0 \<le> c \<and> c < ?ncz
               then ?G (a - xdest + xread) (b - ydest + yread) c
               else val var a b c)"
    by simp
  with zp show ?thesis by blast
qed


lemma mult_ge_one:
  fixes i z :: int
  assumes "1 \<le> i" "1 \<le> z"
  shows "1 \<le> i * z"
  using mult_mono [of 1 i 1 z] assms by simp

lemma maxmode_bound:
  assumes "1 \<le> size2"
  shows "2 * maxmode_of size2 < size2" and "0 \<le> maxmode_of size2"
proof -
  from assms have "maxmode_of size2 = (size2 - 1) div 2"
    by (simp add: maxmode_of_def c_div_nonneg)
  with assms show "2 * maxmode_of size2 < size2" "0 \<le> maxmode_of size2" by simp_all
qed

lemma load_mode_succeeds:
  assumes zp: "1 \<le> zperiod" and sz: "1 \<le> int (length zdata)"
    and i: "1 \<le> i" "i < int (length fdata)"
  shows "\<exists>fd'. load_mode zdata zperiod (maxmode_of (int (length zdata))) i fdata = Inr fd'
           \<and> length fd' = length fdata"
proof (cases "i * zperiod \<le> maxmode_of (int (length zdata))")
  case True
  have p: "1 \<le> i * zperiod" using mult_ge_one [OF i(1) zp] .
  have "i * zperiod * 2 = 2 * (i * zperiod)" by simp
  with True maxmode_bound(1) [OF sz] have u: "i * zperiod * 2 < int (length zdata)" by linarith
  from p have l: "0 \<le> i * zperiod * 2 - 1" by simp
  from u have u': "i * zperiod * 2 - 1 < int (length zdata)" by simp
  from p have l': "0 \<le> i * zperiod * 2" by simp
  show ?thesis
    using True l u l' u' i by (simp add: load_mode_def Let_def then_do_def arr_get_def arr_set_def)
next
  case False
  then show ?thesis
    using i by (simp add: load_mode_def Let_def arr_set_def)
qed

lemma load_fdata_succeeds:
  assumes zp: "1 \<le> zperiod" and sz: "1 \<le> int (length zdata)"
    and ncz: "0 \<le> ncz" and len: "length fdata = nat (c_div ncz 2 + 1)"
  shows "\<exists>fd'. load_fdata zdata ncz zperiod (maxmode_of (int (length zdata))) fdata = Inr fd'"
proof -
  have h: "c_div ncz 2 = ncz div 2" using ncz by (rule c_div_nonneg)
  have l0: "0 < length fdata" using len h ncz by simp
  let ?fd0 = "fdata[0 := Complex (zdata ! 0) 0]"
  have g: "arr_get zdata 0 = Inr (zdata ! 0)"
    using sz by (cases zdata) (simp_all add: arr_get_def)
  have s: "arr_set fdata 0 (Complex (zdata ! 0) 0) = Inr ?fd0"
    using l0 by (simp add: arr_set_def)
  let ?I = "\<lambda>(j :: int) fd :: complex list. length fd = length fdata"
  have "\<exists>s'. for_loop 1 (ncz div 2 + 1)
               (load_mode zdata zperiod (maxmode_of (int (length zdata)))) ?fd0 = Inr s'
          \<and> ?I (max 1 (ncz div 2 + 1)) s'"
  proof (rule for_loop_succeeds [where I = ?I])
    show "?I 1 ?fd0" by simp
  next
    fix j t
    assume j: "1 \<le> j" "j < ncz div 2 + 1" and I: "?I j t"
    from j I len h have "j < int (length t)" by simp
    from load_mode_succeeds [OF zp sz j(1) this] I
    show "\<exists>t'. load_mode zdata zperiod (maxmode_of (int (length zdata))) j t = Inr t' \<and> ?I (j + 1) t'"
      by simp
  qed
  then show ?thesis
    by (auto simp: load_fdata_def then_do_def g s h)
qed

lemma fft_row_succeeds:
  assumes zp: "1 \<le> zperiod" and sz: "1 \<le> size2" and ncz: "0 \<le> ncz"
    and len: "length fdata = nat (c_div ncz 2 + 1)"
    and rd: "readable f name (jx, jy, 0) [1, 1, size2]"
    and ib: "in_box v (jx - xread + xdest) (jy - yread + ydest) 0" and fz: "ncz \<le> fnz v"
  shows "\<exists>f' v' fd'. fft_row name size2 ncz zperiod (maxmode_of size2) yread ydest xread xdest
                        jx jy (f, v, fdata) = Inr (f', v', fd')
           \<and> shape v' = shape v \<and> readable f' = readable f \<and> length fd' = length fdata"
proof -
  let ?zdata = "block (reals f name) (jx, jy, 0) [1, 1, size2]"
  have lz: "int (length ?zdata) = size2" using sz by simp
  from load_fdata_succeeds [OF zp _ ncz len, of ?zdata] sz obtain fd' where
    ld: "load_fdata ?zdata ncz zperiod (maxmode_of size2) fdata = Inr fd'"
    unfolding lz by auto
  have l: "length fd' = length fdata"
    using load_fdata_nth(1) [OF ld ncz len] len c_div_nonneg [OF ncz] by simp
  have w: "int (length (irfft fd' ncz)) \<le> fnz v" using fz ncz by simp
  show ?thesis
    using rd ld ib w l
    by (simp add: fft_row_def Let_def read_real_def setGlobalOrigin_def write_row_z_def shape_def)
qed

lemma mesh3_sel:
  "LocalNx mesh3 = 1" "LocalNy mesh3 = 1" "LocalNz mesh3 = 4" "zlength mesh3 = TWOPI"
  by (simp_all add: mesh3_def)

lemma zperiod_mesh3: "zperiod_of mesh3 = Inr 1"
  by (rule zperiod_of_TWOPI) (rule mesh3_sel)

lemma maxmode_values: "maxmode_of 3 = 1" "maxmode_of 1 = 0"
  by (simp_all add: maxmode_of_def c_div_def)

lemma upto_0_2: "[0..2] = [0, 1, 2]"
  by (simp add: upto_rec1)

lemma sum_list_all_zero:
  fixes f :: "'a \<Rightarrow> complex"
  assumes "\<And>x. x \<in> set xs \<Longrightarrow> f x = 0"
  shows "(\<Sum>x\<leftarrow>xs. f x) = 0"
  using assms by (induction xs) simp_all

lemma irfft_dc:
  assumes len: "length fd = nat (n div 2 + 1)" and n: "0 \<le> n"
    and dc: "fd ! 0 = Complex dc 0"
    and zero: "\<And>i. 1 \<le> i \<Longrightarrow> i \<le> n div 2 \<Longrightarrow> fd ! nat i = 0"
    and c: "0 \<le> c" "c < n"
  shows "irfft fd n ! nat c = dc"
proof -
  let ?N = "nat n"
  let ?f = "\<lambda>j. hermitian fd ?N j * cis (2 * pi * real j * real (nat c) / real ?N)"
  have N: "0 < ?N" using c by simp
  have h0: "hermitian fd ?N 0 = Complex dc 0"
    by (simp add: hermitian_def dc)
  have hj: "hermitian fd ?N j = 0" if j: "j \<in> set [1..<?N]" for j
  proof (cases "2 * j \<le> ?N")
    case True
    with j n have "1 \<le> int j" "int j \<le> n div 2" by auto
    from zero [OF this] True show ?thesis by (simp add: hermitian_def)
  next
    case False
    with j n have "1 \<le> int (?N - j)" "int (?N - j) \<le> n div 2" by auto
    from zero [OF this] False show ?thesis by (simp add: hermitian_def)
  qed
  have "(\<Sum>j\<leftarrow>[0..<?N]. ?f j) = ?f 0 + (\<Sum>j\<leftarrow>[1..<?N]. ?f j)"
    using N by (simp add: upt_conv_Cons)
  also have "(\<Sum>j\<leftarrow>[1..<?N]. ?f j) = 0"
    by (rule sum_list_all_zero) (simp add: hj)
  finally have "(\<Sum>j\<leftarrow>[0..<?N]. ?f j) = Complex dc 0"
    by (simp add: h0)
  moreover have "nat c < ?N" using c by simp
  ultimately show ?thesis
    by (simp add: irfft_def)
qed

lemma fft_row_dc:
  assumes row: "fft_row name 1 ncz zperiod 0 yread ydest xread xdest jx jy (f, v, fd) = Inr (f', v', fd')"
    and J: "reals f = reals f0 \<and> is3d v \<and> length fd = nat (c_div ncz 2 + 1)"
    and ncz: "0 \<le> ncz" and zp: "1 \<le> zperiod"
  shows "(reals f' = reals f0 \<and> is3d v' \<and> length fd' = nat (c_div ncz 2 + 1)) \<and>
         (\<forall>a b c. val v' a b c =
            (if a = jx - xread + xdest \<and> b = jy - yread + ydest \<and> 0 \<le> c \<and> c < ncz
             then reals f0 name jx jy 0 else val v a b c))"
proof -
  let ?zdata = "block (reals f name) (jx, jy, 0) [1, 1, 1]"
  note r = fft_row_Inr [OF row]
  from J have len: "length fd = nat (c_div ncz 2 + 1)" and v3: "is3d v" and rf: "reals f = reals f0"
    by simp_all
  note nth = load_fdata_nth [OF r(2) ncz len]
  have h: "c_div ncz 2 = ncz div 2" using ncz by (rule c_div_nonneg)
  have dc: "fd' ! 0 = Complex (reals f0 name jx jy 0) 0"
    using nth(2) [of 0] ncz rf by (simp add: spectrum_entry_def)
  have zero: "fd' ! nat i = 0" if i: "1 \<le> i" "i \<le> ncz div 2" for i
    using nth(2) [of i] i mult_ge_one [OF i(1) zp] by (simp add: spectrum_entry_def)
  note wv = write_row_z_val [OF r(3) v3]
  have "val v' a b c =
            (if a = jx - xread + xdest \<and> b = jy - yread + ydest \<and> 0 \<le> c \<and> c < ncz
             then reals f0 name jx jy 0 else val v a b c)" for a b c
  proof (cases "0 \<le> c \<and> c < ncz")
    case True
    then have "irfft fd' ncz ! nat c = reals f0 name jx jy 0"
      using irfft_dc [OF nth(1) ncz dc zero, of c] by simp
    with True show ?thesis
      unfolding wv(3) [of a b c] by simp
  next
    case False
    then show ?thesis
      unfolding wv(3) [of a b c] by auto
  qed
  moreover have "reals f' = reals f0" using r(1) rf by (simp add: setGlobalOrigin_def)
  moreover have "length fd' = nat (c_div ncz 2 + 1)" using nth(1) h by simp
  ultimately show ?thesis using wv(1) by blast
qed

lemma readgrid_3dvar_fft_dc:
  assumes ok: "readgrid_3dvar_fft m gf name yread ydest ysize xread xdest xsize var = Inr (True, gf', var')"
    and sz: "getSize (the_file gf) name ! 2 = 1"
    and zp: "zperiod_of m = Inr zperiod" "1 \<le> zperiod"
    and v3: "is3d var"
    and r: "xdest \<le> a" "a < xdest + xsize" "ydest \<le> b" "b < ydest + ysize" "0 \<le> c" "c < LocalNz m"
  shows "val var' a b c = reals (the_file gf) name (a - xdest + xread) (b - ydest + yread) 0"
proof -
  let ?ncz = "LocalNz m"
  from r have ncz: "0 \<le> ?ncz" by simp
  from ok sz zp(1) obtain f fd where
    run: "for_loop xread (xread + xsize)
            (\<lambda>jx. for_loop yread (yread + ysize)
                     (fft_row name 1 ?ncz zperiod (maxmode_of 1) yread ydest xread xdest jx))
            (the_file gf, var, replicate (nat (c_div ?ncz 2 + 1)) 0) = Inr (f, var', fd)"
    by (auto simp: readgrid_3dvar_fft_def Let_def then_do_def alloc_def
        split: if_splits sum.splits stop.splits prod.splits)
  let ?J = "\<lambda>s. reals (fst s) = reals (the_file gf) \<and> is3d (fst (snd s))
                \<and> length (snd (snd s)) = nat (c_div ?ncz 2 + 1)"
  let ?fld = "\<lambda>s :: datafile \<times> field \<times> complex list. fst (snd s)"
  have row: "?J t' \<and> (\<forall>a b c. val (?fld t') a b c =
           (if a = jx - xread + xdest \<and> b = jy - yread + ydest \<and> 0 \<le> c \<and> c < ?ncz
            then reals (the_file gf) name jx jy 0 else val (?fld t) a b c))"
    if "?J t" "fft_row name 1 ?ncz zperiod (maxmode_of 1) yread ydest xread xdest jx jy t = Inr t'"
    for jx jy t t'
    using fft_row_dc [of name ?ncz zperiod yread ydest xread xdest jx jy "fst t" "fst (snd t)"
        "snd (snd t)" "fst t'" "fst (snd t')" "snd (snd t')" "the_file gf"] that ncz zp(2)
    by (simp add: maxmode_values)
  have J0: "?J (the_file gf, var, replicate (nat (c_div ?ncz 2 + 1)) 0)"
    using v3 by simp
  from grid_rows [of xread xsize yread ysize
      "fft_row name 1 ?ncz zperiod (maxmode_of 1) yread ydest xread xdest"
      "(the_file gf, var, replicate (nat (c_div ?ncz 2 + 1)) 0)" "(f, var', fd)" ?J ?fld
      xdest ydest ?ncz "\<lambda>jx jy c. reals (the_file gf) name jx jy 0", OF run J0 row] r
  show ?thesis by simp
qed

lemma readField3D_dc_only:
  assumes fft: "\<not> hasVar gf ''nz''"
    and dims: "length (getSize (the_file gf) name) = 3" "getSize (the_file gf) name ! 2 = 1"
    and zp: "zperiod_of m = Inr zperiod" "1 \<le> zperiod"
    and v3: "is3d var"
    and ok: "readField3D m gf name ys yd ny_to_read xs xd nx_to_read sz var = Inr (gf', var')"
  shows "maxmode_of (getSize (the_file gf) name ! 2) = 0
       \<and> (\<forall>jx jy k. xs \<le> jx \<and> jx < xs + nx_to_read \<and> ys \<le> jy \<and> jy < ys + ny_to_read
                     \<and> 0 \<le> k \<and> k < LocalNz m
            \<longrightarrow> val var' (jx - xs + xd) (jy - ys + yd) k = reals (the_file gf) name jx jy 0)"
proof (intro conjI allI impI)
  show "maxmode_of (getSize (the_file gf) name ! 2) = 0"
    using dims by (simp add: maxmode_values)
next
  fix jx jy k
  assume r: "xs \<le> jx \<and> jx < xs + nx_to_read \<and> ys \<le> jy \<and> jy < ys + ny_to_read \<and> 0 \<le> k \<and> k < LocalNz m"
  from ok fft have "readgrid_3dvar_fft m gf name ys yd ny_to_read xs xd nx_to_read var = Inr (True, gf', var')"
    by (auto simp: readField3D_def split: if_splits sum.splits prod.splits)
  from readgrid_3dvar_fft_dc [OF this dims(2) zp v3, of "jx - xs + xd" "jy - ys + yd" k] r
  show "val var' (jx - xs + xd) (jy - ys + yd) k = reals (the_file gf) name jx jy 0"
    by simp
qed

lemma readgrid_3dvar_fft_succeeds:
  assumes nn: "0 \<le> yread" "0 \<le> ysize" "0 \<le> xread" "0 \<le> xsize"
    and dims: "length (getSize (the_file gf) name) = 3" "1 \<le> getSize (the_file gf) name ! 2"
    and zp: "zperiod_of m = Inr zperiod" "1 \<le> zperiod"
    and ncz: "0 \<le> LocalNz m"
    and box: "window_in_field var xdest xsize ydest ysize (LocalNz m)"
    and rd: "rows_readable (the_file gf) name xread xsize yread ysize (getSize (the_file gf) name ! 2)"
  shows "\<exists>gf' var'. readgrid_3dvar_fft m gf name yread ydest ysize xread xdest xsize var
           = Inr (True, gf', var')"
proof -
  let ?n = "getSize (the_file gf) name ! 2"
  let ?ncz = "LocalNz m"
  let ?fd0 = "replicate (nat (c_div ?ncz 2 + 1)) (0 :: complex)"
  let ?J = "\<lambda>t :: datafile \<times> field \<times> complex list.
              shape (fst (snd t)) = shape var \<and> readable (fst t) = readable (the_file gf)
              \<and> length (snd (snd t)) = nat (c_div ?ncz 2 + 1)"
  have "\<exists>s'. for_loop xread (xread + xsize)
          (\<lambda>jx. for_loop yread (yread + ysize)
                   (fft_row name ?n ?ncz zperiod (maxmode_of ?n) yread ydest xread xdest jx))
          (the_file gf, var, ?fd0) = Inr s' \<and> ?J s'"
  proof (rule grid_rows_succeed [where J = ?J])
    show "?J (the_file gf, var, ?fd0)" by simp
  next
    fix jx jy t
    assume r: "xread \<le> jx" "jx < xread + xsize" "yread \<le> jy" "jy < yread + ysize" and Jt: "?J t"
    obtain f v fd where t: "t = (f, v, fd)" by (cases t)
    from Jt t have s: "is3d v = is3d var" "fnx v = fnx var" "fny v = fny var" "fnz v = fnz var"
      and rf: "readable f = readable (the_file gf)" and len: "length fd = nat (c_div ?ncz 2 + 1)"
      by (simp_all add: shape_def)
    have ib: "in_box v (jx - xread + xdest) (jy - yread + ydest) 0"
      using box r s by (auto simp: in_box_def window_in_field_def)
    have fz: "?ncz \<le> fnz v"
      using box s by (simp add: window_in_field_def)
    have rdb: "readable f name (jx, jy, 0) [1, 1, ?n]"
      using rd r rf by (simp add: rows_readable_iff)
    from fft_row_succeeds [OF zp(2) dims(2) ncz len rdb ib fz] Jt t
    show "\<exists>t'. fft_row name ?n ?ncz zperiod (maxmode_of ?n) yread ydest xread xdest jx jy t = Inr t'
             \<and> ?J t'"
      by auto
  qed
  then obtain f v fd where "for_loop xread (xread + xsize)
          (\<lambda>jx. for_loop yread (yread + ysize)
                   (fft_row name ?n ?ncz zperiod (maxmode_of ?n) yread ydest xread xdest jx))
          (the_file gf, var, ?fd0) = Inr (f, v, fd)"
    by auto
  moreover have "0 \<le> ydest" "0 \<le> xdest"
    using box by (simp_all add: window_in_field_def)
  moreover have "0 \<le> c_div ?ncz 2 + 1"
    using c_div_nonneg [OF ncz] ncz by simp
  ultimately show ?thesis
    using nn dims zp
    by (simp add: readgrid_3dvar_fft_def Let_def then_do_def report_modes_def alloc_def)
qed

lemma gf3_facts:
  "\<not> hasVar gf3 ''nz''" "getSize (the_file gf3) ''dc'' = [1, 1, 1]" "is3d var3"
  "reals (the_file gf3) ''dc'' 0 0 0 = 5"
  by (simp_all add: hasVar_def gf3_def file3_def var3_def)

text \<open>
  C9. Let the file have no marker \<open>nz\<close>, and let a \<open>Field3D\<close> be read from a variable of
  three stored dimensions whose rows hold one value (so that \<open>maxmode\<close> is 0), with
  \<open>zperiod\<close> at least 1. Whenever the read returns, every row \<open>(x, y)\<close> of the window holds,
  in each of its LocalNz cells, the DC value stored for that row. The read returns
  whenever the window starts at indices that are not negative, lies inside the field with
  room for LocalNz values in \<open>z\<close>, and every row of it can be read from the backend.
\<close>

theorem dc_only_spectral_read_is_uniform:
  assumes fft: "\<not> hasVar gf ''nz''"
    and dims: "length (getSize (the_file gf) name) = 3" "getSize (the_file gf) name ! 2 = 1"
    and zp: "zperiod_of m = Inr zperiod" "1 \<le> zperiod"
    and v3: "is3d var"
  shows "maxmode_of (getSize (the_file gf) name ! 2) = 0
       \<and> (\<forall>gf' var'. readField3D m gf name ys yd ny_to_read xs xd nx_to_read sz var = Inr (gf', var')
            \<longrightarrow> (\<forall>jx jy k. xs \<le> jx \<and> jx < xs + nx_to_read \<and> ys \<le> jy \<and> jy < ys + ny_to_read
                     \<and> 0 \<le> k \<and> k < LocalNz m
                   \<longrightarrow> val var' (jx - xs + xd) (jy - ys + yd) k = reals (the_file gf) name jx jy 0))
       \<and> (0 \<le> ys \<and> 0 \<le> ny_to_read \<and> 0 \<le> xs \<and> 0 \<le> nx_to_read \<and> 0 \<le> LocalNz m
            \<and> window_in_field var xd nx_to_read yd ny_to_read (LocalNz m)
            \<and> rows_readable (the_file gf) name xs nx_to_read ys ny_to_read 1
          \<longrightarrow> (\<exists>gf' var'. readField3D m gf name ys yd ny_to_read xs xd nx_to_read sz var
                            = Inr (gf', var')))"
proof (intro conjI allI impI)
  show "maxmode_of (getSize (the_file gf) name ! 2) = 0"
    using dims by (simp add: maxmode_values)
next
  fix gf' var' jx jy k
  assume ok: "readField3D m gf name ys yd ny_to_read xs xd nx_to_read sz var = Inr (gf', var')"
    and r: "xs \<le> jx \<and> jx < xs + nx_to_read \<and> ys \<le> jy \<and> jy < ys + ny_to_read
              \<and> 0 \<le> k \<and> k < LocalNz m"
  from readField3D_dc_only [OF fft dims zp v3 ok, THEN conjunct2, rule_format, OF r]
  show "val var' (jx - xs + xd) (jy - ys + yd) k = reals (the_file gf) name jx jy 0" .
next
  assume c: "0 \<le> ys \<and> 0 \<le> ny_to_read \<and> 0 \<le> xs \<and> 0 \<le> nx_to_read \<and> 0 \<le> LocalNz m
            \<and> window_in_field var xd nx_to_read yd ny_to_read (LocalNz m)
            \<and> rows_readable (the_file gf) name xs nx_to_read ys ny_to_read 1"
  then have "\<exists>gf' var'. readgrid_3dvar_fft m gf name ys yd ny_to_read xs xd nx_to_read var
               = Inr (True, gf', var')"
    using dims zp by (intro readgrid_3dvar_fft_succeeds) simp_all
  then obtain gf' var' where
    "readgrid_3dvar_fft m gf name ys yd ny_to_read xs xd nx_to_read var = Inr (True, gf', var')"
    by blast
  with fft have "readField3D m gf name ys yd ny_to_read xs xd nx_to_read sz var = Inr (gf', var')"
    by (simp add: readField3D_def)
  then show "\<exists>gf' var'. readField3D m gf name ys yd ny_to_read xs xd nx_to_read sz var
                            = Inr (gf', var')"
    by blast
qed

theorem dc_only_spectral_read_is_uniform_witness:
  "\<not> hasVar gf3 ''nz'' \<and> getSize (the_file gf3) ''dc'' = [1, 1, 1] \<and> zperiod_of mesh3 = Inr 1
   \<and> window_in_field var3 0 1 0 1 (LocalNz mesh3) \<and> rows_readable (the_file gf3) ''dc'' 0 1 0 1 1
   \<and> (\<exists>g v. readField3D mesh3 gf3 ''dc'' 0 0 1 0 0 1 [1, 1, 1] var3 = Inr (g, v)
          \<and> val v 0 0 0 = 5 \<and> val v 0 0 1 = 5 \<and> val v 0 0 2 = 5 \<and> val v 0 0 3 = 5)"
proof -
  have dims: "length (getSize (the_file gf3) ''dc'') = 3" "getSize (the_file gf3) ''dc'' ! 2 = 1"
    by (simp_all add: gf3_facts)
  have one: "(1 :: int) \<le> 1" by simp
  have w: "window_in_field var3 0 1 0 1 (LocalNz mesh3)"
    by (simp add: window_in_field_def var3_def mesh3_sel)
  have r: "rows_readable (the_file gf3) ''dc'' 0 1 0 1 1"
    by (simp add: rows_readable_iff gf3_def file3_def)
  have c: "(0 :: int) \<le> 0 \<and> (0 :: int) \<le> 1 \<and> (0 :: int) \<le> 0 \<and> (0 :: int) \<le> 1 \<and> 0 \<le> LocalNz mesh3
      \<and> window_in_field var3 0 1 0 1 (LocalNz mesh3)
      \<and> rows_readable (the_file gf3) ''dc'' 0 1 0 1 1"
    using w r by (simp add: mesh3_sel)
  note t = dc_only_spectral_read_is_uniform [OF gf3_facts(1) dims zperiod_mesh3 one gf3_facts(3),
      of 0 0 1 0 0 1 "[1, 1, 1]", THEN conjunct2]
  from t [THEN conjunct2, THEN mp, OF c] obtain g v where
    ok: "readField3D mesh3 gf3 ''dc'' 0 0 1 0 0 1 [1, 1, 1] var3 = Inr (g, v)"
    by blast
  note u = t [THEN conjunct1, rule_format, OF ok]
  have "val v 0 0 0 = 5" "val v 0 0 1 = 5" "val v 0 0 2 = 5" "val v 0 0 3 = 5"
    using u [of 0 0 0] u [of 0 0 1] u [of 0 0 2] u [of 0 0 3]
    by (simp_all add: mesh3_sel gf3_facts)
  with ok have "\<exists>g v. readField3D mesh3 gf3 ''dc'' 0 0 1 0 0 1 [1, 1, 1] var3 = Inr (g, v)
          \<and> val v 0 0 0 = 5 \<and> val v 0 0 1 = 5 \<and> val v 0 0 2 = 5 \<and> val v 0 0 3 = 5"
    by blast
  with gf3_facts zperiod_mesh3 w r show ?thesis by simp
qed




lemma spectrum_spec_three:
  "spectrum_spec stored 4 zperiod maxmode
     = [spectrum_entry stored zperiod maxmode 0, spectrum_entry stored zperiod maxmode 1,
        spectrum_entry stored zperiod maxmode 2]"
  by (simp add: spectrum_spec_def upto_0_2)

lemma irfft_four_first:
  "irfft [a, b, c] 4 ! 0 = Re a + 2 * Re b + Re c"
  by (simp add: irfft_def hermitian_def upt_conv_Cons)


subsection \<open>The period count at a tie of the double quotient\<close>








subsection \<open>What getField loads\<close>

lemma readField3D_Inr:
  assumes "readField3D m gf name ys yd ny xs xd nx sz var = Inr (gf', v1)"
  shows "hasVar gf ''nz'' \<Longrightarrow> sz ! 2 = LocalNz m
           \<and> readgrid_3dvar_real gf name ys yd ny xs xd nx var = Inr (True, gf', v1)"
    and "\<not> hasVar gf ''nz'' \<Longrightarrow>
           readgrid_3dvar_fft m gf name ys yd ny xs xd nx var = Inr (True, gf', v1)"
  using assms by (auto simp: readField3D_def split: if_splits sum.splits prod.splits)

lemma getField_loaded:
  assumes ok: "getField chk m gf var name def = Inr (True, gf', var')"
    and dims: "2 \<le> length (getSize (the_file gf) name)"
  shows "\<exists>w. read_window chk m gf (getSize (the_file gf) name) = Inr w
     \<and> (\<forall>x y z. w_xd w \<le> x \<and> x < w_xd w + w_nx_to_read w
                \<and> w_yd w \<le> y \<and> y < w_yd w + w_ny_to_read w
                \<and> xstart m \<le> x \<and> x \<le> xend m \<and> ystart m \<le> y \<and> y \<le> yend m \<longrightarrow>
          (\<not> is3d var \<longrightarrow>
             val var' x y z = reals (the_file gf) name (w_xs w + (x - w_xd w))
                                (w_ys w + (y - w_yd w)) 0)
        \<and> (is3d var \<and> hasVar gf ''nz'' \<and> 0 \<le> z \<and> z < LocalNz m \<longrightarrow>
             val var' x y z = reals (the_file gf) name (w_xs w + (x - w_xd w))
                                (w_ys w + (y - w_yd w)) z)
        \<and> (is3d var \<and> \<not> hasVar gf ''nz'' \<and> 0 \<le> z \<and> z < LocalNz m \<longrightarrow>
             (\<exists>zperiod. zperiod_of m = Inr zperiod
                \<and> val var' x y z =
                    irfft (spectrum_spec
                             (stored_row (the_file gf) name (w_xs w + (x - w_xd w))
                                (w_ys w + (y - w_yd w)) (getSize (the_file gf) name ! 2))
                             (LocalNz m) zperiod (maxmode_of (getSize (the_file gf) name ! 2)))
                      (LocalNz m) ! nat z)))"
proof -
  let ?fd = "getSize (the_file gf) name"
  from load_field_Inr [OF getField_load(1) [OF ok dims]] obtain w v1 where
    w: "read_window chk m gf ?fd = Inr w"
    and r: "readField m gf name (w_ys w) (w_yd w) (w_ny_to_read w)
                (w_xs w) (w_xd w) (w_nx_to_read w) ?fd var = Inr (gf', v1)"
    and i: "\<And>a b c. xstart m \<le> a \<and> a \<le> xend m \<and> ystart m \<le> b \<and> b \<le> yend m
                \<Longrightarrow> val var' a b c = val v1 a b c"
    by blast
  have "(\<not> is3d var \<longrightarrow>
             val var' x y z = reals (the_file gf) name (w_xs w + (x - w_xd w))
                                (w_ys w + (y - w_yd w)) 0)
        \<and> (is3d var \<and> hasVar gf ''nz'' \<and> 0 \<le> z \<and> z < LocalNz m \<longrightarrow>
             val var' x y z = reals (the_file gf) name (w_xs w + (x - w_xd w))
                                (w_ys w + (y - w_yd w)) z)
        \<and> (is3d var \<and> \<not> hasVar gf ''nz'' \<and> 0 \<le> z \<and> z < LocalNz m \<longrightarrow>
             (\<exists>zperiod. zperiod_of m = Inr zperiod
                \<and> val var' x y z =
                    irfft (spectrum_spec
                             (stored_row (the_file gf) name (w_xs w + (x - w_xd w))
                                (w_ys w + (y - w_yd w)) (?fd ! 2))
                             (LocalNz m) zperiod (maxmode_of (?fd ! 2)))
                      (LocalNz m) ! nat z))"
    if c: "w_xd w \<le> x \<and> x < w_xd w + w_nx_to_read w
                \<and> w_yd w \<le> y \<and> y < w_yd w + w_ny_to_read w
                \<and> xstart m \<le> x \<and> x \<le> xend m \<and> ystart m \<le> y \<and> y \<le> yend m" for x y z
  proof (intro conjI impI)
    from c have e: "val var' x y z = val v1 x y z" by (intro i) simp
    have ix: "x - w_xd w + w_xs w = w_xs w + (x - w_xd w)"
      and iy: "y - w_yd w + w_ys w = w_ys w + (y - w_yd w)"
      by simp_all
    {
      assume v2: "\<not> is3d var"
      with r have "readField2D gf name (w_ys w) (w_yd w) (w_ny_to_read w)
                (w_xs w) (w_xd w) (w_nx_to_read w) var = Inr (gf', v1)"
        by (simp add: readField_def)
      from readField2D_val(2) [OF this v2, of x y z] c e
      show "val var' x y z = reals (the_file gf) name (w_xs w + (x - w_xd w))
                                (w_ys w + (y - w_yd w)) 0"
        by simp
    }
    {
      assume a: "is3d var \<and> hasVar gf ''nz'' \<and> 0 \<le> z \<and> z < LocalNz m"
      with r have "readField3D m gf name (w_ys w) (w_yd w) (w_ny_to_read w)
                (w_xs w) (w_xd w) (w_nx_to_read w) ?fd var = Inr (gf', v1)"
        by (simp add: readField_def)
      from readField3D_Inr(1) [OF this] a have n: "?fd ! 2 = LocalNz m"
        and rr: "readgrid_3dvar_real gf name (w_ys w) (w_yd w) (w_ny_to_read w)
                (w_xs w) (w_xd w) (w_nx_to_read w) var = Inr (True, gf', v1)"
        by simp_all
      from readgrid_3dvar_real_val [OF rr, of x y z] a c e n
      show "val var' x y z = reals (the_file gf) name (w_xs w + (x - w_xd w))
                                (w_ys w + (y - w_yd w)) z"
        by (simp add: ix iy)
    }
    {
      assume a: "is3d var \<and> \<not> hasVar gf ''nz'' \<and> 0 \<le> z \<and> z < LocalNz m"
      with r have "readField3D m gf name (w_ys w) (w_yd w) (w_ny_to_read w)
                (w_xs w) (w_xd w) (w_nx_to_read w) ?fd var = Inr (gf', v1)"
        by (simp add: readField_def)
      from readField3D_Inr(2) [OF this] a have
        rr: "readgrid_3dvar_fft m gf name (w_ys w) (w_yd w) (w_ny_to_read w)
                (w_xs w) (w_xd w) (w_nx_to_read w) var = Inr (True, gf', v1)"
        by simp
      from readgrid_3dvar_fft_val [OF rr] a obtain zperiod where
        zp: "zperiod_of m = Inr zperiod"
        and v: "\<And>a b c. val v1 a b c =
              (if w_xd w \<le> a \<and> a < w_xd w + w_nx_to_read w
                  \<and> w_yd w \<le> b \<and> b < w_yd w + w_ny_to_read w \<and> 0 \<le> c \<and> c < LocalNz m
               then irfft (spectrum_spec
                             (stored_row (the_file gf) name (a - w_xd w + w_xs w)
                                (b - w_yd w + w_ys w) (?fd ! 2))
                             (LocalNz m) zperiod (maxmode_of (?fd ! 2)))
                      (LocalNz m) ! nat c
               else val var a b c)"
        by blast
      from v [of x y z] a c e zp
      show "\<exists>zperiod. zperiod_of m = Inr zperiod
                \<and> val var' x y z =
                    irfft (spectrum_spec
                             (stored_row (the_file gf) name (w_xs w + (x - w_xd w))
                                (w_ys w + (y - w_yd w)) (?fd ! 2))
                             (LocalNz m) zperiod (maxmode_of (?fd ! 2)))
                      (LocalNz m) ! nat z"
        by (simp add: ix iy)
    }
  qed
  with w show ?thesis by blast
qed

lemma x_window_nonneg:
  "x_window chk m fd = Inr p \<Longrightarrow> 0 \<le> grid_xguards_of m fd"
  unfolding x_window_def x_guard_case_def then_do_def ASSERT1_def Let_def
  by (auto split: if_splits)

lemma y_window_nonneg:
  "y_window chk m gf fd = Inr p \<Longrightarrow> 0 \<le> grid_yguards gf"
  unfolding y_window_def y_guard_case_def then_do_def ASSERT1_def
  by (auto split: if_splits)

lemma read_window_unchecked:
  assumes "2 \<le> length fd"
  shows "grid_xguards_of m fd < 0 \<Longrightarrow> read_window False m gf fd = Inl BadXGuards"
    and "0 \<le> grid_xguards_of m fd \<Longrightarrow> grid_yguards gf < 0
           \<Longrightarrow> read_window False m gf fd = Inl BadYGuards"
proof -
  have y: "\<exists>ys. y_start False m gf = Inr ys"
    by (simp add: y_start_def then_do_def ASSERT1_def)
  from assms have l: "\<not> length fd < 2" by simp
  show "read_window False m gf fd = Inl BadXGuards" if "grid_xguards_of m fd < 0"
  proof -
    from that have "x_window False m fd = Inl BadXGuards"
      by (simp add: x_window_def x_guard_case_def then_do_def ASSERT1_def)
    with y l show ?thesis
      by (auto simp: read_window_def then_do_def ASSERT1_def)
  qed
  show "read_window False m gf fd = Inl BadYGuards"
    if "0 \<le> grid_xguards_of m fd" "grid_yguards gf < 0"
  proof -
    from that(1) have "\<exists>p. x_window False m fd = Inr p"
      by (simp add: x_window_def x_guard_case_def then_do_def ASSERT1_def)
    moreover from that(2) have "y_window False m gf fd = Inl BadYGuards"
      by (simp add: y_window_def y_guard_case_def)
    ultimately show ?thesis using y l
      by (auto simp: read_window_def then_do_def ASSERT1_def)
  qed
qed

lemma mesh5_facts:
  "mxg (mesh5\<lparr>OffsetY := o5, numberOfXPoints := k\<rparr>) = 1"
  "myg (mesh5\<lparr>OffsetY := o5, numberOfXPoints := k\<rparr>) = 2"
  "LocalNx (mesh5\<lparr>OffsetY := o5, numberOfXPoints := k\<rparr>) = 4"
  "LocalNy (mesh5\<lparr>OffsetY := o5, numberOfXPoints := k\<rparr>) = 6"
  "GlobalNx (mesh5\<lparr>OffsetY := o5, numberOfXPoints := k\<rparr>) = 4"
  "OffsetX (mesh5\<lparr>OffsetY := o5, numberOfXPoints := k\<rparr>) = 0"
  "OffsetY (mesh5\<lparr>OffsetY := o5, numberOfXPoints := k\<rparr>) = o5"
  "numberOfXPoints (mesh5\<lparr>OffsetY := o5, numberOfXPoints := k\<rparr>) = k"
  "xstart (mesh5\<lparr>OffsetY := o5, numberOfXPoints := k\<rparr>) = 1"
  "xend (mesh5\<lparr>OffsetY := o5, numberOfXPoints := k\<rparr>) = 2"
  "ystart (mesh5\<lparr>OffsetY := o5, numberOfXPoints := k\<rparr>) = 2"
  "yend (mesh5\<lparr>OffsetY := o5, numberOfXPoints := k\<rparr>) = 3"
  by (simp_all add: mxg_def myg_def mesh5_def c_div_def)

lemma mesh5_self: "mesh5\<lparr>OffsetY := 2, numberOfXPoints := 2\<rparr> = mesh5"
  by (simp add: mesh5_def)

lemma gf5_facts:
  "is_valid (the_file gf5)" "getSize (the_file gf5) ''f'' = [4, 12]" "grid_yguards gf5 = 2"
  "ny_inner gf5 = 2" "readable (the_file gf5) ''f'' p c"
  "reals (the_file gf5) ''f'' x y z = real_of_int (100 * x + y)"
  by (simp_all add: gf5_def file5_def)

lemma GridFile_file5: "GridFile file5 ''grid'' = Inr gf5"
  by (simp add: GridFile_def gf5_def file5_def setGlobalOrigin_def read_int_scalar_def
      read_int_def)

lemma read_window_mesh5:
  "read_window False (mesh5\<lparr>OffsetY := o5, numberOfXPoints := k\<rparr>) gf5 [4, 12]
     = Inr \<lparr>w_ys = (if 1 < k \<and> 2 \<le> o5 then o5 + 4 else o5), w_yd = 0, w_ny_to_read = 6,
            w_xs = 0, w_xd = 0, w_nx_to_read = 4\<rparr>"
proof -
  let ?m = "mesh5\<lparr>OffsetY := o5, numberOfXPoints := k\<rparr>"
  have "grid_xguards_of ?m [4, 12] = 1"
    by (simp add: grid_xguards_of_def mesh5_facts c_div_def)
  then have "x_window False ?m [4, 12] = Inr (4, 0)"
    by (simp add: x_window_def x_guard_case_def then_do_def ASSERT1_def mesh5_facts)
  moreover have "y_start False ?m gf5 = Inr (if 1 < k \<and> 2 \<le> o5 then o5 + 4 else o5)"
    by (simp add: y_start_def then_do_def ASSERT1_def mesh5_facts gf5_facts)
  moreover have "y_window False ?m gf5 [4, 12] = Inr (6, 0)"
    by (simp add: y_window_def y_guard_case_def then_do_def ASSERT1_def mesh5_facts gf5_facts)
  ultimately show ?thesis
    by (simp add: read_window_def then_do_def ASSERT1_def mesh5_facts)
qed

lemma getField_mesh5:
  "\<exists>g v. getField False (mesh5\<lparr>OffsetY := o5, numberOfXPoints := k\<rparr>) gf5 var5 ''f'' 0
           = Inr (True, g, v)"
proof -
  let ?m = "mesh5\<lparr>OffsetY := o5, numberOfXPoints := k\<rparr>"
  let ?ys = "if 1 < k \<and> 2 \<le> o5 then o5 + 4 else o5"
  have "\<exists>g v. readField2D gf5 ''f'' ?ys 0 6 0 0 4 var5 = Inr (g, v)"
    by (rule readField2D_succeeds) (simp_all add: var5_def gf5_facts)
  then obtain g v where "readField2D gf5 ''f'' ?ys 0 6 0 0 4 var5 = Inr (g, v)"
    by blast
  then have "getField False ?m gf5 var5 ''f'' 0 = Inr (True, g, v)"
    by (simp add: getField_def load_field_def gf5_facts read_window_mesh5 then_do_def
        readField_def var5_def mesh5_facts)
  then show ?thesis by blast
qed

lemma fill_xguards_without_guards:
  assumes "xstart m \<le> 0" and "LocalNx m \<le> xend m + 1"
  shows "fill_xguards m v = Inr v"
  using assms by (simp add: fill_xguards_def then_do_def for_loop_empty)

lemma fill_yguards_without_guards:
  assumes "ystart m \<le> 0" and "LocalNy m \<le> yend m + 1"
  shows "fill_yguards m v = Inr v"
proof -
  let ?body = "\<lambda>x v0. then_do (for_loop 0 (ystart m) (\<lambda>y. copy_z x (ystart m) x y) v0)
                  (\<lambda>v1. for_loop (yend m + 1) (LocalNy m) (\<lambda>y. copy_z x (yend m) x y) v1)"
  have "\<exists>s'. for_loop 0 (LocalNx m) ?body v = Inr s' \<and> (\<lambda>j t. t = v) (max 0 (LocalNx m)) s'"
    by (rule for_loop_succeeds) (simp_all add: then_do_def for_loop_empty assms)
  then show ?thesis
    by (auto simp: fill_yguards_def)
qed

lemma mesh2_facts:
  "mxg mesh2 = 0" "myg mesh2 = 0" "LocalNx mesh2 = 2" "LocalNy mesh2 = 1" "LocalNz mesh2 = 2"
  "GlobalNx mesh2 = 2" "GlobalNy mesh2 = 1" "OffsetX mesh2 = 0" "OffsetY mesh2 = 0"
  "numberOfXPoints mesh2 = 1" "xstart mesh2 = 0" "xend mesh2 = 1" "ystart mesh2 = 0"
  "yend mesh2 = 0"
  by (simp_all add: mxg_def myg_def mesh2_def c_div_def)

lemma gf2_facts:
  "is_valid (the_file gf2)" "getSize (the_file gf2) ''g'' = [2, 1, 2]" "grid_yguards gf2 = 0"
  "hasVar gf2 ''nz''" "is3d var2"
  "reals (the_file gf2) ''g'' x y z = real_of_int (100 * x + 10 * y + z)"
  by (simp_all add: gf2_def file2_def hasVar_def var2_def)

lemma read_window_mesh2:
  "read_window True mesh2 gf2 [2, 1, 2]
     = Inr \<lparr>w_ys = 0, w_yd = 0, w_ny_to_read = 1, w_xs = 0, w_xd = 0, w_nx_to_read = 2\<rparr>"
proof -
  have "grid_xguards_of mesh2 [2, 1, 2] = 0"
    by (simp add: grid_xguards_of_def mesh2_facts c_div_def)
  then have "x_window True mesh2 [2, 1, 2] = Inr (2, 0)"
    by (simp add: x_window_def x_guard_case_def then_do_def ASSERT1_def mesh2_facts c_mod_def
        c_div_def)
  moreover have "y_start True mesh2 gf2 = Inr 0"
    by (simp add: y_start_def mesh2_facts)
  moreover have "y_window True mesh2 gf2 [2, 1, 2] = Inr (1, 0)"
    by (simp add: y_window_def y_guard_case_def then_do_def ASSERT1_def mesh2_facts gf2_facts)
  ultimately show ?thesis
    by (simp add: read_window_def then_do_def ASSERT1_def mesh2_facts c_mod_def c_div_def)
qed

lemma getField_mesh2:
  "\<exists>g v. getField True mesh2 gf2 var2 ''g'' 0 = Inr (True, g, v)"
proof -
  have "\<exists>g v. readgrid_3dvar_real gf2 ''g'' 0 0 1 0 0 2 var2 = Inr (True, g, v)"
    by (rule readgrid_3dvar_real_succeeds)
      (simp_all add: gf2_facts window_in_field_def rows_readable_iff, simp_all add: var2_def gf2_def file2_def)
  then obtain g v where "readgrid_3dvar_real gf2 ''g'' 0 0 1 0 0 2 var2 = Inr (True, g, v)"
    by blast
  then have "getField True mesh2 gf2 var2 ''g'' 0 = Inr (True, g, v)"
    by (simp add: getField_def load_field_def gf2_facts read_window_mesh2 then_do_def
        readField_def readField3D_def mesh2_facts fill_xguards_without_guards
        fill_yguards_without_guards)
  then show ?thesis by blast
qed

lemma mesh3_facts:
  "mxg mesh3 = 0" "myg mesh3 = 0" "GlobalNx mesh3 = 1" "GlobalNy mesh3 = 1" "OffsetX mesh3 = 0"
  "OffsetY mesh3 = 0" "numberOfXPoints mesh3 = 1" "xstart mesh3 = 0" "xend mesh3 = 0"
  "ystart mesh3 = 0" "yend mesh3 = 0"
  by (simp_all add: mxg_def myg_def mesh3_def c_div_def)

lemma gf3_h_facts:
  "is_valid (the_file gf3)" "getSize (the_file gf3) ''h'' = [1, 1, 3]" "grid_yguards gf3 = 0"
  "reals (the_file gf3) ''h'' 0 0 k = real_of_int (k + 5)"
  by (simp_all add: gf3_def file3_def)

lemma read_window_mesh3:
  "read_window True mesh3 gf3 [1, 1, 3]
     = Inr \<lparr>w_ys = 0, w_yd = 0, w_ny_to_read = 1, w_xs = 0, w_xd = 0, w_nx_to_read = 1\<rparr>"
proof -
  have "grid_xguards_of mesh3 [1, 1, 3] = 0"
    by (simp add: grid_xguards_of_def mesh3_facts c_div_def)
  then have "x_window True mesh3 [1, 1, 3] = Inr (1, 0)"
    by (simp add: x_window_def x_guard_case_def then_do_def ASSERT1_def mesh3_facts mesh3_sel
        c_mod_def c_div_def)
  moreover have "y_start True mesh3 gf3 = Inr 0"
    by (simp add: y_start_def mesh3_facts)
  moreover have "y_window True mesh3 gf3 [1, 1, 3] = Inr (1, 0)"
    by (simp add: y_window_def y_guard_case_def then_do_def ASSERT1_def mesh3_facts mesh3_sel
        gf3_h_facts)
  ultimately show ?thesis
    by (simp add: read_window_def then_do_def ASSERT1_def mesh3_facts mesh3_sel c_mod_def
        c_div_def)
qed

lemma getField_mesh3:
  "\<exists>g v. getField True mesh3 gf3 var3 ''h'' 0 = Inr (True, g, v)"
proof -
  have "\<exists>g v. readgrid_3dvar_fft mesh3 gf3 ''h'' 0 0 1 0 0 1 var3 = Inr (True, g, v)"
    by (rule readgrid_3dvar_fft_succeeds [OF _ _ _ _ _ _ zperiod_mesh3])
      (simp_all add: gf3_h_facts mesh3_sel window_in_field_def rows_readable_iff,
        simp_all add: var3_def gf3_def file3_def)
  then obtain g v where "readgrid_3dvar_fft mesh3 gf3 ''h'' 0 0 1 0 0 1 var3 = Inr (True, g, v)"
    by blast
  then have "getField True mesh3 gf3 var3 ''h'' 0 = Inr (True, g, v)"
    by (simp add: getField_def load_field_def gf3_h_facts gf3_facts read_window_mesh3 then_do_def
        readField_def readField3D_def mesh3_facts mesh3_sel fill_xguards_without_guards
        fill_yguards_without_guards)
  then show ?thesis by blast
qed

text \<open>
  C4, as amended. In getField, for a field read from a variable of two or three stored
  dimensions, the count \<open>xg\<close> of \<open>x\<close> guard cells present in the file is computed by
  comparing the stored \<open>x\<close> extent of that variable with GlobalNx - 2 mxg: it is half
  their difference. The count \<open>yg\<close> of \<open>y\<close> guard cells is not computed from the stored
  extents: it is the scalar \<open>y_boundary_guards\<close> of the file, read once when the loader
  is constructed (zero when it cannot be read), and the member \<open>grid_yguards\<close> of the
  loader holds it. These two numbers are the counts getField goes by: without assertions
  it rejects the file with the error on the \<open>x\<close> guard cells when \<open>xg\<close> is negative, and
  with the error on the \<open>y\<close> guard cells when \<open>xg\<close> is not negative and \<open>yg\<close> is; when
  it returns found=true neither is negative, and a positive count less the guard width of
  the mesh is where the window that was read starts in the field.
\<close>

theorem guard_counts_of_getField:
  assumes gf: "GridFile format fname = Inr gf"
    and valid: "is_valid (the_file gf)"
    and dims: "length (getSize (the_file gf) name) = 2
               \<or> length (getSize (the_file gf) name) = 3 \<and> is3d var"
    and xg: "xg = c_div (getSize (the_file gf) name ! 0 - (GlobalNx m - 2 * mxg m)) 2"
    and yg: "yg = (if readable format ''y_boundary_guards'' (0, 0, 0) [1, 1]
                   then ints format ''y_boundary_guards'' 0 0 0 else 0)"
  shows "grid_yguards gf = yg
       \<and> (\<not> chk \<and> xg < 0 \<longrightarrow> getField chk m gf var name def = Inl BadXGuards)
       \<and> (\<not> chk \<and> 0 \<le> xg \<and> yg < 0 \<longrightarrow> getField chk m gf var name def = Inl BadYGuards)
       \<and> (\<forall>gf' var'. getField chk m gf var name def = Inr (True, gf', var') \<longrightarrow>
            0 \<le> xg \<and> 0 \<le> yg
            \<and> (\<exists>w. read_window chk m gf (getSize (the_file gf) name) = Inr w
                  \<and> (0 < xg \<longrightarrow> w_xd w = xg - mxg m)
                  \<and> (0 < yg \<longrightarrow> w_yd w = yg - myg m)))"
proof -
  let ?fd = "getSize (the_file gf) name"
  from dims have d2: "2 \<le> length ?fd" by auto
  have g: "getField chk m gf var name def = load_field chk m gf var name ?fd" for chk
    using valid dims by (auto simp: getField_def Let_def)
  have x: "grid_xguards_of m ?fd = xg"
    by (simp add: grid_xguards_of_def xg)
  from gf have y: "grid_yguards gf = yg"
    by (auto simp: yg GridFile_def read_int_scalar_def read_int_def setGlobalOrigin_def Let_def
        split: if_splits)
  have bx: "getField chk m gf var name def = Inl BadXGuards" if "\<not> chk \<and> xg < 0"
    using read_window_unchecked(1) [OF d2, of m gf] that x
    by (simp add: g load_field_def then_do_def Let_def)
  have by': "getField chk m gf var name def = Inl BadYGuards"
    if "\<not> chk \<and> 0 \<le> xg \<and> yg < 0"
    using read_window_unchecked(2) [OF d2, of m gf] that x y
    by (simp add: g load_field_def then_do_def Let_def)
  have ok: "0 \<le> xg \<and> 0 \<le> yg
            \<and> (\<exists>w. read_window chk m gf ?fd = Inr w
                  \<and> (0 < xg \<longrightarrow> w_xd w = xg - mxg m)
                  \<and> (0 < yg \<longrightarrow> w_yd w = yg - myg m))"
    if ok: "getField chk m gf var name def = Inr (True, gf', var')" for gf' var'
  proof -
    from load_field_Inr [OF getField_load(1) [OF ok d2]] obtain w where
      w: "read_window chk m gf ?fd = Inr w"
      by blast
    note xw = read_window_Inr(2) [OF w] and yw = read_window_Inr(3) [OF w]
    have "0 \<le> xg" using x_window_nonneg [OF xw] x by simp
    moreover have "0 \<le> yg" using y_window_nonneg [OF yw] y by simp
    moreover have "w_xd w = xg - mxg m"
      using x_window_Inr(2) [OF xw] x by simp
    moreover have "0 < yg \<Longrightarrow> w_yd w = yg - myg m"
      using y_window_Inr(1) [OF yw] y by simp
    ultimately show ?thesis using w by blast
  qed
  from y bx by' ok show ?thesis by blast
qed

theorem guard_counts_of_getField_witness:
  "GridFile file5 ''grid'' = Inr gf5 \<and> is_valid (the_file gf5)
   \<and> length (getSize (the_file gf5) ''f'') = 2
   \<and> c_div (getSize (the_file gf5) ''f'' ! 0 - (GlobalNx mesh5 - 2 * mxg mesh5)) 2 = 1
   \<and> readable file5 ''y_boundary_guards'' (0, 0, 0) [1, 1]
   \<and> ints file5 ''y_boundary_guards'' 0 0 0 = 2
   \<and> grid_yguards gf5 = 2
   \<and> (\<exists>g v. getField False mesh5 gf5 var5 ''f'' 0 = Inr (True, g, v))
   \<and> (\<exists>w. read_window False mesh5 gf5 (getSize (the_file gf5) ''f'') = Inr w
          \<and> w_xd w = 1 - mxg mesh5 \<and> w_yd w = 2 - myg mesh5 \<and> w_xd w = 0 \<and> w_yd w = 0)
   \<and> c_div (getSize (the_file gf5) ''f'' ! 0
             - (GlobalNx (mesh5\<lparr>GlobalNx := 10\<rparr>) - 2 * mxg (mesh5\<lparr>GlobalNx := 10\<rparr>))) 2 = - 2
   \<and> getField False (mesh5\<lparr>GlobalNx := 10\<rparr>) gf5 var5 ''f'' 0 = Inl BadXGuards"
proof -
  have d: "length (getSize (the_file gf5) ''f'') = 2
           \<or> length (getSize (the_file gf5) ''f'') = 3 \<and> is3d var5"
    by (simp add: gf5_facts)
  have f: "readable file5 ''y_boundary_guards'' (0, 0, 0) [1, 1]"
    "ints file5 ''y_boundary_guards'' 0 0 0 = 2"
    by (simp_all add: file5_def)
  have m: "mxg mesh5 = 1" "myg mesh5 = 2"
    using mesh5_facts(1,2) [of 2 2] by (simp_all add: mesh5_self)
  have x: "c_div (getSize (the_file gf5) ''f'' ! 0 - (GlobalNx mesh5 - 2 * mxg mesh5)) 2 = 1"
    by (simp add: gf5_facts m) (simp add: mesh5_def c_div_def)
  have "mxg (mesh5\<lparr>GlobalNx := 10\<rparr>) = 1"
    by (simp add: mxg_def mesh5_def c_div_def)
  then have n: "c_div (getSize (the_file gf5) ''f'' ! 0
             - (GlobalNx (mesh5\<lparr>GlobalNx := 10\<rparr>) - 2 * mxg (mesh5\<lparr>GlobalNx := 10\<rparr>))) 2 = - 2"
    by (simp add: gf5_facts) (simp add: mesh5_def c_div_def)
  note t = guard_counts_of_getField [OF GridFile_file5 gf5_facts(1) d refl refl]
  from t [where m = "mesh5\<lparr>GlobalNx := 10\<rparr>" and chk = False and ?def = 0] n
  have e: "getField False (mesh5\<lparr>GlobalNx := 10\<rparr>) gf5 var5 ''f'' 0 = Inl BadXGuards"
    by simp
  from getField_mesh5 [where ?o5.0 = 2 and k = 2] obtain g v where
    s: "getField False mesh5 gf5 var5 ''f'' 0 = Inr (True, g, v)"
    by (auto simp: mesh5_self)
  from t [where m = mesh5 and chk = False and ?def = 0] s x f obtain w where
    w: "read_window False mesh5 gf5 (getSize (the_file gf5) ''f'') = Inr w"
      "w_xd w = 1 - mxg mesh5" "w_yd w = 2 - myg mesh5"
    by auto
  from t [where m = mesh5 and chk = False and ?def = 0] f have y: "grid_yguards gf5 = 2"
    by simp
  from w m have "\<exists>w. read_window False mesh5 gf5 (getSize (the_file gf5) ''f'') = Inr w
          \<and> w_xd w = 1 - mxg mesh5 \<and> w_yd w = 2 - myg mesh5 \<and> w_xd w = 0 \<and> w_yd w = 0"
    by simp
  with GridFile_file5 gf5_facts(1) x f y s n e show ?thesis
    by (simp add: gf5_facts)
qed

text \<open>
  C5. Let getField return found=true for a variable of two or three stored dimensions.
  The window that it has read starts in the file at the global \<open>y\<close> index \<open>ys\<close>: on a
  double-null decomposition (two X-points), the \<open>y\<close> offset of the decomposition plus
  twice the count of \<open>y\<close> guard cells of the file when the \<open>y\<close> offset is at least
  \<open>ny_inner\<close>, and the \<open>y\<close> offset itself when it is below; with at most one X-point, the
  \<open>y\<close> offset. It is the index that is read from: every interior cell \<open>(x, y)\<close> of the
  field inside the window holds what the file stores at the global \<open>y\<close> index
  \<open>ys + (y - yd)\<close>, \<open>yd\<close> being where the window starts in the field: the stored value for
  a \<open>Field2D\<close> and for a \<open>Field3D\<close> read in real space, and the inverse transform of the
  spectrum of the stored row for a \<open>Field3D\<close> read from spectral data.
\<close>

theorem y_read_start_of_getField:
  assumes ok: "getField chk m gf var name def = Inr (True, gf', var')"
    and dims: "2 \<le> length (getSize (the_file gf) name)"
  shows "\<exists>w. read_window chk m gf (getSize (the_file gf) name) = Inr w
     \<and> (numberOfXPoints m = 2 \<longrightarrow>
          w_ys w = (if ny_inner gf \<le> OffsetY m then OffsetY m + 2 * grid_yguards gf
                    else OffsetY m))
     \<and> (numberOfXPoints m \<le> 1 \<longrightarrow> w_ys w = OffsetY m)
     \<and> (\<forall>x y z. w_xd w \<le> x \<and> x < w_xd w + w_nx_to_read w
                \<and> w_yd w \<le> y \<and> y < w_yd w + w_ny_to_read w
                \<and> xstart m \<le> x \<and> x \<le> xend m \<and> ystart m \<le> y \<and> y \<le> yend m \<longrightarrow>
          (\<not> is3d var \<longrightarrow>
             val var' x y z = reals (the_file gf) name (w_xs w + (x - w_xd w))
                                (w_ys w + (y - w_yd w)) 0)
        \<and> (is3d var \<and> hasVar gf ''nz'' \<and> 0 \<le> z \<and> z < LocalNz m \<longrightarrow>
             val var' x y z = reals (the_file gf) name (w_xs w + (x - w_xd w))
                                (w_ys w + (y - w_yd w)) z)
        \<and> (is3d var \<and> \<not> hasVar gf ''nz'' \<and> 0 \<le> z \<and> z < LocalNz m \<longrightarrow>
             (\<exists>zperiod. zperiod_of m = Inr zperiod
                \<and> val var' x y z =
                    irfft (spectrum_spec
                             (stored_row (the_file gf) name (w_xs w + (x - w_xd w))
                                (w_ys w + (y - w_yd w)) (getSize (the_file gf) name ! 2))
                             (LocalNz m) zperiod (maxmode_of (getSize (the_file gf) name ! 2)))
                      (LocalNz m) ! nat z)))"
proof -
  from getField_loaded [OF ok dims] obtain w where
    w: "read_window chk m gf (getSize (the_file gf) name) = Inr w"
    and c: "\<forall>x y z. w_xd w \<le> x \<and> x < w_xd w + w_nx_to_read w
                \<and> w_yd w \<le> y \<and> y < w_yd w + w_ny_to_read w
                \<and> xstart m \<le> x \<and> x \<le> xend m \<and> ystart m \<le> y \<and> y \<le> yend m \<longrightarrow>
          (\<not> is3d var \<longrightarrow>
             val var' x y z = reals (the_file gf) name (w_xs w + (x - w_xd w))
                                (w_ys w + (y - w_yd w)) 0)
        \<and> (is3d var \<and> hasVar gf ''nz'' \<and> 0 \<le> z \<and> z < LocalNz m \<longrightarrow>
             val var' x y z = reals (the_file gf) name (w_xs w + (x - w_xd w))
                                (w_ys w + (y - w_yd w)) z)
        \<and> (is3d var \<and> \<not> hasVar gf ''nz'' \<and> 0 \<le> z \<and> z < LocalNz m \<longrightarrow>
             (\<exists>zperiod. zperiod_of m = Inr zperiod
                \<and> val var' x y z =
                    irfft (spectrum_spec
                             (stored_row (the_file gf) name (w_xs w + (x - w_xd w))
                                (w_ys w + (y - w_yd w)) (getSize (the_file gf) name ! 2))
                             (LocalNz m) zperiod (maxmode_of (getSize (the_file gf) name ! 2)))
                      (LocalNz m) ! nat z))"
    by blast
  note ys = y_start_Inr [OF read_window_Inr(1) [OF w]]
  have "numberOfXPoints m = 2 \<longrightarrow>
          w_ys w = (if ny_inner gf \<le> OffsetY m then OffsetY m + 2 * grid_yguards gf
                    else OffsetY m)"
    using ys(1) by simp
  moreover have "numberOfXPoints m \<le> 1 \<longrightarrow> w_ys w = OffsetY m"
    using ys(2) by simp
  ultimately show ?thesis
    using w c by blast
qed

theorem y_read_start_of_getField_witness:
  "numberOfXPoints mesh5 = 2 \<and> ny_inner gf5 \<le> OffsetY mesh5
   \<and> OffsetY mesh5 + 2 * grid_yguards gf5 = 6
   \<and> (\<exists>g v. getField False mesh5 gf5 var5 ''f'' 0 = Inr (True, g, v)
          \<and> val v 1 2 0 = reals (the_file gf5) ''f'' 1 (6 + 2) 0 \<and> val v 1 2 0 = 108)
   \<and> (\<exists>g v. getField False (mesh5\<lparr>OffsetY := 0\<rparr>) gf5 var5 ''f'' 0 = Inr (True, g, v)
          \<and> val v 1 2 0 = reals (the_file gf5) ''f'' 1 (0 + 2) 0 \<and> val v 1 2 0 = 102)
   \<and> (\<exists>g v. getField False (mesh5\<lparr>numberOfXPoints := 1\<rparr>) gf5 var5 ''f'' 0 = Inr (True, g, v)
          \<and> val v 1 2 0 = reals (the_file gf5) ''f'' 1 (2 + 2) 0 \<and> val v 1 2 0 = 104)
   \<and> numberOfXPoints mesh2 = 1 \<and> hasVar gf2 ''nz''
   \<and> (\<exists>g v. getField True mesh2 gf2 var2 ''g'' 0 = Inr (True, g, v)
          \<and> val v 1 0 1 = reals (the_file gf2) ''g'' 1 (0 + 0) 1 \<and> val v 1 0 1 = 101)
   \<and> numberOfXPoints mesh3 = 1 \<and> \<not> hasVar gf3 ''nz''
   \<and> (\<exists>g v. getField True mesh3 gf3 var3 ''h'' 0 = Inr (True, g, v)
          \<and> val v 0 0 0 = irfft [Complex 5 0, Complex 6 7, 0] 4 ! 0 \<and> val v 0 0 0 = 17)"
proof -
  have d: "2 \<le> length (getSize (the_file gf5) ''f'')"
    by (simp add: gf5_facts)
  have v2: "\<not> is3d var5"
    by (simp add: var5_def)
  have r: "\<exists>g v. getField False (mesh5\<lparr>OffsetY := o5, numberOfXPoints := k\<rparr>) gf5 var5 ''f'' 0
             = Inr (True, g, v)
          \<and> val v 1 2 0 = reals (the_file gf5) ''f'' 1
                             ((if 1 < k \<and> 2 \<le> o5 then o5 + 4 else o5) + 2) 0"
    for o5 k
  proof -
    let ?m = "mesh5\<lparr>OffsetY := o5, numberOfXPoints := k\<rparr>"
    from getField_mesh5 [where ?o5.0 = o5 and k = k] obtain g v where
      ok: "getField False ?m gf5 var5 ''f'' 0 = Inr (True, g, v)"
      by blast
    from y_read_start_of_getField [OF ok d] obtain w where
      w: "read_window False ?m gf5 (getSize (the_file gf5) ''f'') = Inr w"
      and c: "\<forall>x y z. w_xd w \<le> x \<and> x < w_xd w + w_nx_to_read w
                \<and> w_yd w \<le> y \<and> y < w_yd w + w_ny_to_read w
                \<and> xstart ?m \<le> x \<and> x \<le> xend ?m \<and> ystart ?m \<le> y \<and> y \<le> yend ?m \<longrightarrow>
          (\<not> is3d var5 \<longrightarrow>
             val v x y z = reals (the_file gf5) ''f'' (w_xs w + (x - w_xd w))
                                (w_ys w + (y - w_yd w)) 0)"
      by blast
    from w have w': "w = \<lparr>w_ys = (if 1 < k \<and> 2 \<le> o5 then o5 + 4 else o5), w_yd = 0,
            w_ny_to_read = 6, w_xs = 0, w_xd = 0, w_nx_to_read = 4\<rparr>"
      by (simp add: gf5_facts read_window_mesh5)
    from c [rule_format, of 1 2 0] v2
    have "val v 1 2 0 = reals (the_file gf5) ''f'' 1
                          ((if 1 < k \<and> 2 \<le> o5 then o5 + 4 else o5) + 2) 0"
      by (simp add: w' mesh5_facts)
    with ok show ?thesis by blast
  qed
  have m: "numberOfXPoints mesh5 = 2" "ny_inner gf5 \<le> OffsetY mesh5"
    "OffsetY mesh5 + 2 * grid_yguards gf5 = 6"
    by (simp_all add: mesh5_def gf5_facts)
  have e: "mesh5\<lparr>OffsetY := 0, numberOfXPoints := 2\<rparr> = mesh5\<lparr>OffsetY := 0\<rparr>"
    "mesh5\<lparr>OffsetY := 2, numberOfXPoints := 1\<rparr> = mesh5\<lparr>numberOfXPoints := 1\<rparr>"
    by (simp_all add: mesh5_def)
  from r [where ?o5.0 = 2 and k = 2] have a: "\<exists>g v. getField False mesh5 gf5 var5 ''f'' 0 = Inr (True, g, v)
          \<and> val v 1 2 0 = reals (the_file gf5) ''f'' 1 (6 + 2) 0 \<and> val v 1 2 0 = 108"
    by (simp add: mesh5_self gf5_facts)
  from r [where ?o5.0 = 0 and k = 2] have b: "\<exists>g v. getField False (mesh5\<lparr>OffsetY := 0\<rparr>) gf5 var5 ''f'' 0
            = Inr (True, g, v)
          \<and> val v 1 2 0 = reals (the_file gf5) ''f'' 1 (0 + 2) 0 \<and> val v 1 2 0 = 102"
    by (simp add: gf5_facts e)
  from r [where ?o5.0 = 2 and k = 1] have c: "\<exists>g v. getField False (mesh5\<lparr>numberOfXPoints := 1\<rparr>) gf5 var5 ''f'' 0
            = Inr (True, g, v)
          \<and> val v 1 2 0 = reals (the_file gf5) ''f'' 1 (2 + 2) 0 \<and> val v 1 2 0 = 104"
    by (simp add: gf5_facts e)
  have g: "\<exists>g v. getField True mesh2 gf2 var2 ''g'' 0 = Inr (True, g, v)
          \<and> val v 1 0 1 = reals (the_file gf2) ''g'' 1 (0 + 0) 1 \<and> val v 1 0 1 = 101"
  proof -
    from getField_mesh2 obtain g v where
      ok: "getField True mesh2 gf2 var2 ''g'' 0 = Inr (True, g, v)"
      by blast
    have d2: "2 \<le> length (getSize (the_file gf2) ''g'')"
      by (simp add: gf2_facts)
    from y_read_start_of_getField [OF ok d2] obtain w where
      w: "read_window True mesh2 gf2 (getSize (the_file gf2) ''g'') = Inr w"
      and ys: "numberOfXPoints mesh2 \<le> 1 \<longrightarrow> w_ys w = OffsetY mesh2"
      and c: "\<forall>x y z. w_xd w \<le> x \<and> x < w_xd w + w_nx_to_read w
                \<and> w_yd w \<le> y \<and> y < w_yd w + w_ny_to_read w
                \<and> xstart mesh2 \<le> x \<and> x \<le> xend mesh2 \<and> ystart mesh2 \<le> y \<and> y \<le> yend mesh2 \<longrightarrow>
          (is3d var2 \<and> hasVar gf2 ''nz'' \<and> 0 \<le> z \<and> z < LocalNz mesh2 \<longrightarrow>
             val v x y z = reals (the_file gf2) ''g'' (w_xs w + (x - w_xd w))
                                (w_ys w + (y - w_yd w)) z)"
      by blast
    from w have w': "w = \<lparr>w_ys = 0, w_yd = 0, w_ny_to_read = 1, w_xs = 0, w_xd = 0,
            w_nx_to_read = 2\<rparr>"
      by (simp add: gf2_facts read_window_mesh2)
    from c [rule_format, of 1 0 1]
    have "val v 1 0 1 = reals (the_file gf2) ''g'' 1 (0 + 0) 1"
      by (simp add: w' mesh2_facts gf2_facts(4,5))
    with ok show ?thesis by (auto simp: gf2_facts)
  qed
  have h: "\<exists>g v. getField True mesh3 gf3 var3 ''h'' 0 = Inr (True, g, v)
          \<and> val v 0 0 0 = irfft [Complex 5 0, Complex 6 7, 0] 4 ! 0 \<and> val v 0 0 0 = 17"
  proof -
    from getField_mesh3 obtain g v where
      ok: "getField True mesh3 gf3 var3 ''h'' 0 = Inr (True, g, v)"
      by blast
    have d3: "2 \<le> length (getSize (the_file gf3) ''h'')"
      by (simp add: gf3_h_facts)
    from y_read_start_of_getField [OF ok d3] obtain w where
      w: "read_window True mesh3 gf3 (getSize (the_file gf3) ''h'') = Inr w"
      and c: "\<forall>x y z. w_xd w \<le> x \<and> x < w_xd w + w_nx_to_read w
                \<and> w_yd w \<le> y \<and> y < w_yd w + w_ny_to_read w
                \<and> xstart mesh3 \<le> x \<and> x \<le> xend mesh3 \<and> ystart mesh3 \<le> y \<and> y \<le> yend mesh3 \<longrightarrow>
          (is3d var3 \<and> \<not> hasVar gf3 ''nz'' \<and> 0 \<le> z \<and> z < LocalNz mesh3 \<longrightarrow>
             (\<exists>zperiod. zperiod_of mesh3 = Inr zperiod
                \<and> val v x y z =
                    irfft (spectrum_spec
                             (stored_row (the_file gf3) ''h'' (w_xs w + (x - w_xd w))
                                (w_ys w + (y - w_yd w)) (getSize (the_file gf3) ''h'' ! 2))
                             (LocalNz mesh3) zperiod
                             (maxmode_of (getSize (the_file gf3) ''h'' ! 2)))
                      (LocalNz mesh3) ! nat z))"
      by blast
    from w have w': "w = \<lparr>w_ys = 0, w_yd = 0, w_ny_to_read = 1, w_xs = 0, w_xd = 0,
            w_nx_to_read = 1\<rparr>"
      by (simp add: gf3_h_facts read_window_mesh3)
    from c [rule_format, of 0 0 0] zperiod_mesh3
    have k: "val v 0 0 0
               = irfft (spectrum_spec (stored_row (the_file gf3) ''h'' 0 0 3) 4 1 (maxmode_of 3)) 4
                   ! 0"
      by (simp add: w' mesh3_facts mesh3_sel gf3_facts(1,3) gf3_h_facts)
    have "spectrum_spec (stored_row (the_file gf3) ''h'' 0 0 3) 4 1 (maxmode_of 3)
            = [Complex 5 0, Complex 6 7, 0]"
      using stored_row_nth [of 0 3 "the_file gf3" "''h''" 0 0]
        stored_row_nth [of 1 3 "the_file gf3" "''h''" 0 0]
        stored_row_nth [of 2 3 "the_file gf3" "''h''" 0 0]
      by (simp add: spectrum_spec_three spectrum_entry_def maxmode_values gf3_h_facts)
    with k have "val v 0 0 0 = irfft [Complex 5 0, Complex 6 7, 0] 4 ! 0"
      by simp
    with ok show ?thesis by (auto simp: irfft_four_first)
  qed
  from m a b c g h mesh2_facts(10) mesh3_facts(7) gf2_facts(4) gf3_facts(1) show ?thesis
    by blast
qed

subsection \<open>getField on a file without x guard cells\<close>

lemma readField_negative_xd:
  assumes "xd < 0" and "0 < nx"
  shows "readField m gf name ys yd ny xs xd nx sz var \<noteq> Inr r"
proof (cases "is3d var")
  case False
  show ?thesis
  proof
    assume "readField m gf name ys yd ny xs xd nx sz var = Inr r"
    with False obtain t where
      run: "for_loop xs (xs + nx) (read_row_2d name ys yd ny xs xd) (the_file gf, var) = Inr t"
      by (auto simp: readField_def readField2D_def split: sum.splits)
    from for_loop_first [OF run] assms(2) obtain t' where
      "read_row_2d name ys yd ny xs xd xs (the_file gf, var) = Inr t'"
      by auto
    then have "in_box var (xs - xs + xd) yd 0"
      by (auto simp: read_row_2d_def Let_def split: if_splits)
    with assms(1) show False
      by (simp add: in_box_def)
  qed
next
  case True
  have "readgrid_3dvar_real gf name ys yd ny xs xd nx var = Inr (False, gf, var)"
    "readgrid_3dvar_fft m gf name ys yd ny xs xd nx var = Inr (False, gf, var)"
    using assms(1) by (simp_all add: readgrid_3dvar_real_def readgrid_3dvar_fft_def)
  with True show ?thesis
    by (simp add: readField_def readField3D_def)
qed

lemma getField_without_x_guards:
  assumes mx: "0 < mxg m" and nx: "0 < LocalNx m"
    and dims: "2 \<le> length (getSize (the_file gf) name)"
    and nog: "getSize (the_file gf) name ! 0 = GlobalNx m - 2 * mxg m"
  shows "getField chk m gf var name def \<noteq> Inr (True, gf', var')"
    and "chk \<Longrightarrow> read_window chk m gf (getSize (the_file gf) name) = Inl AssertFailed"
proof -
  let ?fd = "getSize (the_file gf) name"
  have g0: "grid_xguards_of m ?fd = 0"
    by (simp add: grid_xguards_of_def nog c_div_def)
  show "getField chk m gf var name def \<noteq> Inr (True, gf', var')"
  proof
    assume ok: "getField chk m gf var name def = Inr (True, gf', var')"
    from load_field_Inr [OF getField_load(1) [OF ok dims]] obtain w v1 where
      w: "read_window chk m gf ?fd = Inr w"
      and r: "readField m gf name (w_ys w) (w_yd w) (w_ny_to_read w)
                (w_xs w) (w_xd w) (w_nx_to_read w) ?fd var = Inr (gf', v1)"
      by blast
    from x_window_Inr [OF read_window_Inr(2) [OF w]] g0
    have "w_nx_to_read w = LocalNx m" "w_xd w = - mxg m"
      by simp_all
    with readField_negative_xd [of "w_xd w" "w_nx_to_read w"] mx nx r show False
      by simp
  qed
  show "read_window chk m gf ?fd = Inl AssertFailed" if chk
  proof -
    have a: "ASSERT1 chk c = Inl AssertFailed \<or> ASSERT1 chk c = Inr ()" for c
      by (simp add: ASSERT1_def)
    have x: "x_window chk m ?fd = Inl AssertFailed"
      using that mx nog by (simp add: x_window_zero_guards [OF g0])
    have y: "y_start chk m gf = Inl AssertFailed \<or> (\<exists>ys. y_start chk m gf = Inr ys)"
      using a [of "numberOfXPoints m = 2"] by (auto simp: y_start_def then_do_def)
    from dims have l: "\<not> length ?fd < 2" by simp
    show ?thesis
      using a [of "c_mod (LocalNx m - (xend m - xstart m + 1)) 2 = 0"]
        a [of "c_mod (LocalNy m - (yend m - ystart m + 1)) 2 = 0"] y x l
      by (auto simp: read_window_def then_do_def)
  qed
qed

text \<open>
  C2 on a file without \<open>x\<close> guard cells. Let the mesh have guard cells in \<open>x\<close>
  (\<open>mxg > 0\<close>, and at least one column), and let the variable have two or three stored
  dimensions with the stored \<open>x\<close> extent GlobalNx - 2 mxg. Then no call of getField loads
  the field: none returns found=true. When the backend is readable and the dimensions fit
  the field, the call ends in an error, and with assertions compiled in that error is the
  failed assertion \<open>xd >= 0\<close> of line 275. The copies of the columns \<open>xstart\<close> and \<open>xend\<close>
  into the guard cells are never reached after a read.
\<close>

theorem getField_never_loads_without_x_guards:
  assumes mx: "0 < mxg m" and nx: "0 < LocalNx m"
    and dims: "2 \<le> length (getSize (the_file gf) name)"
    and nog: "getSize (the_file gf) name ! 0 = GlobalNx m - 2 * mxg m"
  shows "(\<forall>gf' var'. getField chk m gf var name def \<noteq> Inr (True, gf', var'))
       \<and> (is_valid (the_file gf)
            \<and> (length (getSize (the_file gf) name) = 2
                \<or> length (getSize (the_file gf) name) = 3 \<and> is3d var)
          \<longrightarrow> (\<exists>e. getField chk m gf var name def = Inl e)
            \<and> (chk \<longrightarrow> getField chk m gf var name def = Inl AssertFailed))"
proof (intro conjI allI impI)
  fix gf' var'
  show "getField chk m gf var name def \<noteq> Inr (True, gf', var')"
    using mx nx dims nog by (rule getField_without_x_guards(1))
next
  assume v: "is_valid (the_file gf)
            \<and> (length (getSize (the_file gf) name) = 2
                \<or> length (getSize (the_file gf) name) = 3 \<and> is3d var)"
  then have g: "getField chk m gf var name def
                  = load_field chk m gf var name (getSize (the_file gf) name)"
    by (auto simp: getField_def Let_def)
  show "\<exists>e. getField chk m gf var name def = Inl e"
  proof (cases "getField chk m gf var name def")
    case (Inl e)
    then show ?thesis by blast
  next
    case (Inr r)
    then obtain ok gf' var' where r: "r = (ok, gf', var')" by (cases r)
    from Inr g r have "load_field chk m gf var name (getSize (the_file gf) name)
                         = Inr (ok, gf', var')"
      by simp
    then have ok
      by (auto simp: load_field_def Let_def then_do_def split: sum.splits prod.splits)
    with Inr r getField_without_x_guards(1) [OF mx nx dims nog, of chk var "def" gf' var']
    show ?thesis by simp
  qed
  assume chk
  from getField_without_x_guards(2) [OF mx nx dims nog this]
  show "getField chk m gf var name def = Inl AssertFailed"
    by (simp add: g load_field_def then_do_def Let_def)
qed

lemma gf4_facts:
  "is_valid (the_file gf4)" "getSize (the_file gf4) ''f'' = [8, 14]"
  "getSize (the_file gf4) ''g'' = [8, 14, 4]" "hasVar gf4 ''nz''" "grid_yguards gf4 = 2"
  "ny_inner gf4 = 8"
  by (simp_all add: gf4_def file4_def hasVar_def)

lemma read_window_gf4:
  assumes "fd ! 0 = 8" and "2 \<le> length fd"
  shows "read_window False mesh0 gf4 fd
           = Inr \<lparr>w_ys = 12, w_yd = 0, w_ny_to_read = 8, w_xs = 0, w_xd = - 2, w_nx_to_read = 8\<rparr>"
proof -
  have s: "GlobalNx mesh0 = 12" "LocalNx mesh0 = 8" "LocalNy mesh0 = 8" "OffsetX mesh0 = 0"
    "OffsetY mesh0 = 8" "numberOfXPoints mesh0 = 2"
    by (simp_all add: mesh0_def)
  have "grid_xguards_of mesh0 fd = 0"
    by (simp add: grid_xguards_of_def assms(1) mesh0_widths s c_div_def)
  then have "x_window False mesh0 fd = Inr (8, - 2)"
    by (simp add: x_window_zero_guards mesh0_widths s)
  moreover have "y_start False mesh0 gf4 = Inr 12"
    by (simp add: y_start_def then_do_def ASSERT1_def s gf4_facts)
  moreover have "y_window False mesh0 gf4 fd = Inr (8, 0)"
    by (simp add: y_window_def y_guard_case_def then_do_def ASSERT1_def mesh0_widths gf4_facts s)
  ultimately show ?thesis
    using assms(2) by (simp add: read_window_def then_do_def ASSERT1_def s)
qed

theorem getField_never_loads_without_x_guards_witness:
  "0 < mxg mesh0 \<and> 0 < LocalNx mesh0
   \<and> getSize (the_file gf4) ''f'' ! 0 = GlobalNx mesh0 - 2 * mxg mesh0
   \<and> getSize (the_file gf4) ''g'' ! 0 = GlobalNx mesh0 - 2 * mxg mesh0
   \<and> getField True mesh0 gf4 var4 ''f'' 0 = Inl AssertFailed
   \<and> getField True mesh0 gf4 var4g ''g'' 0 = Inl AssertFailed
   \<and> getField False mesh0 gf4 var4 ''f'' 0 = Inl OutOfBounds
   \<and> getField False mesh0 gf4 var4g ''g'' 0 = Inl CouldNotRead3D"
proof -
  have m: "0 < mxg mesh0" "0 < LocalNx mesh0"
    by (simp_all add: mesh0_widths) (simp add: mesh0_def)
  have df: "2 \<le> length (getSize (the_file gf4) ''f'')"
    and dg: "2 \<le> length (getSize (the_file gf4) ''g'')"
    by (simp_all add: gf4_facts)
  have nf: "getSize (the_file gf4) ''f'' ! 0 = GlobalNx mesh0 - 2 * mxg mesh0"
    and ng: "getSize (the_file gf4) ''g'' ! 0 = GlobalNx mesh0 - 2 * mxg mesh0"
    by (simp_all add: gf4_facts mesh0_widths) (simp_all add: mesh0_def)
  have vf: "is_valid (the_file gf4)
            \<and> (length (getSize (the_file gf4) ''f'') = 2
                \<or> length (getSize (the_file gf4) ''f'') = 3 \<and> is3d var4)"
    and vg: "is_valid (the_file gf4)
            \<and> (length (getSize (the_file gf4) ''g'') = 2
                \<or> length (getSize (the_file gf4) ''g'') = 3 \<and> is3d var4g)"
    by (simp_all add: gf4_facts var4g_def)
  from getField_never_loads_without_x_guards [OF m df nf, of True var4 0,
      THEN conjunct2, THEN mp, OF vf, THEN conjunct2]
  have a: "getField True mesh0 gf4 var4 ''f'' 0 = Inl AssertFailed"
    by simp
  from getField_never_loads_without_x_guards [OF m dg ng, of True var4g 0,
      THEN conjunct2, THEN mp, OF vg, THEN conjunct2]
  have b: "getField True mesh0 gf4 var4g ''g'' 0 = Inl AssertFailed"
    by simp
  have "in_box var4 (- 2) 0 0 = False"
    by (simp add: in_box_def)
  then have "readField2D gf4 ''f'' 12 0 8 0 (- 2) 8 var4 = Inl OutOfBounds"
    by (simp add: readField2D_def) (subst for_loop.simps, simp add: read_row_2d_def)
  then have c: "getField False mesh0 gf4 var4 ''f'' 0 = Inl OutOfBounds"
    by (simp add: getField_def load_field_def gf4_facts read_window_gf4 then_do_def
        readField_def var4_def)
  have "LocalNz mesh0 = 4" by (simp add: mesh0_def)
  then have "readField3D mesh0 gf4 ''g'' 12 0 8 0 (- 2) 8 [8, 14, 4] var4g = Inl CouldNotRead3D"
    by (simp add: readField3D_def gf4_facts readgrid_3dvar_real_def)
  then have d: "getField False mesh0 gf4 var4g ''g'' 0 = Inl CouldNotRead3D"
    by (simp add: getField_def load_field_def gf4_facts read_window_gf4 then_do_def
        readField_def var4g_def)
  from m nf ng a b c d show ?thesis by simp
qed

end
